(* ===== verification/Prelude.thy ===== *)
theory Prelude
  imports Main "HOL-Library.Word"
begin

text \<open>
  Shared ground of the development: the names of the machine types, the memory image of an
  integer on the (little-endian) hosts the SDK is built for, bounds-checked reads and writes of
  a byte buffer, and the lemma collections the component theories use.

  A C++ byte buffer (\<open>std::vector<std::uint8_t>\<close>) is a \<open>byte list\<close>.  An access outside the
  buffer is undefined behaviour in C++; the model makes it the value \<open>None\<close>.
\<close>

type_synonym byte = "8 word"
type_synonym u16 = "16 word"
type_synonym u32 = "32 word"
type_synonym u64 = "64 word"

named_theorems codec "round trips and lengths of memory images"
named_theorems buffer "bounds-checked buffer accesses"

section \<open>Memory images of integers\<close>

text \<open>\<open>le_bytes n v\<close> is the memory image of the \<open>n\<close>-byte integer \<open>v\<close>, least significant byte first.\<close>

fun le_bytes :: "nat \<Rightarrow> int \<Rightarrow> byte list" where
  "le_bytes 0 v = []"
| "le_bytes (Suc n) v = of_int v # le_bytes n (v div 256)"

fun le_int :: "byte list \<Rightarrow> int" where
  "le_int [] = 0"
| "le_int (b # bs) = uint b + 256 * le_int bs"

lemma length_le_bytes [simp, codec]: "length (le_bytes n v) = n"
  by (induction n arbitrary: v) auto

lemma uint_bounds: "0 \<le> uint (w :: 'a::len word)" "uint w < 2 ^ LENGTH('a)"
  by (simp_all add: unsigned_less)

lemma unat_bound: "unat (w :: 'a::len word) < 2 ^ LENGTH('a)"
  by (rule unsigned_less)

lemma uint_of_int_byte: "uint (of_int v :: byte) = v mod 256"
  by (simp add: uint_word_of_int)

lemma le_int_le_bytes [codec]: "le_int (le_bytes n v) = v mod 256 ^ n"
proof (induction n arbitrary: v)
  case 0
  then show ?case by simp
next
  case (Suc n)
  have "v mod (256 * 256 ^ n) = 256 * (v div 256 mod 256 ^ n) + v mod 256"
    by (rule zmod_zmult2_eq) simp
  with Suc show ?case by (simp add: uint_of_int_byte)
qed

lemma uint_byte_lt: "uint (b :: byte) < 256"
  using uint_bounds(2) [of b] by simp

lemma le_int_bounds: "0 \<le> le_int bs" "le_int bs < 256 ^ length bs"
proof (induction bs)
  case (Cons b bs)
  have "uint b < 256" by (rule uint_byte_lt)
  then show "0 \<le> le_int (b # bs)" "le_int (b # bs) < 256 ^ length (b # bs)"
    using Cons.IH by simp_all
qed simp_all

lemma le_bytes_le_int [codec]: "le_bytes (length bs) (le_int bs) = bs"
proof (induction bs)
  case Nil
  then show ?case by simp
next
  case (Cons b bs)
  have "uint b < 256" by (rule uint_byte_lt)
  then have "(uint b + 256 * le_int bs) div 256 = le_int bs" by simp
  moreover have "(of_int (uint b + 256 * le_int bs) :: byte) = b"
    using \<open>uint b < 256\<close>
    by (simp add: word_uint_eq_iff uint_of_int_byte del: of_int_add)
  ultimately show ?case using Cons.IH by simp
qed

lemma le_bytes_inj: "length bs = n \<Longrightarrow> le_bytes n (le_int bs) = bs"
  using le_bytes_le_int by blast

lemma le_bytes_mod: "le_bytes n (v mod 256 ^ n) = le_bytes n v"
proof (induction n arbitrary: v)
  case (Suc n)
  have *: "v mod (256 * 256 ^ n) = 256 * (v div 256 mod 256 ^ n) + v mod 256"
    by (rule zmod_zmult2_eq) simp
  then have "v mod (256 * 256 ^ n) div 256 = v div 256 mod 256 ^ n" by simp
  moreover have "v mod (256 * 256 ^ n) mod 256 = v mod 256" using * by simp
  then have "(of_int (v mod (256 * 256 ^ n)) :: byte) = of_int v"
    by (simp add: word_uint_eq_iff uint_of_int_byte)
  ultimately show ?case using Suc by simp
qed simp

definition mem16 :: "u16 \<Rightarrow> byte list" where
  "mem16 w = le_bytes 2 (uint w)"

definition mem32 :: "u32 \<Rightarrow> byte list" where
  "mem32 w = le_bytes 4 (uint w)"

definition mem64 :: "u64 \<Rightarrow> byte list" where
  "mem64 w = le_bytes 8 (uint w)"

definition load16 :: "byte list \<Rightarrow> u16" where
  "load16 bs = of_int (le_int bs)"

definition load32 :: "byte list \<Rightarrow> u32" where
  "load32 bs = of_int (le_int bs)"

definition load64 :: "byte list \<Rightarrow> u64" where
  "load64 bs = of_int (le_int bs)"

lemma length_mem [simp, codec]:
  "length (mem16 a) = 2" "length (mem32 b) = 4" "length (mem64 c) = 8"
  by (simp_all add: mem16_def mem32_def mem64_def)

lemma load_mem16 [simp, codec]: "load16 (mem16 w) = w"
  using uint_bounds [of w] by (simp add: load16_def mem16_def le_int_le_bytes)

lemma load_mem32 [simp, codec]: "load32 (mem32 w) = w"
  using uint_bounds [of w] by (simp add: load32_def mem32_def le_int_le_bytes)

lemma load_mem64 [simp, codec]: "load64 (mem64 w) = w"
  using uint_bounds [of w] by (simp add: load64_def mem64_def le_int_le_bytes)

lemma mem_load16 [codec]: "length bs = 2 \<Longrightarrow> mem16 (load16 bs) = bs"
  using le_int_bounds [of bs] by (simp add: load16_def mem16_def uint_word_of_int le_bytes_inj)

lemma mem_load32 [codec]: "length bs = 4 \<Longrightarrow> mem32 (load32 bs) = bs"
  using le_int_bounds [of bs] by (simp add: load32_def mem32_def uint_word_of_int le_bytes_inj)

lemma mem_load64 [codec]: "length bs = 8 \<Longrightarrow> mem64 (load64 bs) = bs"
  using le_int_bounds [of bs] by (simp add: load64_def mem64_def uint_word_of_int le_bytes_inj)

section \<open>Network byte order\<close>

text \<open>
  \<open>htons\<close>, \<open>ntohs\<close>, \<open>htonl\<close> and \<open>ntohl\<close> of the C library: on a little-endian host each
  reverses the memory image of its argument.
\<close>

definition htons :: "u16 \<Rightarrow> u16" where
  "htons w = load16 (rev (mem16 w))"

definition ntohs :: "u16 \<Rightarrow> u16" where
  "ntohs w = load16 (rev (mem16 w))"

definition htonl :: "u32 \<Rightarrow> u32" where
  "htonl w = load32 (rev (mem32 w))"

definition ntohl :: "u32 \<Rightarrow> u32" where
  "ntohl w = load32 (rev (mem32 w))"

lemma mem_htons [codec]: "mem16 (htons w) = rev (mem16 w)"
  by (simp add: htons_def mem_load16)

lemma mem_htonl [codec]: "mem32 (htonl w) = rev (mem32 w)"
  by (simp add: htonl_def mem_load32)

lemma ntohs_htons [simp, codec]: "ntohs (htons w) = w" "htons (ntohs w) = w"
  "ntohs (ntohs w) = w" "htons (htons w) = w"
  by (simp_all add: htons_def ntohs_def mem_load16)

lemma ntohl_htonl [simp, codec]: "ntohl (htonl w) = w" "htonl (ntohl w) = w"
  "ntohl (ntohl w) = w" "htonl (htonl w) = w"
  by (simp_all add: htonl_def ntohl_def mem_load32)

section \<open>Bounds-checked buffer access\<close>

text \<open>\<open>peek_at off n xs\<close> reads \<open>n\<close> bytes at offset \<open>off\<close>; \<open>poke_at off bs xs\<close> overwrites.\<close>

definition peek_at :: "nat \<Rightarrow> nat \<Rightarrow> 'a list \<Rightarrow> 'a list option" where
  "peek_at off n xs = (if off + n \<le> length xs then Some (take n (drop off xs)) else None)"

definition poke_at :: "nat \<Rightarrow> 'a list \<Rightarrow> 'a list \<Rightarrow> 'a list option" where
  "poke_at off bs xs =
     (if off + length bs \<le> length xs
      then Some (take off xs @ bs @ drop (off + length bs) xs) else None)"

definition nth_opt :: "'a list \<Rightarrow> nat \<Rightarrow> 'a option" where
  "nth_opt xs i = (if i < length xs then Some (xs ! i) else None)"

definition set_opt :: "nat \<Rightarrow> 'a \<Rightarrow> 'a list \<Rightarrow> 'a list option" where
  "set_opt i x xs = (if i < length xs then Some (xs[i := x]) else None)"

lemma peek_at_Some_iff [buffer]: "(\<exists>bs. peek_at off n xs = Some bs) \<longleftrightarrow> off + n \<le> length xs"
  by (simp add: peek_at_def)

lemma length_peek_at [buffer]: "peek_at off n xs = Some bs \<Longrightarrow> length bs = n"
  by (auto simp: peek_at_def split: if_splits)

lemma peek_at_append_right [buffer]:
  "peek_at (length xs + off) n (xs @ ys) = peek_at off n ys"
  by (simp add: peek_at_def)

lemma peek_at_append_left [buffer]:
  "off + n \<le> length xs \<Longrightarrow> peek_at off n (xs @ ys) = peek_at off n xs"
  by (simp add: peek_at_def)

lemma peek_at_mid: "peek_at (length xs) (length ys) (xs @ ys @ zs) = Some ys"
  by (simp add: peek_at_def)

lemma length_poke_at [buffer]: "poke_at off bs xs = Some ys \<Longrightarrow> length ys = length xs"
  by (auto simp: poke_at_def split: if_splits)

lemma poke_at_mid: "length old = length new \<Longrightarrow>
    poke_at (length xs) new (xs @ old @ zs) = Some (xs @ new @ zs)"
  by (simp add: poke_at_def)

lemma nth_opt_Some_iff [buffer]: "nth_opt xs i = Some x \<longleftrightarrow> i < length xs \<and> xs ! i = x"
  by (auto simp: nth_opt_def)

lemma set_opt_Some_iff [buffer]: "set_opt i x xs = Some ys \<longleftrightarrow> i < length xs \<and> ys = xs[i := x]"
  by (auto simp: set_opt_def)

end
