(* ===== verification/IEEE_Float.thy ===== *)
theory IEEE_Float
  imports Complex_Main "HOL-Library.Log_Nat" Prelude
begin

text \<open>
  The C++ types \<open>float\<close> and \<open>double\<close>: IEEE 754 binary32 and binary64 with the default
  rounding (to nearest, ties to even).  A stored \<open>float\<close> or \<open>double\<close> is its bit pattern, so
  that the type-punning unions of the source are exact; an arithmetic operation decodes its
  operands, computes exactly in the rationals and rounds once.  All NaNs decode to one value.
  Intermediate extended precision and fused multiply-add are not modelled (every operation
  is rounded to its type, as on the 64-bit targets of the SDK).
\<close>

section \<open>Formats, values and rounding\<close>

datatype fp = NaN | PInf | NInf | NZero | Fin rat

record fmt =
  frac_bits :: nat
  exp_bits :: nat

definition b32 :: fmt where
  "b32 = \<lparr>frac_bits = 23, exp_bits = 8\<rparr>"

definition b64 :: fmt where
  "b64 = \<lparr>frac_bits = 52, exp_bits = 11\<rparr>"

definition bias :: "fmt \<Rightarrow> int" where
  "bias f = 2 ^ (exp_bits f - 1) - 1"

text \<open>The exponent of the smallest spacing (that of the subnormal numbers).\<close>

definition ulp_min :: "fmt \<Rightarrow> int" where
  "ulp_min f = 1 - bias f - int (frac_bits f)"

text \<open>\<open>ilog2 a\<close> is the binary exponent of a positive rational: \<open>2\<^sup>e \<le> a < 2\<^sup>e\<^sup>+\<^sup>1\<close>.\<close>

definition ilog2 :: "rat \<Rightarrow> int" where
  "ilog2 a = (if 1 \<le> a then bitlen \<lfloor>a\<rfloor> - 1 else - bitlen (\<lceil>1 / a\<rceil> - 1))"

definition ulp_exp :: "fmt \<Rightarrow> rat \<Rightarrow> int" where
  "ulp_exp f a = max (ilog2 a - int (frac_bits f)) (ulp_min f)"

text \<open>Round half to even, on the rationals.\<close>

definition rne :: "rat \<Rightarrow> int" where
  "rne x = (let n = \<lfloor>x\<rfloor>; d = x - of_int n in
     if d < 1/2 then n else if 1/2 < d then n + 1 else if even n then n else n + 1)"

definition rnd :: "fmt \<Rightarrow> rat \<Rightarrow> rat" where
  "rnd f q = (if q = 0 then 0 else
     (let u = ulp_exp f \<bar>q\<bar> in sgn q * (of_int (rne (\<bar>q\<bar> / 2 powi u)) * 2 powi u)))"

definition to_fp :: "fmt \<Rightarrow> rat \<Rightarrow> fp" where
  "to_fp f q = (let r = rnd f q in
     if 2 powi (bias f + 1) \<le> \<bar>r\<bar> then (if q < 0 then NInf else PInf)
     else if r = 0 then (if q < 0 then NZero else Fin 0)
     else Fin r)"

section \<open>Operations on values\<close>

fun fp_val :: "fp \<Rightarrow> rat" where
  "fp_val (Fin q) = q"
| "fp_val _ = 0"

fun is_fin :: "fp \<Rightarrow> bool" where
  "is_fin (Fin _) = True"
| "is_fin NZero = True"
| "is_fin _ = False"

fun is_inf :: "fp \<Rightarrow> bool" where
  "is_inf PInf = True"
| "is_inf NInf = True"
| "is_inf _ = False"

fun sign_bit :: "fp \<Rightarrow> bool" where
  "sign_bit (Fin q) = (q < 0)"
| "sign_bit NZero = True"
| "sign_bit NInf = True"
| "sign_bit _ = False"

definition signed_zero :: "bool \<Rightarrow> fp" where
  "signed_zero s = (if s then NZero else Fin 0)"

definition signed_inf :: "bool \<Rightarrow> fp" where
  "signed_inf s = (if s then NInf else PInf)"

fun fp_neg :: "fp \<Rightarrow> fp" where
  "fp_neg NaN = NaN"
| "fp_neg PInf = NInf"
| "fp_neg NInf = PInf"
| "fp_neg NZero = Fin 0"
| "fp_neg (Fin q) = (if q = 0 then NZero else Fin (- q))"

definition fp_add :: "fmt \<Rightarrow> fp \<Rightarrow> fp \<Rightarrow> fp" where
  "fp_add f x y =
     (if x = NaN \<or> y = NaN then NaN
      else if is_inf x then (if is_inf y \<and> x \<noteq> y then NaN else x)
      else if is_inf y then y
      else if x = NZero \<and> y = NZero then NZero
      else to_fp f (fp_val x + fp_val y))"

definition fp_sub :: "fmt \<Rightarrow> fp \<Rightarrow> fp \<Rightarrow> fp" where
  "fp_sub f x y = fp_add f x (fp_neg y)"

definition fp_mul :: "fmt \<Rightarrow> fp \<Rightarrow> fp \<Rightarrow> fp" where
  "fp_mul f x y =
     (let s = (sign_bit x \<noteq> sign_bit y) in
      if x = NaN \<or> y = NaN then NaN
      else if is_inf x then (if is_fin y \<and> fp_val y = 0 then NaN else signed_inf s)
      else if is_inf y then (if fp_val x = 0 then NaN else signed_inf s)
      else if fp_val x = 0 \<or> fp_val y = 0 then signed_zero s
      else to_fp f (fp_val x * fp_val y))"

definition fp_div :: "fmt \<Rightarrow> fp \<Rightarrow> fp \<Rightarrow> fp" where
  "fp_div f x y =
     (let s = (sign_bit x \<noteq> sign_bit y) in
      if x = NaN \<or> y = NaN then NaN
      else if is_inf x then (if is_inf y then NaN else signed_inf s)
      else if is_inf y then signed_zero s
      else if fp_val y = 0 then (if fp_val x = 0 then NaN else signed_inf s)
      else if fp_val x = 0 then signed_zero s
      else to_fp f (fp_val x / fp_val y))"

text \<open>Comparisons: any comparison with a NaN is false; the two zeros are equal.\<close>

definition fp_less :: "fp \<Rightarrow> fp \<Rightarrow> bool" where
  "fp_less x y =
     (if x = NaN \<or> y = NaN then False
      else if x = PInf \<or> y = NInf then False
      else if x = NInf \<or> y = PInf then True
      else fp_val x < fp_val y)"

definition fp_leq :: "fp \<Rightarrow> fp \<Rightarrow> bool" where
  "fp_leq x y =
     (if x = NaN \<or> y = NaN then False
      else if x = NInf \<or> y = PInf then True
      else if x = PInf \<or> y = NInf then False
      else fp_val x \<le> fp_val y)"

definition fp_cast :: "fmt \<Rightarrow> fp \<Rightarrow> fp" where
  "fp_cast f x = (case x of Fin q \<Rightarrow> to_fp f q | _ \<Rightarrow> x)"

text \<open>
  \<open>static_cast\<close> to an integer type truncates towards zero; outside the range of the type
  (and for NaN and the infinities) it is undefined behaviour: \<open>None\<close>.
\<close>

definition rat_trunc :: "rat \<Rightarrow> int" where
  "rat_trunc q = (if 0 \<le> q then \<lfloor>q\<rfloor> else \<lceil>q\<rceil>)"

definition fp_to_int :: "int \<Rightarrow> int \<Rightarrow> fp \<Rightarrow> int option" where
  "fp_to_int lo hi x =
     (if is_fin x then
        (let n = rat_trunc (fp_val x) in if lo \<le> n \<and> n \<le> hi then Some n else None)
      else None)"

definition fp_ceil :: "fp \<Rightarrow> fp" where
  "fp_ceil x = (case x of
       Fin q \<Rightarrow> (if \<lceil>q\<rceil> = 0 \<and> q < 0 then NZero else Fin (of_int \<lceil>q\<rceil>)) | _ \<Rightarrow> x)"

section \<open>Bit patterns\<close>

definition enc :: "fmt \<Rightarrow> fp \<Rightarrow> int" where
  "enc f x = (let t = frac_bits f; w = exp_bits f; m = 2 ^ w - 1; s = 2 ^ (t + w) in
     case x of
       NaN \<Rightarrow> m * 2 ^ t + 2 ^ (t - 1)
     | PInf \<Rightarrow> m * 2 ^ t
     | NInf \<Rightarrow> s + m * 2 ^ t
     | NZero \<Rightarrow> s
     | Fin q \<Rightarrow> (if q = 0 then 0 else
         (let u = ulp_exp f \<bar>q\<bar>;
              body = (u - ulp_min f) * 2 ^ t + \<lfloor>\<bar>q\<bar> / 2 powi u\<rfloor>
          in if q < 0 then s + body else body)))"

definition dec :: "fmt \<Rightarrow> int \<Rightarrow> fp" where
  "dec f n = (let t = frac_bits f; w = exp_bits f;
        s = odd (n div 2 ^ (t + w)); e = n div 2 ^ t mod 2 ^ w; m = n mod 2 ^ t in
     if e = 2 ^ w - 1 then (if m = 0 then signed_inf s else NaN)
     else
       (let a = (if e = 0 then of_int m * 2 powi ulp_min f
                 else of_int (2 ^ t + m) * 2 powi (e - 1 + ulp_min f)) in
        if a = 0 then signed_zero s else Fin (if s then - a else a)))"

text \<open>A stored \<open>float\<close> and a stored \<open>double\<close>.\<close>

datatype float32 = F32 u32
datatype float64 = F64 u64

fun bits32 :: "float32 \<Rightarrow> u32" where "bits32 (F32 w) = w"
fun bits64 :: "float64 \<Rightarrow> u64" where "bits64 (F64 w) = w"

definition val32 :: "float32 \<Rightarrow> fp" where "val32 x = dec b32 (uint (bits32 x))"
definition val64 :: "float64 \<Rightarrow> fp" where "val64 x = dec b64 (uint (bits64 x))"

definition mk32 :: "fp \<Rightarrow> float32" where "mk32 x = F32 (of_int (enc b32 x))"
definition mk64 :: "fp \<Rightarrow> float64" where "mk64 x = F64 (of_int (enc b64 x))"

text \<open>The conversions and operations of the two types.\<close>

definition f32_of_f64 :: "float64 \<Rightarrow> float32" where
  "f32_of_f64 x = mk32 (fp_cast b32 (val64 x))"

definition f64_of_f32 :: "float32 \<Rightarrow> float64" where
  "f64_of_f32 x = mk64 (val32 x)"

definition f32_of_int :: "int \<Rightarrow> float32" where
  "f32_of_int i = mk32 (to_fp b32 (of_int i))"

definition f64_of_int :: "int \<Rightarrow> float64" where
  "f64_of_int i = mk64 (to_fp b64 (of_int i))"

definition f32_of_rat :: "rat \<Rightarrow> float32" where
  "f32_of_rat q = mk32 (to_fp b32 q)"

definition f64_of_rat :: "rat \<Rightarrow> float64" where
  "f64_of_rat q = mk64 (to_fp b64 q)"

definition f32_mul :: "float32 \<Rightarrow> float32 \<Rightarrow> float32" where
  "f32_mul x y = mk32 (fp_mul b32 (val32 x) (val32 y))"

definition f32_div :: "float32 \<Rightarrow> float32 \<Rightarrow> float32" where
  "f32_div x y = mk32 (fp_div b32 (val32 x) (val32 y))"

definition f32_add :: "float32 \<Rightarrow> float32 \<Rightarrow> float32" where
  "f32_add x y = mk32 (fp_add b32 (val32 x) (val32 y))"

definition f32_sub :: "float32 \<Rightarrow> float32 \<Rightarrow> float32" where
  "f32_sub x y = mk32 (fp_sub b32 (val32 x) (val32 y))"

definition f64_add :: "float64 \<Rightarrow> float64 \<Rightarrow> float64" where
  "f64_add x y = mk64 (fp_add b64 (val64 x) (val64 y))"

definition f64_sub :: "float64 \<Rightarrow> float64 \<Rightarrow> float64" where
  "f64_sub x y = mk64 (fp_sub b64 (val64 x) (val64 y))"

definition f64_mul :: "float64 \<Rightarrow> float64 \<Rightarrow> float64" where
  "f64_mul x y = mk64 (fp_mul b64 (val64 x) (val64 y))"

definition f64_div :: "float64 \<Rightarrow> float64 \<Rightarrow> float64" where
  "f64_div x y = mk64 (fp_div b64 (val64 x) (val64 y))"

definition f64_neg :: "float64 \<Rightarrow> float64" where
  "f64_neg x = mk64 (fp_neg (val64 x))"

definition f64_less :: "float64 \<Rightarrow> float64 \<Rightarrow> bool" where
  "f64_less x y = fp_less (val64 x) (val64 y)"

definition f64_leq :: "float64 \<Rightarrow> float64 \<Rightarrow> bool" where
  "f64_leq x y = fp_leq (val64 x) (val64 y)"

definition f64_to_int32 :: "float64 \<Rightarrow> int option" where
  "f64_to_int32 x = fp_to_int (- (2 ^ 31)) (2 ^ 31 - 1) (val64 x)"

definition f32_to_u32 :: "float32 \<Rightarrow> u32 option" where
  "f32_to_u32 x = map_option of_int (fp_to_int 0 (2 ^ 32 - 1) (val32 x))"

definition f32_to_u16 :: "float32 \<Rightarrow> u16 option" where
  "f32_to_u16 x = map_option of_int (fp_to_int 0 65535 (val32 x))"

end
