(* ===== verification/IEEE_Props.thy ===== *)
theory IEEE_Props
  imports IEEE_Float
begin

text \<open>
  What the rounding of \<open>IEEE_Float\<close> guarantees: the binary exponent, the error of a
  rounding, monotonicity, exactness on representable values, and that a representable value
  survives its bit pattern.  The laws that client theories use are the locale
  \<open>rounding\<close>, interpreted for both formats.
\<close>

section \<open>Powers of two and the binary exponent\<close>

lemma pow2_pos [simp]: "0 < (2 :: rat) powi e"
  by simp

lemma pow2_not_le [simp]: "\<not> (2 :: rat) powi e \<le> 0"
  by (simp add: not_le)

lemma pow2_nonzero [simp]: "(2 :: rat) \<noteq> 0" "(2 :: rat) powi e \<noteq> 0"
  by simp_all

lemma pow2_Suc: "(2 :: rat) powi (e + 1) = 2 * 2 powi e"
  by (simp add: power_int_add)

lemma pow2_mono: "a \<le> b \<Longrightarrow> (2 :: rat) powi a \<le> 2 powi b"
  by (simp add: power_int_increasing)

lemma pow2_nat: "0 \<le> e \<Longrightarrow> (2 :: rat) powi e = of_int (2 ^ nat e)"
  by (simp add: power_int_def)

lemma pow2_split: "u \<le> v \<Longrightarrow> (2 :: rat) powi v = of_int (2 ^ nat (v - u)) * 2 powi u"
proof -
  assume "u \<le> v"
  have "(2 :: rat) powi v = 2 powi (v - u) * 2 powi u" by (simp flip: power_int_add)
  then show ?thesis using pow2_nat [of "v - u"] \<open>u \<le> v\<close> by simp
qed

lemma two_pow_pred: "1 \<le> n \<Longrightarrow> (2 :: int) ^ n = 2 * 2 ^ (n - 1)"
  by (cases n) simp_all

lemma bitlen_upper: "0 \<le> n \<Longrightarrow> n < 2 ^ nat (bitlen n)"
  by (cases "n = 0") (use bitlen_bounds [of n] in \<open>auto simp: bitlen_nonneg\<close>)

lemma bitlen_lower: "0 < n \<Longrightarrow> 2 ^ nat (bitlen n - 1) \<le> n"
  using bitlen_bounds [of n] by simp

lemma bitlen_ge_1: "0 < n \<Longrightarrow> 1 \<le> bitlen n"
  by (metis bitlen_eq_zero_iff bitlen_nonneg linorder_not_le zle_diff1_eq
      order_antisym_conv diff_0_right int_one_le_iff_zero_less)

lemma ilog2_big:
  assumes "1 \<le> a"
  shows "2 powi ilog2 a \<le> a" and "a < 2 powi (ilog2 a + 1)"
proof -
  have n: "0 < \<lfloor>a\<rfloor>" using assms by linarith
  have ge: "1 \<le> bitlen \<lfloor>a\<rfloor>" using n by (rule bitlen_ge_1)
  have "(2 :: int) ^ nat (bitlen \<lfloor>a\<rfloor> - 1) \<le> \<lfloor>a\<rfloor>" using n by (rule bitlen_lower)
  then have "of_int (2 ^ nat (bitlen \<lfloor>a\<rfloor> - 1)) \<le> a" by (simp only: le_floor_iff)
  then show "2 powi ilog2 a \<le> a" using ge assms by (simp add: ilog2_def pow2_nat)
  have "\<lfloor>a\<rfloor> < 2 ^ nat (bitlen \<lfloor>a\<rfloor>)" using n by (intro bitlen_upper) simp
  then have "a < of_int (2 ^ nat (bitlen \<lfloor>a\<rfloor>))" by (simp only: floor_less_iff)
  then show "a < 2 powi (ilog2 a + 1)" using ge assms by (simp add: ilog2_def pow2_nat)
qed

lemma ilog2_small:
  assumes "0 < a" "a < 1"
  shows "2 powi ilog2 a \<le> a" and "a < 2 powi (ilog2 a + 1)"
proof -
  define n where "n = \<lceil>1 / a\<rceil> - 1"
  have big: "1 < 1 / a" using assms by simp
  then have n: "0 < n" unfolding n_def by linarith
  have lo: "of_int n < 1 / a" and hi: "1 / a \<le> of_int (n + 1)"
    unfolding n_def by linarith+
  have ge: "1 \<le> bitlen n" using n by (rule bitlen_ge_1)
  have e: "ilog2 a = - bitlen n" using assms by (simp add: ilog2_def n_def)
  have "n + 1 \<le> 2 ^ nat (bitlen n)" using bitlen_upper [of n] n by simp
  then have "of_int (n + 1) \<le> (of_int (2 ^ nat (bitlen n)) :: rat)" by (simp only: of_int_le_iff)
  then have "1 / a \<le> 2 powi bitlen n" using hi ge by (simp add: pow2_nat)
  then show "2 powi ilog2 a \<le> a"
    using assms(1) by (simp add: e power_int_minus field_simps)
  have "(2 :: int) ^ nat (bitlen n - 1) \<le> n" using n by (rule bitlen_lower)
  then have "of_int (2 ^ nat (bitlen n - 1)) \<le> (of_int n :: rat)" by (simp only: of_int_le_iff)
  moreover have "(2 :: rat) powi (bitlen n - 1) = of_int (2 ^ nat (bitlen n - 1))"
    using ge by (intro pow2_nat) simp
  ultimately have "2 powi (bitlen n - 1) < 1 / a" using lo by linarith
  then have "a * 2 powi (bitlen n - 1) < 1" using assms(1) by (simp add: field_simps)
  moreover have "2 powi (ilog2 a + 1) * 2 powi (bitlen n - 1) = (1 :: rat)"
    by (simp add: e flip: power_int_add)
  ultimately show "a < 2 powi (ilog2 a + 1)"
    by (metis mult_less_cancel_right_pos pow2_pos)
qed

lemma ilog2_bounds:
  assumes "0 < a"
  shows "2 powi ilog2 a \<le> a" and "a < 2 powi (ilog2 a + 1)"
  using ilog2_big [of a] ilog2_small [of a] assms by (cases "1 \<le> a"; simp)+

lemma ilog2_mono:
  assumes "0 < a" "a \<le> b"
  shows "ilog2 a \<le> ilog2 b"
proof (rule ccontr)
  assume "\<not> ilog2 a \<le> ilog2 b"
  then have "(2 :: rat) powi (ilog2 b + 1) \<le> 2 powi ilog2 a" by (intro pow2_mono) simp
  also have "\<dots> \<le> a" using assms(1) by (rule ilog2_bounds)
  finally show False using ilog2_bounds(2) [of b] assms by simp
qed

lemma ilog2_eqI:
  assumes "2 powi e \<le> a" "a < 2 powi (e + 1)"
  shows "ilog2 a = e"
proof -
  have a: "0 < a" using assms(1) by (metis less_le_trans pow2_pos)
  have "\<not> e + 1 \<le> ilog2 a"
    using pow2_mono [of "e + 1" "ilog2 a"] ilog2_bounds(1) [OF a] assms(2) by fastforce
  moreover have "\<not> ilog2 a + 1 \<le> e"
    using pow2_mono [of "ilog2 a + 1" e] ilog2_bounds(2) [OF a] assms(1) by fastforce
  ultimately show ?thesis by simp
qed

section \<open>Rounding to an integer\<close>

lemma rne_of_int [simp]: "rne (of_int n) = n"
  by (simp add: rne_def)

lemma rne_error: "\<bar>of_int (rne x) - x\<bar> \<le> 1/2"
proof -
  have "of_int \<lfloor>x\<rfloor> \<le> x" "x < of_int \<lfloor>x\<rfloor> + 1" by linarith+
  then show ?thesis by (auto simp: rne_def Let_def)
qed

lemma rne_mono:
  assumes "x \<le> y"
  shows "rne x \<le> rne y"
proof (cases "\<lfloor>x\<rfloor> = \<lfloor>y\<rfloor>")
  case True
  then show ?thesis using assms by (auto simp: rne_def Let_def)
next
  case False
  then have "\<lfloor>x\<rfloor> + 1 \<le> \<lfloor>y\<rfloor>" using floor_mono [OF assms] by simp
  moreover have "rne x \<le> \<lfloor>x\<rfloor> + 1" "\<lfloor>y\<rfloor> \<le> rne y" by (auto simp: rne_def Let_def)
  ultimately show ?thesis by linarith
qed

lemma rne_nonneg: "0 \<le> x \<Longrightarrow> 0 \<le> rne x"
  using rne_mono [of 0 x] rne_of_int [of 0] by simp

section \<open>Rounding to a format\<close>

lemma rnd_zero [simp]: "rnd f 0 = 0"
  by (simp add: rnd_def)

lemma rnd_uminus: "rnd f (- q) = - rnd f q"
  by (simp add: rnd_def Let_def)

lemma rnd_pos: "0 < q \<Longrightarrow> rnd f q = of_int (rne (q / 2 powi ulp_exp f q)) * 2 powi ulp_exp f q"
  by (simp add: rnd_def Let_def)

lemma rnd_nonneg: "0 \<le> q \<Longrightarrow> 0 \<le> rnd f q"
  by (cases "q = 0") (simp_all add: rnd_pos rne_nonneg)

lemma rnd_error_ulp:
  assumes "0 < q"
  shows "\<bar>rnd f q - q\<bar> \<le> 2 powi ulp_exp f q / 2"
proof -
  define p :: rat where "p = 2 powi ulp_exp f q"
  have p: "0 < p" by (simp add: p_def)
  have "rnd f q - q = (of_int (rne (q / p)) - q / p) * p"
    using p assms by (simp add: rnd_pos p_def [symmetric] field_simps)
  then have "\<bar>rnd f q - q\<bar> = \<bar>of_int (rne (q / p)) - q / p\<bar> * p"
    using p by (simp add: abs_mult)
  also have "\<dots> \<le> 1 / 2 * p" using p by (intro mult_right_mono rne_error) simp
  finally show ?thesis by (simp add: p_def)
qed

lemma rnd_error:
  "\<bar>rnd f q - q\<bar> \<le> \<bar>q\<bar> * 2 powi (- int (frac_bits f) - 1) + 2 powi (ulp_min f - 1)"
proof -
  have pos: "\<bar>rnd f x - x\<bar> \<le> x * 2 powi (- int (frac_bits f) - 1) + 2 powi (ulp_min f - 1)"
    if x: "0 < x" for x
  proof -
    let ?t = "int (frac_bits f)"
    have half: "(2 :: rat) powi e / 2 = 2 powi (e - 1)" for e by (simp add: power_int_diff)
    have "2 powi ilog2 x * 2 powi (- ?t - 1) \<le> x * 2 powi (- ?t - 1)"
      using ilog2_bounds(1) [OF x] by (intro mult_right_mono) simp_all
    moreover have "ilog2 x + (- ?t - 1) = ilog2 x - ?t - 1" by simp
    ultimately have lead: "2 powi (ilog2 x - ?t - 1) \<le> x * 2 powi (- ?t - 1)"
      by (metis pow2_nonzero power_int_add)
    have "2 powi (ulp_exp f x - 1) \<le> x * 2 powi (- ?t - 1) + 2 powi (ulp_min f - 1)"
    proof (cases "ulp_min f \<le> ilog2 x - ?t")
      case True
      then have "ulp_exp f x = ilog2 x - ?t" by (simp add: ulp_exp_def)
      then show ?thesis using lead by (simp add: add_increasing2)
    next
      case False
      then have "ulp_exp f x = ulp_min f" by (simp add: ulp_exp_def)
      then show ?thesis using x by simp
    qed
    then show ?thesis using rnd_error_ulp [OF x, of f] by (simp add: half)
  qed
  consider "0 < q" | "q = 0" | "0 < - q" by linarith
  then show ?thesis
  proof cases
    case 3
    then show ?thesis using pos [of "- q"] by (simp add: rnd_uminus)
  qed (use pos [of q] in simp_all)
qed

lemma less_pow_ulp:
  assumes "0 < x"
  shows "x < 2 powi (ulp_exp f x + int (frac_bits f) + 1)"
proof -
  have "x < 2 powi (ilog2 x + 1)" using assms by (rule ilog2_bounds)
  also have "\<dots> \<le> 2 powi (ulp_exp f x + int (frac_bits f) + 1)"
    by (rule pow2_mono) (simp add: ulp_exp_def)
  finally show ?thesis .
qed

lemma rnd_upper:
  assumes "0 < x"
  shows "rnd f x \<le> 2 powi (ulp_exp f x + int (frac_bits f) + 1)"
proof -
  let ?u = "ulp_exp f x" and ?k = "frac_bits f + 1"
  have "x / 2 powi ?u \<le> of_int (2 ^ ?k)"
    using less_pow_ulp [OF assms, of f] by (simp add: power_int_add field_simps)
  then have "rne (x / 2 powi ?u) \<le> 2 ^ ?k" using rne_mono rne_of_int by metis
  then have "of_int (rne (x / 2 powi ?u)) \<le> (of_int (2 ^ ?k) :: rat)" by (simp only: of_int_le_iff)
  then have "rnd f x \<le> of_int (2 ^ ?k) * 2 powi ?u"
    using assms by (simp add: rnd_pos mult_right_mono)
  then show ?thesis by (simp add: power_int_add field_simps)
qed

lemma rnd_lower:
  assumes "0 < x" "ulp_min f < ulp_exp f x"
  shows "2 powi (ulp_exp f x + int (frac_bits f)) \<le> rnd f x"
proof -
  let ?u = "ulp_exp f x" and ?t = "frac_bits f"
  have "ilog2 x = ?u + int ?t" using assms(2) by (simp add: ulp_exp_def)
  then have "2 powi (?u + int ?t) \<le> x" using ilog2_bounds(1) [OF assms(1)] by simp
  then have "of_int (2 ^ ?t) \<le> x / 2 powi ?u" by (simp add: power_int_add field_simps)
  then have "2 ^ ?t \<le> rne (x / 2 powi ?u)" using rne_mono rne_of_int by metis
  then have "(of_int (2 ^ ?t) :: rat) \<le> of_int (rne (x / 2 powi ?u))" by (simp only: of_int_le_iff)
  then have "of_int (2 ^ ?t) * 2 powi ?u \<le> rnd f x"
    using assms(1) by (simp add: rnd_pos mult_right_mono)
  then show ?thesis by (simp add: power_int_add field_simps)
qed

lemma rnd_mono_pos:
  assumes "0 < x" "x \<le> y"
  shows "rnd f x \<le> rnd f y"
proof -
  have y: "0 < y" using assms by simp
  have le: "ulp_exp f x \<le> ulp_exp f y"
    using ilog2_mono [OF assms] by (simp add: ulp_exp_def)
  show ?thesis
  proof (cases "ulp_exp f x = ulp_exp f y")
    case True
    have "rne (x / 2 powi ulp_exp f y) \<le> rne (y / 2 powi ulp_exp f y)"
      using assms(2) by (intro rne_mono divide_right_mono) simp_all
    then show ?thesis using assms y True by (simp add: rnd_pos mult_right_mono)
  next
    case False
    then have lt: "ulp_exp f x < ulp_exp f y" using le by simp
    have "rnd f x \<le> 2 powi (ulp_exp f x + int (frac_bits f) + 1)" using assms(1) by (rule rnd_upper)
    also have "\<dots> \<le> 2 powi (ulp_exp f y + int (frac_bits f))" using lt by (intro pow2_mono) simp
    also have "\<dots> \<le> rnd f y"
    proof (rule rnd_lower [OF y])
      show "ulp_min f < ulp_exp f y" using lt by (simp add: ulp_exp_def)
    qed
    finally show ?thesis .
  qed
qed

lemma rnd_mono: "x \<le> y \<Longrightarrow> rnd f x \<le> rnd f y"
proof -
  assume le: "x \<le> y"
  consider "0 < x" | "x \<le> 0" "0 \<le> y" | "0 < - y" by linarith
  then show ?thesis
  proof cases
    case 1
    then show ?thesis using le by (rule rnd_mono_pos)
  next
    case 2
    then have "0 \<le> rnd f (- x)" "0 \<le> rnd f y" by (simp_all add: rnd_nonneg)
    then show ?thesis by (simp add: rnd_uminus)
  next
    case 3
    then show ?thesis using rnd_mono_pos [of "- y" "- x" f] le by (simp add: rnd_uminus)
  qed
qed

lemma rnd_grid:
  assumes "\<bar>m\<bar> < 2 ^ (frac_bits f + 1)" "ulp_min f \<le> v"
  shows "rnd f (of_int m * 2 powi v) = of_int m * 2 powi v"
proof -
  have pos: "rnd f (of_int n * 2 powi v) = of_int n * 2 powi v"
    if n: "0 < n" "n < 2 ^ (frac_bits f + 1)" for n :: int
  proof -
    let ?q = "of_int n * 2 powi v :: rat" and ?t = "frac_bits f"
    have q: "0 < ?q" using n by simp
    have "(of_int n :: rat) < of_int (2 ^ (?t + 1))" using n(2) by (simp only: of_int_less_iff)
    then have "?q < 2 powi (int ?t + 1 + v)" by (simp add: power_int_add)
    then have "2 powi ilog2 ?q < (2 :: rat) powi (int ?t + 1 + v)"
      using ilog2_bounds(1) [OF q] by linarith
    then have "ilog2 ?q - int ?t \<le> v" using pow2_mono [of "int ?t + 1 + v" "ilog2 ?q"] by fastforce
    then have u: "ulp_exp f ?q \<le> v" using assms(2) by (simp add: ulp_exp_def)
    define u where "u = ulp_exp f ?q"
    have "(2 :: rat) powi v = of_int (2 ^ nat (v - u)) * 2 powi u"
      using \<open>ulp_exp f ?q \<le> v\<close> unfolding u_def by (rule pow2_split)
    then have qe: "?q = of_int (n * 2 ^ nat (v - u)) * 2 powi u" by simp
    then have "?q / 2 powi u = of_int (n * 2 ^ nat (v - u))"
      by (simp only: nonzero_mult_div_cancel_right [OF pow2_nonzero(2)])
    then have "rne (?q / 2 powi u) = n * 2 ^ nat (v - u)" by (metis rne_of_int)
    then have "rnd f ?q = of_int (n * 2 ^ nat (v - u)) * 2 powi u"
      using rnd_pos [OF q, of f] by (simp only: u_def)
    then show ?thesis using qe by (simp only:)
  qed
  consider "0 < m" | "m = 0" | "0 < - m" by linarith
  then show ?thesis
  proof cases
    case 3
    then show ?thesis using pos [of "- m"] assms(1) by (simp add: rnd_uminus)
  qed (use pos [of m] assms(1) in simp_all)
qed

section \<open>Representable values and their bit patterns\<close>

text \<open>A value of the format: a multiple of its own spacing, below the overflow threshold.\<close>

definition rep :: "fmt \<Rightarrow> fp \<Rightarrow> bool" where
  "rep f x = (case x of Fin q \<Rightarrow> q = 0 \<or>
      (\<bar>q\<bar> = of_int \<lfloor>\<bar>q\<bar> / 2 powi ulp_exp f \<bar>q\<bar>\<rfloor> * 2 powi ulp_exp f \<bar>q\<bar> \<and> \<bar>q\<bar> < 2 powi (bias f + 1))
    | _ \<Rightarrow> True)"

definition wf_fmt :: "fmt \<Rightarrow> bool" where
  "wf_fmt f \<longleftrightarrow> 2 \<le> exp_bits f \<and> 1 \<le> frac_bits f"

lemma wf_b32 [simp]: "wf_fmt b32" and wf_b64 [simp]: "wf_fmt b64"
  by (simp_all add: wf_fmt_def b32_def b64_def)

lemma rep_abs: "rep f (Fin \<bar>q\<bar>) = rep f (Fin q)"
  by (simp add: rep_def)

lemma ulp_exp_grid:
  assumes "0 < n" "n < 2 ^ (frac_bits f + 1)" "ulp_min f \<le> v"
  shows "ulp_exp f (of_int n * 2 powi v) \<le> v"
proof -
  let ?q = "of_int n * 2 powi v :: rat" and ?t = "frac_bits f"
  have q: "0 < ?q" using assms by simp
  have "(of_int n :: rat) < of_int (2 ^ (?t + 1))" using assms(2) by (simp only: of_int_less_iff)
  then have "?q < 2 powi (int ?t + 1 + v)" by (simp add: power_int_add)
  then have "2 powi ilog2 ?q < (2 :: rat) powi (int ?t + 1 + v)"
    using ilog2_bounds(1) [OF q] by linarith
  then have "ilog2 ?q - int ?t \<le> v" using pow2_mono [of "int ?t + 1 + v" "ilog2 ?q"] by fastforce
  then show ?thesis using assms(3) by (simp add: ulp_exp_def)
qed

lemma rep_grid:
  assumes "\<bar>m\<bar> < 2 ^ (frac_bits f + 1)" "ulp_min f \<le> v"
    "\<bar>of_int m * 2 powi v :: rat\<bar> < 2 powi (bias f + 1)"
  shows "rep f (Fin (of_int m * 2 powi v))"
proof (cases "m = 0")
  case False
  let ?q = "of_int \<bar>m\<bar> * 2 powi v :: rat"
  define u where "u = ulp_exp f ?q"
  have le: "u \<le> v" using ulp_exp_grid [of "\<bar>m\<bar>" f v] False assms by (simp add: u_def)
  have "(2 :: rat) powi v = of_int (2 ^ nat (v - u)) * 2 powi u"
    using le by (rule pow2_split)
  then have qe: "?q = of_int (\<bar>m\<bar> * 2 ^ nat (v - u)) * 2 powi u" by simp
  then have "?q / 2 powi u = of_int (\<bar>m\<bar> * 2 ^ nat (v - u))"
    by (simp only: nonzero_mult_div_cancel_right [OF pow2_nonzero(2)])
  then have "?q = of_int \<lfloor>?q / 2 powi u\<rfloor> * 2 powi u"
    using qe by (metis floor_of_int)
  moreover have "\<bar>of_int m * 2 powi v\<bar> = ?q" by (simp add: abs_mult)
  ultimately show ?thesis using assms(3) by (simp add: rep_def u_def)
qed (simp add: rep_def)

lemma rep_to_fp: "rep f (to_fp f q)"
proof -
  have "rep f (Fin r)" if r: "r = rnd f q" "\<not> 2 powi (bias f + 1) \<le> \<bar>r\<bar>" for r
  proof (cases "q = 0")
    case False
    let ?u = "ulp_exp f \<bar>q\<bar>" and ?m = "rne (\<bar>q\<bar> / 2 powi ulp_exp f \<bar>q\<bar>)"
    have m: "0 \<le> ?m" by (intro rne_nonneg) simp
    have abs: "\<bar>r\<bar> = of_int ?m * 2 powi ?u"
      using False m by (simp add: r(1) rnd_def Let_def abs_mult abs_sgn_eq)
    have "of_int ?m * 2 powi ?u \<le> (2 :: rat) powi (?u + int (frac_bits f) + 1)"
      using rnd_upper [of "\<bar>q\<bar>" f] False by (simp add: rnd_pos)
    then have le: "?m \<le> 2 ^ (frac_bits f + 1)"
      by (simp add: power_int_add flip: of_int_le_iff [where 'a = rat])
    show ?thesis
    proof (cases "?m = 2 ^ (frac_bits f + 1)")
      case True
      then have "\<bar>r\<bar> = of_int (2 ^ frac_bits f) * 2 powi (?u + 1)"
        using abs by (simp add: power_int_add)
      moreover have "rep f (Fin (of_int (2 ^ frac_bits f) * 2 powi (?u + 1)))"
        using r(2) calculation by (intro rep_grid) (simp_all add: ulp_exp_def)
      ultimately show ?thesis by (metis rep_abs)
    next
      case False
      have "rep f (Fin (of_int ?m * 2 powi ?u))"
        using r(2) le m False abs by (intro rep_grid) (simp_all add: ulp_exp_def)
      then show ?thesis using abs by (metis rep_abs)
    qed
  qed (simp add: r(1) rep_def)
  then have fin: "\<not> 2 powi (bias f + 1) \<le> \<bar>rnd f q\<bar> \<Longrightarrow> rep f (Fin (rnd f q))" by blast
  show ?thesis
  proof (cases "2 powi (bias f + 1) \<le> \<bar>rnd f q\<bar> \<or> rnd f q = 0")
    case True
    then show ?thesis by (auto simp: to_fp_def Let_def rep_def)
  next
    case False
    then show ?thesis using fin by (simp add: to_fp_def Let_def)
  qed
qed

lemma enc_body:
  assumes wf: "wf_fmt f" and q: "0 < q" and r: "rep f (Fin q)"
  defines "u \<equiv> ulp_exp f q"
  defines "b \<equiv> (u - ulp_min f) * 2 ^ frac_bits f + \<lfloor>q / 2 powi u\<rfloor>"
  shows "0 \<le> b" and "b < 2 ^ (frac_bits f + exp_bits f)" and "dec f b = Fin q"
    and "dec f (2 ^ (frac_bits f + exp_bits f) + b) = Fin (- q)"
proof -
  let ?t = "frac_bits f" and ?w = "exp_bits f" and ?g = "ulp_min f"
  define m where "m = \<lfloor>q / 2 powi u\<rfloor>"
  have qm: "q = of_int m * 2 powi u" and small: "q < 2 powi (bias f + 1)"
    using r q by (simp_all add: rep_def u_def m_def)
  have "0 < (of_int m :: rat)" using q pow2_pos unfolding qm by (rule zero_less_mult_pos2)
  then have m0: "0 < m" by simp
  have "q < 2 powi (u + int ?t + 1)" unfolding u_def by (rule less_pow_ulp [OF q])
  then have "of_int m * 2 powi u < (2 :: rat) powi (u + int ?t + 1)" using qm by simp
  then have m1: "m < 2 ^ (?t + 1)"
    by (simp add: power_int_add flip: of_int_less_iff [where 'a = rat])
  have gu: "?g \<le> u" by (simp add: u_def ulp_exp_def)
  have bw: "bias f = 2 ^ (?w - 1) - 1" by (simp add: bias_def)
  have w: "(2 :: int) ^ ?w = 2 * 2 ^ (?w - 1)" "2 \<le> (2 :: int) ^ (?w - 1)"
  proof -
    show "(2 :: int) ^ ?w = 2 * 2 ^ (?w - 1)"
      using wf by (intro two_pow_pred) (simp add: wf_fmt_def)
    have "(2 :: int) ^ 1 \<le> 2 ^ (?w - 1)"
      using wf unfolding wf_fmt_def by (intro power_increasing; linarith)
    then show "2 \<le> (2 :: int) ^ (?w - 1)" by simp
  qed
  consider (sub) "m < 2 ^ ?t" "u = ?g" | (norm) "2 ^ ?t \<le> m"
  proof (cases "m < 2 ^ ?t")
    case True
    have "u = ?g"
    proof (rule ccontr)
      assume "u \<noteq> ?g"
      then have "2 powi (u + int ?t) \<le> rnd f q"
        using rnd_lower [OF q, of f] gu by (simp add: u_def)
      also have "rnd f q = q"
      proof -
        have "q / 2 powi u = of_int m"
          unfolding qm by (rule nonzero_mult_div_cancel_right [OF pow2_nonzero(2)])
        then have "rne (q / 2 powi u) = m" by simp
        moreover have "rnd f q = of_int (rne (q / 2 powi u)) * 2 powi u"
          unfolding u_def by (rule rnd_pos [OF q])
        ultimately have "rnd f q = of_int m * 2 powi u" by (simp only:)
        then show ?thesis by (rule trans [OF _ qm [symmetric]])
      qed
      finally have "2 powi (u + int ?t) \<le> of_int m * (2 :: rat) powi u" using qm by simp
      then have "of_int (2 ^ ?t) \<le> (of_int m :: rat)" by (simp add: power_int_add)
      then have "2 ^ ?t \<le> m" by (simp only: of_int_le_iff)
      then show False using True by simp
    qed
    then show ?thesis using True that by blast
  qed (use that in force)
  then obtain e fr where b: "b = e * 2 ^ ?t + fr" and fr: "0 \<le> fr" "fr < 2 ^ ?t"
    and e: "0 \<le> e" "e < 2 ^ ?w - 1"
    and a: "q = (if e = 0 then of_int fr * 2 powi ?g else of_int (2 ^ ?t + fr) * 2 powi (e - 1 + ?g))"
  proof cases
    case sub
    show ?thesis
    proof (rule that [of 0 m])
      show "b = 0 * 2 ^ ?t + m" using sub by (simp add: b_def m_def)
      show "q = (if (0 :: int) = 0 then of_int m * 2 powi ?g
          else of_int (2 ^ ?t + m) * 2 powi (0 - 1 + ?g))" using sub qm by simp
    qed (use sub m0 w in simp_all)
  next
    case norm
    have "(of_int (2 ^ ?t) :: rat) \<le> of_int m" using norm by (simp only: of_int_le_iff)
    then have "2 powi (int ?t + u) \<le> q" by (simp add: qm power_int_add)
    then have "\<not> bias f + 1 \<le> int ?t + u"
      using small pow2_mono [of "bias f + 1" "int ?t + u"] by linarith
    then have "u - ?g + 1 \<le> 2 * bias f" by (simp add: ulp_min_def)
    then have small_e: "u - ?g + 1 < 2 ^ ?w - 1" using bw w by linarith
    show ?thesis
    proof (rule that [of "u - ?g + 1" "m - 2 ^ ?t"])
      show "b = (u - ?g + 1) * 2 ^ ?t + (m - 2 ^ ?t)"
        by (simp add: b_def m_def algebra_simps)
      show "q = (if u - ?g + 1 = 0 then of_int (m - 2 ^ ?t) * 2 powi ?g
          else of_int (2 ^ ?t + (m - 2 ^ ?t)) * 2 powi (u - ?g + 1 - 1 + ?g))"
        using gu qm by simp
    qed (use norm m1 gu small_e in simp_all)
  qed
  have "e * 2 ^ ?t + fr < (e + 1) * 2 ^ ?t" using fr by (simp add: algebra_simps)
  also have "\<dots> \<le> 2 ^ ?w * 2 ^ ?t" using e by (intro mult_right_mono) simp_all
  finally have hi: "b < 2 ^ (?t + ?w)" by (simp add: b power_add mult.commute)
  show "0 \<le> b" using b e fr by simp
  show "b < 2 ^ (?t + ?w)" by (rule hi)
  have parts: "b div 2 ^ ?t = e" "b mod 2 ^ ?t = fr" "b div 2 ^ (?t + ?w) = 0"
    using b fr hi \<open>0 \<le> b\<close> by simp_all
  have "(2 ^ (?t + ?w) + b) div 2 ^ ?t = 2 ^ ?w + e" "(2 ^ (?t + ?w) + b) mod 2 ^ ?t = fr"
    using b fr by (simp_all add: power_add)
  moreover have "(2 ^ (?t + ?w) + b) div 2 ^ (?t + ?w) = 1"
    using parts(3) hi \<open>0 \<le> b\<close> by simp
  moreover have "(2 :: rat) ^ ?t + of_int fr \<noteq> 0"
    using fr(1) by (simp add: add_nonneg_eq_0_iff)
  moreover have "e = 0 \<Longrightarrow> fr \<noteq> 0" using a q by auto
  ultimately show "dec f b = Fin q" "dec f (2 ^ (?t + ?w) + b) = Fin (- q)"
    using parts e by (simp_all add: dec_def Let_def a)
qed

lemma dec_enc:
  assumes wf: "wf_fmt f" and r: "rep f x"
  shows "0 \<le> enc f x" and "enc f x < 2 ^ (frac_bits f + exp_bits f + 1)" and "dec f (enc f x) = x"
proof -
  let ?t = "frac_bits f" and ?w = "exp_bits f"
  have t: "(2 :: int) ^ ?t = 2 * 2 ^ (?t - 1)" using wf by (simp add: wf_fmt_def two_pow_pred)
  have w: "2 \<le> (2 :: int) ^ ?w"
    using wf power_increasing [of 1 ?w "2 :: int"] by (simp add: wf_fmt_def)
  have tw: "(2 :: int) ^ (?t + ?w) = 2 ^ ?w * 2 ^ ?t" by (simp add: power_add)
  have below: "(2 ^ ?w - 1) * 2 ^ ?t + m < (2 :: int) ^ (?t + ?w)"
    if "m < 2 ^ ?t" for m using that unfolding tw by (simp add: left_diff_distrib)
  have m1: "(- 1) mod (2 :: int) ^ ?w = 2 ^ ?w - 1" by (simp add: zmod_minus1)
  have m2: "(2 * 2 ^ ?w - 1) mod (2 :: int) ^ ?w = 2 ^ ?w - 1"
    using mod_mult_self1 [of "- 1" 2 "(2 :: int) ^ ?w"] m1 by simp
  have dbl: "n < 2 * 2 ^ (?t + ?w)" if "n < 2 ^ (?t + ?w)" for n :: int
    using that zero_less_power [of "2 :: int" "?t + ?w"] by linarith
  have nan_lt: "(2 :: int) ^ (?t - 1) < 2 ^ ?t" using t by simp
  have special: "((2 ^ ?w - 1) * 2 ^ ?t + m) div 2 ^ ?t = 2 ^ ?w - (1 :: int)"
      "((2 ^ ?w - 1) * 2 ^ ?t + m) mod 2 ^ ?t = m"
      "((2 ^ ?w - 1) * 2 ^ ?t + m) div 2 ^ (?t + ?w) = 0"
    if "0 \<le> m" "m < 2 ^ ?t" for m :: int
    using that below [of m] w by (simp_all add: div_pos_pos_trivial)
  have neg: "(2 ^ (?t + ?w) + n) div 2 ^ (?t + ?w) = 1 + n div (2 :: int) ^ (?t + ?w)"
      "(2 ^ (?t + ?w) + n) div 2 ^ ?t = 2 ^ ?w + n div (2 :: int) ^ ?t"
      "(2 ^ (?t + ?w) + n) mod 2 ^ ?t = n mod (2 :: int) ^ ?t" for n
    by (simp_all add: tw)
  consider (nan) "x = NaN" | (pinf) "x = PInf" | (ninf) "x = NInf" | (nz) "x = NZero"
    | (zero) "x = Fin 0" | (pos) q where "x = Fin q" "0 < q" | (negq) q where "x = Fin (- q)" "0 < q"
    by (metis fp.exhaust linorder_neqE_linordered_idom minus_minus neg_0_less_iff_less)
  then have "0 \<le> enc f x \<and> enc f x < 2 ^ (?t + ?w + 1) \<and> dec f (enc f x) = x"
  proof cases
    case nan
    then show ?thesis
      using special [of "2 ^ (?t - 1)"] below [of "2 ^ (?t - 1)"] nan_lt w m1 dbl
      by (simp add: enc_def dec_def Let_def)
  next
    case pinf
    then show ?thesis using special [of 0] below [of 0] w m1 dbl
      by (simp add: enc_def dec_def Let_def signed_inf_def)
  next
    case ninf
    then show ?thesis using special [of 0] below [of 0] w m1 m2 dbl neg [of "(2 ^ ?w - 1) * 2 ^ ?t"]
      by (simp add: enc_def dec_def Let_def signed_inf_def)
  next
    case nz
    then show ?thesis using w neg [of 0]
      by (simp add: enc_def dec_def Let_def signed_zero_def)
  next
    case zero
    then show ?thesis using w by (simp add: enc_def dec_def Let_def signed_zero_def)
  next
    case pos
    then show ?thesis using enc_body [OF wf pos(2)] r by (simp add: enc_def Let_def)
  next
    case negq
    then have "rep f (Fin q)" using r by (simp add: rep_def)
    then show ?thesis using enc_body [OF wf negq(2)] negq by (simp add: enc_def Let_def)
  qed
  then show "0 \<le> enc f x" "enc f x < 2 ^ (?t + ?w + 1)" "dec f (enc f x) = x" by blast+
qed

text \<open>The parts of a bit pattern that is a number: its value and its spacing.\<close>

lemma dec_parts:
  assumes wf: "wf_fmt f" and e: "0 \<le> e" "e < 2 ^ exp_bits f - 1" and m: "0 \<le> m" "m < 2 ^ frac_bits f"
    and nz: "e \<noteq> 0 \<or> m \<noteq> 0"
  defines "a \<equiv> (if e = 0 then of_int m * 2 powi ulp_min f
      else of_int (2 ^ frac_bits f + m) * 2 powi (e - 1 + ulp_min f) :: rat)"
  shows "0 < a" and "(ulp_exp f a - ulp_min f) * 2 ^ frac_bits f + \<lfloor>a / 2 powi ulp_exp f a\<rfloor> = e * 2 ^ frac_bits f + m"
    and "rnd f a = a" and "a < 2 powi (bias f + 1)"
proof -
  let ?t = "frac_bits f" and ?g = "ulp_min f"
  define k where "k = (if e = 0 then m else 2 ^ ?t + m)"
  define v where "v = (if e = 0 then ?g else e - 1 + ?g)"
  have a: "a = of_int k * 2 powi v" by (simp add: a_def k_def v_def)
  have k: "0 < k" "k < 2 ^ (?t + 1)" using m nz by (auto simp: k_def add_pos_nonneg)
  have v: "?g \<le> v" using e by (simp add: v_def)
  show "0 < a" using k by (simp add: a)
  show "rnd f a = a" unfolding a by (rule rnd_grid) (use k v in simp_all)
  have le: "ulp_exp f a \<le> v" unfolding a by (rule ulp_exp_grid) (use k v in simp_all)
  have u: "ulp_exp f a = v"
  proof (cases "e = 0")
    case True
    then show ?thesis using le by (simp add: v_def ulp_exp_def)
  next
    case False
    then have "(2 :: rat) ^ ?t \<le> of_int k" using m by (simp add: k_def)
    then have "2 ^ ?t * 2 powi v \<le> a" unfolding a by (intro mult_right_mono) simp_all
    then have "2 powi (int ?t + v) \<le> a" by (simp add: power_int_add)
    moreover have "a < 2 powi (int ?t + v + 1)"
    proof -
      have "(of_int k :: rat) < of_int (2 ^ (?t + 1))" using k(2) by (simp only: of_int_less_iff)
      then show ?thesis by (simp add: a power_int_add)
    qed
    ultimately have "ilog2 a = int ?t + v" by (rule ilog2_eqI)
    then show ?thesis using v by (simp add: ulp_exp_def)
  qed
  have "a / 2 powi v = of_int k"
    unfolding a by (rule nonzero_mult_div_cancel_right [OF pow2_nonzero(2)])
  then have "\<lfloor>a / 2 powi v\<rfloor> = k" by simp
  then show "(ulp_exp f a - ?g) * 2 ^ ?t + \<lfloor>a / 2 powi ulp_exp f a\<rfloor> = e * 2 ^ ?t + m"
    by (simp add: u k_def v_def algebra_simps)
  have "a < 2 powi (v + int ?t + 1)" using less_pow_ulp [OF \<open>0 < a\<close>, of f] by (simp add: u)
  also have "\<dots> \<le> 2 powi (bias f + 1)"
  proof (rule pow2_mono)
    have "(2 :: int) ^ exp_bits f = 2 * 2 ^ (exp_bits f - 1)"
      using wf by (intro two_pow_pred) (simp add: wf_fmt_def)
    then have "e \<le> 2 * bias f" using e by (simp add: bias_def)
    moreover have "(2 :: int) ^ 1 \<le> 2 ^ (exp_bits f - 1)"
      using wf unfolding wf_fmt_def by (intro power_increasing; linarith)
    then have "1 \<le> bias f" by (simp add: bias_def)
    ultimately show "v + int ?t + 1 \<le> bias f + 1" by (simp add: v_def ulp_min_def)
  qed
  finally show "a < 2 powi (bias f + 1)" .
qed

lemma enc_dec:
  assumes wf: "wf_fmt f" and n: "0 \<le> n" "n < 2 ^ (frac_bits f + exp_bits f + 1)" and nan: "dec f n \<noteq> NaN"
  shows "enc f (dec f n) = n" and "dec f n = Fin q \<Longrightarrow> to_fp f q = Fin q"
proof -
  let ?t = "frac_bits f" and ?w = "exp_bits f"
  define e where "e = n div 2 ^ ?t mod 2 ^ ?w"
  define m where "m = n mod 2 ^ ?t"
  define s where "s = n div 2 ^ (?t + ?w)"
  have s: "s = 0 \<or> s = 1"
  proof -
    let ?D = "(2 :: int) ^ (?t + ?w)"
    have "n div ?D < 2"
    proof (rule ccontr)
      assume "\<not> n div ?D < 2"
      then have "?D * 2 \<le> ?D * (n div ?D)" by (intro mult_left_mono) simp_all
      moreover have "?D * (n div ?D) + n mod ?D = n" "0 \<le> n mod ?D" by simp_all
      moreover have "n < ?D * 2" using n(2) by simp
      ultimately show False by linarith
    qed
    moreover have "0 \<le> n div ?D" using n(1) by (simp add: pos_imp_zdiv_nonneg_iff)
    ultimately show ?thesis unfolding s_def by linarith
  qed
  have split: "n = s * 2 ^ (?t + ?w) + (e * 2 ^ ?t + m)"
  proof -
    have "s = n div 2 ^ ?t div 2 ^ ?w" by (simp add: s_def power_add zdiv_zmult2_eq)
    then have "n div 2 ^ ?t = 2 ^ ?w * s + e" by (simp add: e_def)
    moreover have "n = 2 ^ ?t * (n div 2 ^ ?t) + m" by (simp add: m_def)
    ultimately have "n = 2 ^ ?t * (2 ^ ?w * s + e) + m" by (simp only:)
    then show ?thesis by (simp add: power_add algebra_simps)
  qed
  have e: "0 \<le> e" "e < 2 ^ ?w" and m: "0 \<le> m" "m < 2 ^ ?t" by (simp_all add: e_def m_def)
  have odd: "odd (n div 2 ^ (?t + ?w)) \<longleftrightarrow> s = 1" using s by (auto simp: s_def)
  have d: "dec f n = (if e = 2 ^ ?w - 1 then (if m = 0 then signed_inf (s = 1) else NaN) else
      (let a = (if e = 0 then of_int m * 2 powi ulp_min f
                else of_int (2 ^ ?t + m) * 2 powi (e - 1 + ulp_min f)) in
        if a = 0 then signed_zero (s = 1) else Fin (if s = 1 then - a else a)))"
    by (simp only: dec_def Let_def odd e_def m_def)
  have "enc f (dec f n) = n \<and> (dec f n = Fin q \<longrightarrow> to_fp f q = Fin q)"
  proof (cases "e = 2 ^ ?w - 1")
    case True
    then have "m = 0" using nan d by (auto split: if_splits)
    then show ?thesis using True s d split by (auto simp: enc_def Let_def signed_inf_def)
  next
    case False
    then have e': "e < 2 ^ ?w - 1" using e by simp
    show ?thesis
    proof (cases "e = 0 \<and> m = 0")
      case True
      then show ?thesis using False s d split
        by (auto simp: enc_def Let_def signed_zero_def to_fp_def)
    next
      case nz: False
      define a :: rat where "a = (if e = 0 then of_int m * 2 powi ulp_min f
        else of_int (2 ^ ?t + m) * 2 powi (e - 1 + ulp_min f))"
      note parts = dec_parts [OF wf e(1) e' m, folded a_def]
      have nz': "e \<noteq> 0 \<or> m \<noteq> 0" using nz by blast
      have dn: "dec f n = Fin (if s = 1 then - a else a)"
        using False d parts(1) [OF nz'] by (simp add: a_def [symmetric])
      then have "enc f (dec f n) = n"
        using parts(1,2) [OF nz'] s split by (auto simp: enc_def Let_def)
      moreover have "to_fp f a = Fin a" "to_fp f (- a) = Fin (- a)"
        using parts(1,3,4) [OF nz'] by (simp_all add: to_fp_def Let_def rnd_uminus)
      ultimately show ?thesis using dn by auto
    qed
  qed
  then show "enc f (dec f n) = n" "dec f n = Fin q \<Longrightarrow> to_fp f q = Fin q" by blast+
qed

lemma mk32_val32: "val32 v \<noteq> NaN \<Longrightarrow> mk32 (val32 v) = v"
  using enc_dec(1) [OF wf_b32, of "uint (bits32 v)"] uint_bounds [of "bits32 v"]
  by (cases v) (simp add: val32_def mk32_def b32_def)

lemma mk64_val64: "val64 v \<noteq> NaN \<Longrightarrow> mk64 (val64 v) = v"
  using enc_dec(1) [OF wf_b64, of "uint (bits64 v)"] uint_bounds [of "bits64 v"]
  by (cases v) (simp add: val64_def mk64_def b64_def)

lemma to_fp_val32: "val32 v = Fin q \<Longrightarrow> to_fp b32 q = Fin q"
  using enc_dec(2) [OF wf_b32, of "uint (bits32 v)"] uint_bounds [of "bits32 v"]
  by (simp add: val32_def b32_def)

lemma rep_val32: "rep b32 (val32 v)"
proof (cases "val32 v")
  case (Fin q)
  then show ?thesis using rep_to_fp [of b32 q] by (simp add: to_fp_val32)
qed (simp_all add: rep_def)

lemma val32_mk32: "rep b32 x \<Longrightarrow> val32 (mk32 x) = x"
  using dec_enc [OF wf_b32, of x]
  by (simp add: val32_def mk32_def b32_def uint_word_of_int take_bit_int_eq_self)

lemma val64_mk64: "rep b64 x \<Longrightarrow> val64 (mk64 x) = x"
  using dec_enc [OF wf_b64, of x]
  by (simp add: val64_def mk64_def b64_def uint_word_of_int take_bit_int_eq_self)

section \<open>The laws of a rounding, as an interface\<close>

text \<open>
  What numerical code may rely on: rounding is monotone and odd, exact on the grid of the
  format, and off by at most half a unit in the last place.
\<close>

locale rounding =
  fixes r :: "rat \<Rightarrow> rat" and t :: nat and g :: int
  assumes mono: "x \<le> y \<Longrightarrow> r x \<le> r y"
    and uminus: "r (- x) = - r x"
    and error: "\<bar>r x - x\<bar> \<le> \<bar>x\<bar> * 2 powi (- int t - 1) + 2 powi (g - 1)"
    and grid: "\<bar>m\<bar> < 2 ^ (t + 1) \<Longrightarrow> g \<le> v \<Longrightarrow> r (of_int m * 2 powi v) = of_int m * 2 powi v"
    and fine: "g \<le> 0"
begin

lemma of_int_exact: "\<bar>m\<bar> < 2 ^ (t + 1) \<Longrightarrow> r (of_int m) = of_int m"
  using grid [of m 0] fine by simp

lemma zero: "r 0 = 0"
  using of_int_exact [of 0] by simp

lemma nonneg: "0 \<le> x \<Longrightarrow> 0 \<le> r x"
  using mono [of 0 x] zero by simp

lemma upper_int: "x \<le> of_int m \<Longrightarrow> \<bar>m\<bar> < 2 ^ (t + 1) \<Longrightarrow> r x \<le> of_int m"
  using mono [of x "of_int m"] of_int_exact [of m] by simp

lemma lower_int: "of_int m \<le> x \<Longrightarrow> \<bar>m\<bar> < 2 ^ (t + 1) \<Longrightarrow> of_int m \<le> r x"
  using mono [of "of_int m" x] of_int_exact [of m] by simp

lemma between_int:
  "of_int a \<le> x \<Longrightarrow> x \<le> of_int b \<Longrightarrow> \<bar>a\<bar> < 2 ^ (t + 1) \<Longrightarrow> \<bar>b\<bar> < 2 ^ (t + 1) \<Longrightarrow>
    of_int a \<le> r x \<and> r x \<le> of_int b"
  using lower_int upper_int by blast

end

lemma rounding_rnd: "ulp_min f \<le> 0 \<Longrightarrow> rounding (rnd f) (frac_bits f) (ulp_min f)"
  by unfold_locales (simp_all add: rnd_mono rnd_uminus rnd_error rnd_grid)

interpretation single: rounding "rnd b32" 23 "-149"
  using rounding_rnd [of b32] by (simp add: ulp_min_def bias_def b32_def)

interpretation double: rounding "rnd b64" 52 "-1074"
  using rounding_rnd [of b64] by (simp add: ulp_min_def bias_def b64_def)

section \<open>Operations on finite values\<close>

text \<open>\<open>has_val x q\<close>: the value \<open>x\<close> is finite and equal to the rational \<open>q\<close> (either zero is 0).\<close>

definition has_val :: "fp \<Rightarrow> rat \<Rightarrow> bool" where
  "has_val x q \<longleftrightarrow> is_fin x \<and> fp_val x = q"

named_theorems fp_num "values of operations on finite operands"

lemma has_val_Fin [simp]: "has_val (Fin q) r \<longleftrightarrow> q = r"
  by (simp add: has_val_def)

lemma has_val_neg: "has_val x q \<Longrightarrow> has_val (fp_neg x) (- q)"
  by (cases x) (auto simp: has_val_def)

lemma has_val_cases: "has_val x q \<Longrightarrow> (x = NZero \<and> q = 0) \<or> x = Fin q"
  by (cases x) (auto simp: has_val_def)

lemma has_val_to_fp:
  assumes "\<bar>rnd f q\<bar> < 2 powi (bias f + 1)"
  shows "has_val (to_fp f q) (rnd f q)"
  using assms by (auto simp: to_fp_def Let_def has_val_def)

lemma has_val_add:
  assumes "has_val x p" "has_val y q" "\<bar>rnd f (p + q)\<bar> < 2 powi (bias f + 1)"
  shows "has_val (fp_add f x y) (rnd f (p + q))"
proof (cases "x = NZero \<and> y = NZero")
  case True
  then show ?thesis using assms by (simp add: fp_add_def has_val_def)
next
  case False
  have "x \<noteq> NaN" "y \<noteq> NaN" "\<not> is_inf x" "\<not> is_inf y" "fp_val x = p" "fp_val y = q"
    using assms(1,2) by (auto simp: has_val_def dest: has_val_cases)
      (cases x; simp; cases y; simp)+
  then have "fp_add f x y = to_fp f (p + q)" using False by (auto simp: fp_add_def)
  then show ?thesis using has_val_to_fp [OF assms(3)] by simp
qed

lemma has_val_sub:
  assumes "has_val x p" "has_val y q" "\<bar>rnd f (p - q)\<bar> < 2 powi (bias f + 1)"
  shows "has_val (fp_sub f x y) (rnd f (p - q))"
  using has_val_add [OF assms(1) has_val_neg [OF assms(2)]] assms(3) by (simp add: fp_sub_def)

lemma has_val_cast:
  assumes "has_val x p" "\<bar>rnd f p\<bar> < 2 powi (bias f + 1)"
  shows "has_val (fp_cast f x) (rnd f p)"
  using has_val_cases [OF assms(1)] has_val_to_fp [OF assms(2)]
  by (auto simp: fp_cast_def has_val_def)

lemma rep_cases: "rep f (case x of Fin q \<Rightarrow> to_fp f q | _ \<Rightarrow> x)"
  by (cases x) (simp_all add: rep_to_fp, simp_all add: rep_def)

lemma rep_add: "rep f x \<Longrightarrow> rep f y \<Longrightarrow> rep f (fp_add f x y)"
  by (simp add: fp_add_def rep_to_fp) (simp add: rep_def)

lemma rep_cast: "rep f (fp_cast f x)"
  unfolding fp_cast_def by (rule rep_cases)

lemma has_val_leq: "has_val x p \<Longrightarrow> has_val y q \<Longrightarrow> fp_leq x y \<longleftrightarrow> p \<le> q"
  using has_val_cases [of x p] has_val_cases [of y q] by (auto simp: fp_leq_def)

lemma has_val_less: "has_val x p \<Longrightarrow> has_val y q \<Longrightarrow> fp_less x y \<longleftrightarrow> p < q"
  using has_val_cases [of x p] has_val_cases [of y q] by (auto simp: fp_less_def)

lemmas has_val_facts = has_val_add has_val_sub has_val_cast has_val_leq has_val_less

lemma b32_limit: "\<bar>q :: rat\<bar> \<le> of_int (2 ^ 23) \<Longrightarrow> \<bar>q\<bar> < 2 powi (bias b32 + 1)"
proof -
  assume "\<bar>q :: rat\<bar> \<le> of_int (2 ^ 23)"
  also have "of_int (2 ^ 23) < (2 :: rat) powi (bias b32 + 1)" by (simp add: bias_def b32_def)
  finally show ?thesis .
qed

lemma b64_limit: "\<bar>q :: rat\<bar> \<le> of_int (2 ^ 23) \<Longrightarrow> \<bar>q\<bar> < 2 powi (bias b64 + 1)"
proof -
  assume "\<bar>q :: rat\<bar> \<le> of_int (2 ^ 23)"
  also have "of_int (2 ^ 23) < (2 :: rat) powi (bias b32 + 1)" by (simp add: bias_def b32_def)
  also have "\<dots> \<le> 2 powi (bias b64 + 1)" by (rule pow2_mono) (simp add: bias_def b32_def b64_def)
  finally show ?thesis .
qed

end
