(* ===== verification/IEEE_Eval.thy ===== *)
theory IEEE_Eval
  imports IEEE_Props
begin

text \<open>
  Evaluation of the floating-point model at concrete values by the simplifier: binary lengths
  and powers of two on numerals, floors of fractions, and small integers, which both formats
  hold exactly.  The bundle \<open>fp_eval\<close> unfolds the model for such a proof.
\<close>

lemma bitlen_step: "bitlen n = (if n>0 then 1+bitlen (n div 2) else 0)"
  by (cases "n > 0") (simp_all add: bitlen_def compute_floorlog [of 2 "nat n"] nat_div_distrib, simp add: floorlog_def)

lemma bitlen_numerals [simp]:
  "bitlen 1 = 1" "bitlen (numeral (num.Bit0 n)) = 1 + bitlen (numeral n)" 
  "bitlen (numeral (num.Bit1 n)) = 1 + bitlen (numeral n)"
proof -
  show "bitlen 1 = 1" by (simp add: bitlen_step [of 1] bitlen_step [of 0])
  show "bitlen (numeral (num.Bit0 n)) = 1 + bitlen (numeral n)" by (subst bitlen_step) simp
  show "bitlen (numeral (num.Bit1 n)) = 1 + bitlen (numeral n)" by (subst bitlen_step) simp
qed

lemma powi_numerals:
  "(2 :: rat) powi 0 = 1" "(2 :: rat) powi 1 = 2" "(2 :: rat) powi numeral n = 2 ^ numeral n"
  "(2 :: rat) powi (- 1) = 1 / 2" "(2 :: rat) powi (- numeral n) = 1 / 2 ^ numeral n"
  by (simp_all add: power_int_def field_simps)

lemmas fp_eval = val32_def mk32_def val64_def mk64_def to_fp_def rnd_def rne_def ulp_exp_def ilog2_def ulp_min_def
  bias_def b32_def b64_def enc_def dec_def Let_def powi_numerals signed_zero_def signed_inf_def

lemma to_fp_int32: "\<bar>m\<bar> < 2 ^ 24 \<Longrightarrow> to_fp b32 (of_int m) = Fin (of_int m)"
  and to_fp_int64: "\<bar>m\<bar> < 2 ^ 24 \<Longrightarrow> to_fp b64 (of_int m) = Fin (of_int m)"
proof -
  assume m: "\<bar>m\<bar> < 2 ^ 24"
  have a: "\<bar>of_int m :: rat\<bar> < of_int (2 ^ 24)" using m by (simp only: of_int_abs [symmetric] of_int_less_iff)
  also have 1: "of_int (2 ^ 24) \<le> (2 :: rat) powi (bias b32 + 1)" by (simp add: bias_def b32_def)
  finally have 2: "\<bar>of_int m :: rat\<bar> < 2 powi (bias b32 + 1)" .
  then show "to_fp b32 (of_int m) = Fin (of_int m)"
    using single.of_int_exact [of m] m by (auto simp: to_fp_def Let_def)
  note 2
  also have "(2 :: rat) powi (bias b32 + 1) \<le> 2 powi (bias b64 + 1)" by (rule pow2_mono) (simp add: bias_def b32_def b64_def)
  finally have "\<bar>of_int m :: rat\<bar> < 2 powi (bias b64 + 1)" .
  then show "to_fp b64 (of_int m) = Fin (of_int m)"
    using double.of_int_exact [of m] m by (auto simp: to_fp_def Let_def)
qed

lemma floor_rat_numerals [simp]:
  "\<lfloor>numeral a / numeral b :: rat\<rfloor> = numeral a div numeral b"
  "\<lfloor>- numeral a / numeral b :: rat\<rfloor> = - numeral a div numeral b"
  "\<lfloor>- (numeral a / numeral b) :: rat\<rfloor> = - numeral a div numeral b"
  "\<lfloor>1 / numeral b :: rat\<rfloor> = 1 div numeral b"
  using floor_divide_of_int_eq [of "numeral a" "numeral b", where 'a = rat]
    floor_divide_of_int_eq [of "- numeral a" "numeral b", where 'a = rat]
    floor_divide_of_int_eq [of 1 "numeral b", where 'a = rat] by simp_all

lemma has_valI: "val32 v = Fin q \<Longrightarrow> has_val (val32 v) q"
  by simp

lemma val32_of_int:
  assumes "\<bar>m\<bar> < 2 ^ 24"
  shows "val32 (f32_of_int m) = Fin (of_int m)"
  using rep_to_fp [of b32 "of_int m"] by (simp add: f32_of_int_def to_fp_int32 [OF assms] val32_mk32)

lemma mk32_cong: "val32 v = Fin q \<Longrightarrow> mk32 (Fin q) = v"
  using mk32_val32 [of v] by simp

text \<open>Small multiples of a sixteenth are held exactly; such values evaluate without rounding.\<close>

lemma to_fp_sixteenths:
  assumes "of_int \<lfloor>q * 16\<rfloor> = q * 16" "\<bar>q\<bar> \<le> 100000"
  shows "to_fp b64 q = Fin q"
proof -
  define m where "m = \<lfloor>q * 16\<rfloor>"
  have q: "of_int m * 2 powi (- 4) = q" using assms(1) unfolding m_def [symmetric] by (simp add: powi_numerals)
  have "\<bar>of_int m\<bar> \<le> (of_int 1600000 :: rat)" using assms unfolding m_def [symmetric] by simp
  then have "\<bar>m\<bar> \<le> 1600000" by (simp only: of_int_abs [symmetric] of_int_le_iff)
  then have "rnd b64 (of_int m * 2 powi (- 4)) = of_int m * 2 powi (- 4)"
    by (intro rnd_grid) (simp_all add: b64_def ulp_min_def bias_def)
  then have r: "rnd b64 q = q" unfolding q .
  have "\<bar>q\<bar> < 2 powi (bias b64 + 1)" using assms(2) by (intro b64_limit) simp
  then show ?thesis unfolding to_fp_def r Let_def by simp
qed

lemma val64_sixteenths:
  assumes "of_int \<lfloor>q * 16\<rfloor> = q * 16" "\<bar>q\<bar> \<le> 100000"
  shows "val64 (mk64 (Fin q)) = Fin q"
  using rep_to_fp [of b64 q] by (simp add: to_fp_sixteenths [OF assms] val64_mk64)

lemma val64_of_int: "\<bar>m\<bar> < 2 ^ 24 \<Longrightarrow> val64 (f64_of_int m) = Fin (of_int m)"
  using rep_to_fp [of b64 "of_int m"] by (simp add: f64_of_int_def to_fp_int64 val64_mk64)

lemmas exact_eval = fp_add_def fp_sub_def fp_mul_def fp_div_def signed_zero_def to_fp_sixteenths

end
