(* ===== verification/Angle.thy ===== *)
theory Angle
  imports IEEE_Eval
begin

text \<open>
  \<open>cpp_17/utility/angle.h\<close>: an angle in degrees.  The constructor wraps its argument with
  \<open>normalise\<close>; a comparison or sum of a \<open>float\<close> with the \<open>double\<close> literal 360.0 is computed in
  \<open>double\<close> and rounded back to \<open>float\<close> by the assignment.  The loop of \<open>normalise\<close> need not end
  (for large arguments the subtraction changes nothing), so its result is an option.
\<close>

datatype angle = Angle float32

fun to_float :: "angle \<Rightarrow> float32" where
  "to_float (Angle v) = v"

definition deg360 :: fp where
  "deg360 = Fin 360"

definition minus_360 :: "float32 \<Rightarrow> float32" where
  "minus_360 v = mk32 (fp_cast b32 (fp_sub b64 (val32 v) deg360))"

definition plus_360 :: "float32 \<Rightarrow> float32" where
  "plus_360 v = mk32 (fp_cast b32 (fp_add b64 (val32 v) deg360))"

partial_function (option) wrap_loop :: "float32 \<Rightarrow> float32 option" where
  "wrap_loop v = (if fp_leq deg360 (val32 v) then wrap_loop (minus_360 v) else Some v)"

definition normalise :: "float32 \<Rightarrow> float32 option" where
  "normalise v =
     (case wrap_loop v of
        None \<Rightarrow> None
      | Some v1 \<Rightarrow>
          (let v2 = (if fp_leq (val32 v1) (fp_neg deg360) then plus_360 v1 else v1);
               v3 = (if fp_less (val32 v2) (Fin 0) then plus_360 v2 else v2)
           in Some (f32_add (mk32 (Fin 0)) v3)))"

definition mk_angle :: "float32 \<Rightarrow> angle option" where
  "mk_angle init = map_option Angle (normalise init)"

definition angle_add :: "angle \<Rightarrow> angle \<Rightarrow> angle option" where
  "angle_add a b = mk_angle (f32_add (to_float a) (to_float b))"

definition angle_sub :: "angle \<Rightarrow> angle \<Rightarrow> angle option" where
  "angle_sub a b = mk_angle (f32_sub (to_float a) (to_float b))"

text \<open>The forms that update in place wrap the float sum themselves.\<close>

definition angle_add_assign :: "angle \<Rightarrow> angle \<Rightarrow> angle option" where
  "angle_add_assign a b = map_option Angle (normalise (f32_add (to_float a) (to_float b)))"

definition angle_sub_assign :: "angle \<Rightarrow> angle \<Rightarrow> angle option" where
  "angle_sub_assign a b = map_option Angle (normalise (f32_sub (to_float a) (to_float b)))"

text \<open>The literals \<open>45_deg\<close> (an integer) and \<open>45.5_deg\<close> (a rational).\<close>

definition deg_literal :: "rat \<Rightarrow> angle option" where
  "deg_literal q = mk_angle (f32_of_rat q)"

section \<open>One turn of the wrap\<close>

text \<open>\<open>num v q\<close>: the stored float \<open>v\<close> is finite, with value \<open>q\<close>.\<close>

definition num :: "float32 \<Rightarrow> rat \<Rightarrow> bool" where
  "num v q \<longleftrightarrow> has_val (val32 v) q"

lemma has_val_360: "has_val deg360 360"
  by (simp add: deg360_def)

text \<open>A double operation stored in a float: both roundings, for results of moderate size.\<close>

definition narrow :: "rat \<Rightarrow> rat" where
  "narrow x = rnd b32 (rnd b64 x)"

lemma narrow_between:
  assumes "of_int a \<le> x" "x \<le> of_int b" "\<bar>a\<bar> \<le> 2 ^ 23" "\<bar>b\<bar> \<le> 2 ^ 23"
  shows "of_int a \<le> rnd b64 x \<and> rnd b64 x \<le> of_int b" and "of_int a \<le> narrow x \<and> narrow x \<le> of_int b"
proof -
  show *: "of_int a \<le> rnd b64 x \<and> rnd b64 x \<le> of_int b"
    using assms by (intro double.between_int) simp_all
  show "of_int a \<le> narrow x \<and> narrow x \<le> of_int b"
    unfolding narrow_def using * assms by (intro single.between_int) simp_all
qed

lemma abs_between: "of_int a \<le> x \<Longrightarrow> x \<le> of_int b \<Longrightarrow> \<bar>a\<bar> \<le> m \<Longrightarrow> \<bar>b\<bar> \<le> m \<Longrightarrow> \<bar>x :: rat\<bar> \<le> of_int m"
proof -
  assume "of_int a \<le> x" "x \<le> of_int b" "\<bar>a\<bar> \<le> m" "\<bar>b\<bar> \<le> m"
  moreover from this have "of_int b \<le> (of_int m :: rat)" "of_int (- m) \<le> (of_int a :: rat)"
    by (simp_all only: of_int_le_iff)
  ultimately show ?thesis by simp
qed

lemma num_minus_360:
  assumes "num v q" "of_int a \<le> q - 360" "q - 360 \<le> of_int b" "\<bar>a\<bar> \<le> 2 ^ 23" "\<bar>b\<bar> \<le> 2 ^ 23"
  shows "num (minus_360 v) (narrow (q - 360))"
proof -
  note bounds = narrow_between [OF assms(2-5)]
  have "has_val (fp_sub b64 (val32 v) deg360) (rnd b64 (q - 360))"
    using assms(1) unfolding num_def
    by (intro has_val_sub b64_limit has_val_360 abs_between [where a = a and b = b])
      (use bounds(1) assms(4,5) in simp_all)
  then have "has_val (fp_cast b32 (fp_sub b64 (val32 v) deg360)) (narrow (q - 360))"
    unfolding narrow_def
    by (rule has_val_cast)
      (rule b32_limit, rule abs_between [where a = a and b = b], use bounds(2) assms(4,5) in \<open>simp_all add: narrow_def\<close>)
  then show ?thesis by (simp add: num_def minus_360_def val32_mk32 rep_cast)
qed

lemma num_plus_360:
  assumes "num v q" "of_int a \<le> q + 360" "q + 360 \<le> of_int b" "\<bar>a\<bar> \<le> 2 ^ 23" "\<bar>b\<bar> \<le> 2 ^ 23"
  shows "num (plus_360 v) (narrow (q + 360))"
proof -
  note bounds = narrow_between [OF assms(2-5)]
  have "has_val (fp_add b64 (val32 v) deg360) (rnd b64 (q + 360))"
    using assms(1) unfolding num_def
    by (intro has_val_add b64_limit has_val_360 abs_between [where a = a and b = b])
      (use bounds(1) assms(4,5) in simp_all)
  then have "has_val (fp_cast b32 (fp_add b64 (val32 v) deg360)) (narrow (q + 360))"
    unfolding narrow_def
    by (rule has_val_cast)
      (rule b32_limit, rule abs_between [where a = a and b = b], use bounds(2) assms(4,5) in \<open>simp_all add: narrow_def\<close>)
  then show ?thesis by (simp add: num_def plus_360_def val32_mk32 rep_cast)
qed

lemma wrap_loop_stop: "num v q \<Longrightarrow> q < 360 \<Longrightarrow> wrap_loop v = Some v"
  by (subst wrap_loop.simps) (simp add: num_def has_val_leq [OF has_val_360])

lemma wrap_loop_turn: "num v q \<Longrightarrow> 360 \<le> q \<Longrightarrow> wrap_loop v = wrap_loop (minus_360 v)"
  by (subst wrap_loop.simps) (simp add: num_def has_val_leq [OF has_val_360])

text \<open>The loop ends for every argument up to \<open>2\<^sup>2\<^sup>3\<close> degrees, in the half-open turn.\<close>

lemma wrap_loop_ends:
  assumes "num v q" "360 \<le> q" "q \<le> 2 ^ 23"
  shows "\<exists>w p. wrap_loop v = Some w \<and> num w p \<and> 0 \<le> p \<and> p < 360"
  using assms
proof (induction "nat \<lfloor>q\<rfloor>" arbitrary: v q rule: less_induct)
  case less
  let ?b = "\<lceil>q - 360\<rceil>" and ?p = "narrow (q - 360)"
  have b: "of_int 0 \<le> q - 360" "q - 360 \<le> of_int ?b" "\<bar>?b\<bar> \<le> 2 ^ 23"
  proof -
    show "\<bar>?b\<bar> \<le> 2 ^ 23"
      using less.prems by (simp add: abs_le_iff ceiling_le_iff)
  qed (use less.prems in simp_all)
  have p: "num (minus_360 v) ?p"
    by (rule num_minus_360 [OF less.prems(1) b(1,2)]) (use b(3) in simp_all)
  have p0: "0 \<le> ?p" "?p \<le> of_int ?b" using narrow_between(2) [OF b(1,2)] b(3) by simp_all
  have smaller: "?p \<le> q - 359" using p0(2) by linarith
  have turn: "wrap_loop v = wrap_loop (minus_360 v)"
    using less.prems(1,2) by (rule wrap_loop_turn)
  show ?case
  proof (cases "360 \<le> ?p")
    case True
    have "nat \<lfloor>?p\<rfloor> < nat \<lfloor>q\<rfloor>" using smaller less.prems(2) by linarith
    then show ?thesis
      using less.hyps [OF _ p True] smaller less.prems(3) turn by auto
  next
    case False
    then show ?thesis using wrap_loop_stop [OF p] p p0(1) turn by auto
  qed
qed

lemma normalise_after:
  assumes "wrap_loop v = Some v1" "num v1 q" "- 720 \<le> q" "q < 360"
  shows "\<exists>r p. normalise v = Some r \<and> num r p \<and> 0 \<le> p \<and> p \<le> 360"
proof -
  define v2 where "v2 = (if fp_leq (val32 v1) (fp_neg deg360) then plus_360 v1 else v1)"
  define v3 where "v3 = (if fp_less (val32 v2) (Fin 0) then plus_360 v2 else v2)"
  have neg360: "has_val (fp_neg deg360) (- 360)" using has_val_360 by (rule has_val_neg)
  have "\<exists>p. num v2 p \<and> - 360 \<le> p \<and> p < 360"
  proof (cases "q \<le> - 360")
    case True
    then have "v2 = plus_360 v1" using assms(2) neg360 by (simp add: v2_def num_def has_val_leq)
    moreover have "num (plus_360 v1) (narrow (q + 360))"
      using True assms(2,3) by (intro num_plus_360 [where a = "-360" and b = 0]) simp_all
    moreover have "of_int (- 360) \<le> narrow (q + 360) \<and> narrow (q + 360) \<le> of_int 0"
      using True assms(3) by (intro narrow_between(2)) simp_all
    ultimately show ?thesis by fastforce
  next
    case False
    then have "v2 = v1" using assms(2) neg360 by (simp add: v2_def num_def has_val_leq)
    then show ?thesis using False assms by fastforce
  qed
  then obtain p where p: "num v2 p" "- 360 \<le> p" "p < 360" by blast
  have "\<exists>p. num v3 p \<and> 0 \<le> p \<and> p \<le> 360"
  proof (cases "p < 0")
    case True
    then have "v3 = plus_360 v2" using p(1) by (simp add: v3_def num_def has_val_less [where q = 0])
    moreover have "num (plus_360 v2) (narrow (p + 360))"
      using True p by (intro num_plus_360 [where a = 0 and b = 360]) simp_all
    moreover have "of_int 0 \<le> narrow (p + 360) \<and> narrow (p + 360) \<le> of_int 360"
      using True p by (intro narrow_between(2)) simp_all
    ultimately show ?thesis by auto
  next
    case False
    then have "v3 = v2" using p(1) by (simp add: v3_def num_def has_val_less [where q = 0])
    then show ?thesis using False p by force
  qed
  then obtain s where s: "num v3 s" "0 \<le> s" "s \<le> 360" by blast
  have zero: "val32 (mk32 (Fin 0)) = Fin 0" by (rule val32_mk32) (simp add: rep_def)
  have final: "of_int 0 \<le> rnd b32 s \<and> rnd b32 s \<le> of_int 360"
    using s by (intro single.between_int) simp_all
  have "has_val (fp_add b32 (Fin 0) (val32 v3)) (rnd b32 (0 + s))"
    using s(1) unfolding num_def
    by (intro has_val_add b32_limit abs_between [where a = 0 and b = 360]) (use final in simp_all)
  moreover have "rep b32 (fp_add b32 (Fin 0) (val32 v3))"
    by (rule rep_add) (simp_all add: rep_val32, simp add: rep_def)
  ultimately have "num (f32_add (mk32 (Fin 0)) v3) (rnd b32 s)"
    by (simp add: num_def f32_add_def zero val32_mk32)
  moreover have "normalise v = Some (f32_add (mk32 (Fin 0)) v3)"
    by (simp add: normalise_def assms(1) Let_def v2_def [symmetric] v3_def [symmetric])
  ultimately show ?thesis using final by auto
qed

section \<open>Exactness on the non-negative angles\<close>

text \<open>Up to \<open>2\<^sup>2\<^sup>3\<close> the spacing of \<open>float\<close> is at most 1, so subtracting a turn loses nothing.\<close>

lemma turn_exact:
  assumes "num v q" "360 \<le> q" "q \<le> 2 ^ 23"
  shows "narrow (q - 360) = q - 360"
proof -
  define u where "u = ulp_exp b32 q"
  have v: "val32 v = Fin q" using assms has_val_cases [of "val32 v" q] by (auto simp: num_def)
  define m where "m = \<lfloor>q / 2 powi u\<rfloor>"
  have q: "q = of_int m * 2 powi u"
    using rep_val32 [of v] assms(2) by (auto simp: v rep_def u_def m_def)
  have "ilog2 q \<le> ilog2 (2 ^ 23)" using assms by (intro ilog2_mono) simp_all
  also have "ilog2 (2 ^ 23) = 23" by (rule ilog2_eqI) simp_all
  finally have u0: "u \<le> 0" "- 149 \<le> u"
    by (simp_all add: u_def ulp_exp_def ulp_min_def bias_def b32_def)
  define k :: int where "k = 360 * 2 ^ nat (- u)"
  have k: "(360 :: rat) = of_int k * 2 powi u"
    using pow2_split [of u 0] u0 by (simp add: k_def)
  have d: "q - 360 = of_int (m - k) * 2 powi u"
    by (subst q, subst k) (simp add: left_diff_distrib)
  have "q < 2 * 2 powi ilog2 q" using ilog2_bounds(2) [of q] assms(2) by (simp add: pow2_Suc)
  also have "\<dots> \<le> 2 * 2 powi (u + 23)"
    by (simp add: pow2_mono u_def ulp_exp_def b32_def)
  also have "\<dots> = of_int (2 ^ 24) * 2 powi u" by (simp add: power_int_add)
  finally have "of_int m * 2 powi u < of_int (2 ^ 24) * (2 :: rat) powi u" by (simp only: q [symmetric])
  then have "m < 2 ^ 24" by (simp only: mult_less_cancel_right_pos [OF pow2_pos] of_int_less_iff)
  moreover have "(0 :: rat) \<le> of_int (m - k) * 2 powi u" unfolding d [symmetric] using assms(2) by simp
  then have "k \<le> m" by (simp add: zero_le_mult_iff)
  moreover have "0 \<le> k" by (simp add: k_def)
  ultimately have m: "\<bar>m - k\<bar> < 2 ^ (23 + 1)" by simp
  have "rnd b32 (q - 360) = q - 360" using single.grid [OF m u0(2)] by (simp only: d)
  moreover have "\<bar>m - k\<bar> < 2 ^ (52 + 1)" using m by (rule less_trans) simp
  then have "rnd b64 (q - 360) = q - 360" using double.grid [of "m - k" u] u0 by (simp only: d)
  ultimately show ?thesis by (simp add: narrow_def)
qed

definition in_turn :: "rat \<Rightarrow> rat" where
  "in_turn q = q - 360 * of_int \<lfloor>q / 360\<rfloor>"

lemma in_turn_bounds: "0 \<le> in_turn q" "in_turn q < 360"
proof -
  have "of_int \<lfloor>q / 360\<rfloor> \<le> q / 360" "q / 360 < of_int \<lfloor>q / 360\<rfloor> + 1" by linarith+
  then show "0 \<le> in_turn q" "in_turn q < 360" by (simp_all add: in_turn_def field_simps)
qed

lemma in_turn_minus: "in_turn (q - 360) = in_turn q"
proof -
  have "(q - 360) / 360 = q / 360 - of_int 1" by (simp add: field_simps)
  then have "\<lfloor>(q - 360) / 360\<rfloor> = \<lfloor>q / 360\<rfloor> - 1" by (simp only: floor_diff_of_int)
  then show ?thesis by (simp add: in_turn_def algebra_simps)
qed

lemma in_turn_id: "0 \<le> q \<Longrightarrow> q < 360 \<Longrightarrow> in_turn q = q"
proof -
  assume "0 \<le> q" "q < 360"
  then have "\<lfloor>q / 360\<rfloor> = 0" by (simp add: floor_eq_iff)
  then show ?thesis by (simp add: in_turn_def)
qed

lemma wrap_loop_exact:
  assumes "num v q" "0 \<le> q" "q \<le> 2 ^ 23"
  shows "\<exists>w. wrap_loop v = Some w \<and> num w (in_turn q)"
  using assms
proof (induction "nat \<lfloor>q\<rfloor>" arbitrary: v q rule: less_induct)
  case less
  show ?case
  proof (cases "360 \<le> q")
    case True
    have "\<bar>\<lceil>q - 360\<rceil>\<bar> \<le> 2 ^ 23" using True less.prems(3) by (simp add: abs_le_iff ceiling_le_iff)
    then have p: "num (minus_360 v) (q - 360)"
      using num_minus_360 [OF less.prems(1), of 0 "\<lceil>q - 360\<rceil>"] True less.prems(3)
      by (simp add: turn_exact [OF less.prems(1)])
    moreover have "nat \<lfloor>q - 360\<rfloor> < nat \<lfloor>q\<rfloor>" using True by linarith
    ultimately have "\<exists>w. wrap_loop (minus_360 v) = Some w \<and> num w (in_turn (q - 360))"
      using less.hyps True less.prems(3) by simp
    then show ?thesis using wrap_loop_turn [OF less.prems(1) True] by (simp add: in_turn_minus)
  next
    case False
    then show ?thesis using less.prems wrap_loop_stop [of v q] by (simp add: in_turn_id)
  qed
qed

lemma add_zero:
  assumes "num v q"
  shows "num (f32_add (mk32 (Fin 0)) v) q"
proof -
  have zero: "val32 (mk32 (Fin 0)) = Fin 0" by (rule val32_mk32) (simp add: rep_def)
  have "fp_add b32 (Fin 0) (val32 v) = Fin q"
    using has_val_cases [OF assms [unfolded num_def]] to_fp_val32 [of v q]
    by (auto simp: fp_add_def) (simp add: to_fp_def)
  then show ?thesis
    using rep_val32 [of v] to_fp_val32 [of v q] has_val_cases [OF assms [unfolded num_def]]
    by (auto simp: num_def f32_add_def zero val32_mk32 rep_def)
qed

section \<open>The constructor\<close>

text \<open>
  C35: between 0 and \<open>2\<^sup>2\<^sup>3\<close> degrees the constructor returns, and the wrap is exact: the stored
  angle is the argument less its whole turns, without any rounding error, and below 360.
\<close>

theorem normalise_exact:
  assumes "has_val (val32 v) q" "0 \<le> q" "q \<le> 2 ^ 23"
  shows "\<exists>r. mk_angle v = Some (Angle r) \<and> has_val (val32 r) (in_turn q) \<and> in_turn q < 360"
proof -
  obtain w where w: "wrap_loop v = Some w" "num w (in_turn q)"
    using wrap_loop_exact [of v q] assms by (auto simp: num_def)
  have "normalise v = Some (f32_add (mk32 (Fin 0)) w)"
    using w has_val_360 [THEN has_val_neg] in_turn_bounds [of q]
    by (simp add: normalise_def num_def has_val_leq has_val_less [where q = 0])
  then show ?thesis
    using add_zero [OF w(2)] in_turn_bounds [of q] by (simp add: mk_angle_def num_def)
qed

text \<open>
  From two turns below zero upwards (to \<open>2\<^sup>2\<^sup>3\<close>) the constructor returns a finite angle in the
  closed interval from 0 to 360.
\<close>

theorem normalise_in_interval:
  assumes "has_val (val32 v) q" "- 720 \<le> q" "q \<le> 2 ^ 23"
  shows "\<exists>r p. mk_angle v = Some (Angle r) \<and> has_val (val32 r) p \<and> 0 \<le> p \<and> p \<le> 360"
proof (cases "q < 360")
  case True
  then have "wrap_loop v = Some v" using assms(1) wrap_loop_stop by (simp add: num_def)
  then show ?thesis
    using normalise_after [of v v q] assms True by (auto simp: num_def mk_angle_def)
next
  case False
  then show ?thesis
    using normalise_exact [OF assms(1)] assms(3) in_turn_bounds [of q] by fastforce
qed

lemma val32_900: "val32 (F32 0x44610000) = Fin 900"
  by (simp add: fp_eval)

lemma val32_m90: "val32 (F32 0xC2B40000) = Fin (- 90)"
  by (simp add: fp_eval)

text \<open>900 degrees are wrapped to 180, and -90 degrees lie in the interval of C5.\<close>

theorem normalise_exact_witness:
  "\<exists>r. mk_angle (F32 0x44610000) = Some (Angle r) \<and> has_val (val32 r) 180"
proof -
  have "in_turn 900 = 180" by (simp add: in_turn_def)
  then show ?thesis using normalise_exact [of "F32 0x44610000" 900] by (auto simp: val32_900)
qed

theorem normalise_in_interval_witness:
  "\<exists>r p. mk_angle (F32 0xC2B40000) = Some (Angle r) \<and> has_val (val32 r) p \<and> 0 \<le> p \<and> p \<le> 360"
  using normalise_in_interval [of "F32 0xC2B40000" "- 90"] by (simp add: val32_m90)

section \<open>Outside the promise\<close>

text \<open>The loop makes no progress when the subtraction rounds back to its argument.\<close>

lemma wrap_loop_stuck:
  assumes "fp_leq deg360 (val32 v)" "minus_360 v = v"
  shows "wrap_loop v = None"
proof -
  have "w \<noteq> v" if "wrap_loop w = Some x" for w x
  proof (rule wrap_loop.raw_induct [where P = "\<lambda>w x. w \<noteq> v", OF _ that])
    fix f u y
    assume "\<And>a b. f a = Some b \<Longrightarrow> a \<noteq> v" "(if fp_leq deg360 (val32 u) then f (minus_360 u) else Some u) = Some y"
    then show "u \<noteq> v" using assms by metis
  qed
  then show ?thesis by (cases "wrap_loop v") auto
qed

lemma add_zero_eq:
  assumes "val32 v = Fin q"
  shows "f32_add (mk32 (Fin 0)) v = v"
proof (cases "q = 0")
  case True
  have "val32 (mk32 (Fin 0)) = Fin 0" by (rule val32_mk32) (simp add: rep_def)
  moreover have "mk32 (Fin 0) = v" using assms True by (simp add: mk32_cong)
  ultimately show ?thesis using True by (auto simp: f32_add_def fp_add_def to_fp_def)
next
  case False
  have "num v q" using assms by (simp add: num_def)
  then have "val32 (f32_add (mk32 (Fin 0)) v) = Fin q"
    using add_zero [of v q] False has_val_cases by (fastforce simp: num_def)
  then show ?thesis using assms mk32_cong by metis
qed

text \<open>The bit patterns of -800, -440, -80, 360, \<open>- 2\<^sup>-\<^sup>2\<^sup>0\<close> and \<open>2\<^sup>4\<^sup>0\<close>.\<close>

lemma val32_samples:
  "val32 (F32 0xC4480000) = Fin (- 800)" "val32 (F32 0xC3DC0000) = Fin (- 440)"
  "val32 (F32 0xC2A00000) = Fin (- 80)" "val32 (F32 0x43B40000) = Fin 360"
  "val32 (F32 0xB5800000) = Fin (- (1 / 1048576))" "val32 (F32 0x53800000) = Fin 1099511627776"
  by (simp_all add: fp_eval)

lemmas mk32_samples = val32_samples [THEN mk32_cong]

lemma plus_360_samples:
  "plus_360 (F32 0xC4480000) = F32 0xC3DC0000" "plus_360 (F32 0xC3DC0000) = F32 0xC2A00000"
  "plus_360 (F32 0xB5800000) = F32 0x43B40000"
proof -
  have i: "to_fp b64 (- 440) = Fin (- 440)" "to_fp b32 (- 440) = Fin (- 440)"
    "to_fp b64 (- 80) = Fin (- 80)" "to_fp b32 (- 80) = Fin (- 80)"
    using to_fp_int64 [of "- 440"] to_fp_int32 [of "- 440"] to_fp_int64 [of "- 80"] to_fp_int32 [of "- 80"]
    by simp_all
  have t: "to_fp b64 (377487359 / 1048576) = Fin (377487359 / 1048576)"
    "to_fp b32 (377487359 / 1048576) = Fin 360"
    by (simp_all add: fp_eval)
  show "plus_360 (F32 0xC4480000) = F32 0xC3DC0000" "plus_360 (F32 0xC3DC0000) = F32 0xC2A00000"
    "plus_360 (F32 0xB5800000) = F32 0x43B40000"
    by (simp_all add: plus_360_def val32_samples deg360_def fp_add_def fp_cast_def i t mk32_samples)
qed

lemma normalise_limits_facts:
  "mk_angle (F32 0xC4480000) = Some (Angle (F32 0xC2A00000))"
  "fp_less (val32 (F32 0xC2A00000)) (Fin 0)"
  "mk_angle (F32 0xB5800000) = Some (Angle (F32 0x43B40000))"
  "mk_angle (F32 0x53800000) = None"
proof -
  have stop: "wrap_loop (F32 0xC4480000) = Some (F32 0xC4480000)"
      "wrap_loop (F32 0xB5800000) = Some (F32 0xB5800000)"
    by (rule wrap_loop_stop [where q = "- 800"], simp_all add: num_def val32_samples)
      (rule wrap_loop_stop [where q = "- (1 / 1048576)"], simp_all add: num_def val32_samples)
  show "fp_less (val32 (F32 0xC2A00000)) (Fin 0)" by (simp add: val32_samples fp_less_def)
  show "mk_angle (F32 0xC4480000) = Some (Angle (F32 0xC2A00000))"
    "mk_angle (F32 0xB5800000) = Some (Angle (F32 0x43B40000))"
    by (simp_all add: mk_angle_def normalise_def stop val32_samples deg360_def fp_leq_def fp_less_def
        plus_360_samples add_zero_eq [OF val32_samples(3)] add_zero_eq [OF val32_samples(4)])
  have "rnd b64 1099511627416 = 1099511627416" "rnd b32 1099511627416 = 1099511627776"
    by (simp_all add: fp_eval)
  then have "minus_360 (F32 0x53800000) = F32 0x53800000"
    by (simp add: minus_360_def val32_samples deg360_def fp_sub_def fp_add_def fp_cast_def to_fp_def
        mk32_samples bias_def b32_def b64_def)
  then show "mk_angle (F32 0x53800000) = None"
    by (simp add: mk_angle_def normalise_def wrap_loop_stuck val32_samples deg360_def fp_leq_def)
qed

text \<open>
  Where the promise of the class comment (an angle between 0 and 360, negative angles
  converted) ends: -800 degrees become -80, still negative; a tiny negative angle becomes 360
  itself; and for \<open>2\<^sup>4\<^sup>0\<close> degrees the constructor never returns, because subtracting 360 from a
  float of that size rounds back to it.
\<close>

theorem normalise_limits:
  "mk_angle (F32 0xC4480000) = Some (Angle (F32 0xC2A00000)) \<and>
     fp_less (val32 (F32 0xC2A00000)) (Fin 0) \<and>
     mk_angle (F32 0xB5800000) = Some (Angle (F32 0x43B40000)) \<and>
     mk_angle (F32 0x53800000) = None"
  by (intro conjI normalise_limits_facts)

end
