(* ===== verification/Net_Conversion.thy ===== *)
theory Net_Conversion
  imports IEEE_Float
begin

text \<open>
  \<open>cpp_17/utility/net_conversion.h\<close> and \<open>.cpp\<close>: conversions between host values, network byte
  order and byte vectors.  The unions \<open>float_uint32_map\<close> and \<open>double_uint64_map\<close> read a stored
  floating-point value as its bits; overloads of one C++ name get a suffix (\<open>_f\<close> for float,
  \<open>_4\<close> and \<open>_2\<close> for the array sizes).
\<close>

section \<open>Scalars\<close>

definition to_uint16_network :: "u16 \<Rightarrow> u16" where
  "to_uint16_network host_value = htons host_value"

definition to_uint16_host :: "u16 \<Rightarrow> u16" where
  "to_uint16_host network_value = ntohs network_value"

definition to_uint32_host_f :: "float32 \<Rightarrow> u32" where
  "to_uint32_host_f host_value = bits32 host_value"

definition to_uint32_network_f :: "float32 \<Rightarrow> u32" where
  "to_uint32_network_f host_value = htonl (bits32 host_value)"

definition from_uint32_host :: "u32 \<Rightarrow> float32" where
  "from_uint32_host host_value = F32 host_value"

definition from_uint32_network :: "u32 \<Rightarrow> float32" where
  "from_uint32_network network_value = F32 (ntohl network_value)"

definition to_uint32_host :: "u32 \<Rightarrow> u32" where
  "to_uint32_host network_value = ntohl network_value"

definition to_uint32_network :: "u32 \<Rightarrow> u32" where
  "to_uint32_network host_value = htonl host_value"

definition to_uint64_host :: "float64 \<Rightarrow> u64" where
  "to_uint64_host host_value = bits64 host_value"

definition from_uint64_host :: "u64 \<Rightarrow> float64" where
  "from_uint64_host host_value = F64 host_value"

text \<open>\<open>as_array[0]\<close> of the union is the half at the lower address.\<close>

definition to_uint64_network :: "float64 \<Rightarrow> u64" where
  "to_uint64_network host_value =
     (let m = mem64 (bits64 host_value);
          a0 = to_uint32_network (load32 (take 4 m));
          a1 = to_uint32_network (load32 (drop 4 m))
      in load64 (mem32 a0 @ mem32 a1))"

definition from_uint64_network :: "u64 \<Rightarrow> float64" where
  "from_uint64_network network_value =
     (let m = mem64 network_value;
          a0 = to_uint32_host (load32 (take 4 m));
          a1 = to_uint32_host (load32 (drop 4 m))
      in F64 (load64 (mem32 a0 @ mem32 a1)))"

section \<open>Byte arrays and vectors\<close>

definition to_byte_array_4 :: "u32 \<Rightarrow> byte list" where
  "to_byte_array_4 v = mem32 v"

definition to_byte_array_2 :: "u16 \<Rightarrow> byte list" where
  "to_byte_array_2 v = mem16 v"

definition from_byte_array_4 :: "byte list \<Rightarrow> u32" where
  "from_byte_array_4 bs = load32 bs"

definition from_byte_array_2 :: "byte list \<Rightarrow> u16" where
  "from_byte_array_2 bs = load16 bs"

definition to_vector16 :: "u16 \<Rightarrow> byte list" where
  "to_vector16 v = mem16 v"

definition to_vector32 :: "u32 \<Rightarrow> byte list" where
  "to_vector32 v = mem32 v"

definition to_vector64 :: "u64 \<Rightarrow> byte list" where
  "to_vector64 v = mem64 v"

definition from_vector_to16 :: "byte list \<Rightarrow> u16 option" where
  "from_vector_to16 vec = (if length vec < 2 then None else Some (load16 (take 2 vec)))"

definition from_vector_to32 :: "byte list \<Rightarrow> u32 option" where
  "from_vector_to32 vec = (if length vec < 4 then None else Some (load32 (take 4 vec)))"

definition from_vector_to64 :: "byte list \<Rightarrow> u64 option" where
  "from_vector_to64 vec = (if length vec < 8 then None else Some (load64 (take 8 vec)))"

section \<open>Round trips\<close>

lemma float_wire [simp, codec]: "from_uint32_network (to_uint32_network_f x) = x"
  by (cases x) (simp add: from_uint32_network_def to_uint32_network_f_def)

lemma wire_float [simp, codec]: "to_uint32_network_f (from_uint32_network w) = w"
  by (simp add: from_uint32_network_def to_uint32_network_f_def)

lemma uint16_wire [simp, codec]: "to_uint16_host (to_uint16_network v) = v"
  "to_uint16_network (to_uint16_host v) = v"
  by (simp_all add: to_uint16_host_def to_uint16_network_def)

lemma uint32_wire [simp, codec]: "to_uint32_host (to_uint32_network v) = v"
  "to_uint32_network (to_uint32_host v) = v"
  by (simp_all add: to_uint32_host_def to_uint32_network_def)

lemma byte_array_4 [simp, codec]: "from_byte_array_4 (to_byte_array_4 v) = v"
  by (simp add: from_byte_array_4_def to_byte_array_4_def)

lemma length_to_byte_array_4 [simp, codec]: "length (to_byte_array_4 v) = 4"
  by (simp add: to_byte_array_4_def)

lemma byte_array_2 [simp, codec]: "from_byte_array_2 (to_byte_array_2 v) = v"
  by (simp add: from_byte_array_2_def to_byte_array_2_def)

lemma length_to_vector [simp, codec]:
  "length (to_vector16 a) = 2" "length (to_vector32 b) = 4" "length (to_vector64 c) = 8"
  by (simp_all add: to_vector16_def to_vector32_def to_vector64_def)

lemma from_to_vector [codec]:
  "from_vector_to16 (to_vector16 a @ xs) = Some a"
  "from_vector_to32 (to_vector32 b @ xs) = Some b"
  "from_vector_to64 (to_vector64 c @ xs) = Some c"
  by (simp_all add: from_vector_to16_def from_vector_to32_def from_vector_to64_def
      to_vector16_def to_vector32_def to_vector64_def)

lemma from_to_vector_exact [simp, codec]:
  "from_vector_to16 (to_vector16 a) = Some a"
  "from_vector_to32 (to_vector32 b) = Some b"
  "from_vector_to64 (to_vector64 c) = Some c"
  using from_to_vector [of _ "[]"] by simp_all

lemma mem_to_uint64_network:
  "mem64 (to_uint64_network d) =
     rev (take 4 (mem64 (bits64 d))) @ rev (drop 4 (mem64 (bits64 d)))"
  by (simp add: to_uint64_network_def Let_def to_uint32_network_def mem_load64 mem_htonl mem_load32)

text \<open>
  A double converted with \<open>to_uint64_network\<close> and back with \<open>from_uint64_network\<close> is the same
  double, bit for bit; but its memory image is the two 32-bit halves reversed one by one, in the
  order the little-endian host keeps them, so it is not the big-endian image of the double.
\<close>

theorem double_network_round_trip:
  "from_uint64_network (to_uint64_network d) = d \<and>
   mem64 (to_uint64_network d) =
     rev (take 4 (mem64 (to_uint64_host d))) @ rev (drop 4 (mem64 (to_uint64_host d)))"
proof
  let ?m = "mem64 (bits64 d)"
  have "from_uint64_network (to_uint64_network d) = F64 (load64 (take 4 ?m @ drop 4 ?m))"
    by (simp add: from_uint64_network_def Let_def mem_to_uint64_network to_uint32_host_def
        ntohl_def mem_load32)
  then show "from_uint64_network (to_uint64_network d) = d" by (cases d) simp
qed (simp add: mem_to_uint64_network to_uint64_host_def)

end
