(* ===== verification/Sector_Blanking.thy ===== *)
theory Sector_Blanking
  imports Angle Net_Conversion
begin

text \<open>
  \<open>cpp_17/navigation/sector_blanking.h\<close> and \<open>.cpp\<close>: the list of at most eight blanked sectors and
  its wire format (a count byte, then two network-order floats per sector).  Reading a list may
  throw a \<open>length_error\<close>, and the constructor of an angle may not return (\<open>None\<close>).
\<close>

record sector =
  start :: angle
  finish :: angle

definition set_start :: "angle \<Rightarrow> sector \<Rightarrow> sector" where
  "set_start v s = s\<lparr>start := v\<rparr>"

definition set_finish :: "angle \<Rightarrow> sector \<Rightarrow> sector" where
  "set_finish v s = s\<lparr>finish := v\<rparr>"

record blanking_sector_list =
  sectors :: "sector list"

definition max_sectors :: nat where
  "max_sectors = 8"

definition empty_sector_list :: blanking_sector_list where
  "empty_sector_list = \<lparr>sectors = []\<rparr>"

definition make_sector_list :: "sector list \<Rightarrow> blanking_sector_list" where
  "make_sector_list init =
     \<lparr>sectors = take (if length init < max_sectors then length init else max_sectors) init\<rparr>"

text \<open>The two overloads of \<open>add\<close>: by constant reference, and by rvalue reference.\<close>

definition add_copy :: "sector \<Rightarrow> blanking_sector_list \<Rightarrow> bool \<times> blanking_sector_list" where
  "add_copy s l =
     (if length (sectors l) \<ge> max_sectors then (False, l)
      else (False, l\<lparr>sectors := sectors l @ [s]\<rparr>))"

definition add_move :: "sector \<Rightarrow> blanking_sector_list \<Rightarrow> bool \<times> blanking_sector_list" where
  "add_move s l =
     (if length (sectors l) \<ge> max_sectors then (False, l)
      else (True, l\<lparr>sectors := sectors l @ [s]\<rparr>))"

definition sector_bytes :: "sector \<Rightarrow> byte list" where
  "sector_bytes s =
     to_byte_array_4 (to_uint32_network_f (to_float (start s))) @
     to_byte_array_4 (to_uint32_network_f (to_float (finish s)))"

definition sectors_to_vector :: "blanking_sector_list \<Rightarrow> byte list" where
  "sectors_to_vector l = of_nat (length (sectors l)) # concat (map sector_bytes (sectors l))"

datatype sector_error = Not_enough_bytes | Sector_count_mismatch

definition read_angle :: "byte list \<Rightarrow> angle option" where
  "read_angle bytes = mk_angle (from_uint32_network (from_byte_array_4 bytes))"

fun read_sectors :: "nat \<Rightarrow> byte list \<Rightarrow> sector list option" where
  "read_sectors 0 it = Some []"
| "read_sectors (Suc n) it =
     (case read_angle (take 4 it) of
        None \<Rightarrow> None
      | Some start_angle \<Rightarrow>
          (case read_angle (take 4 (drop 4 it)) of
             None \<Rightarrow> None
           | Some finish_angle \<Rightarrow>
               (case read_sectors n (drop 8 it) of
                  None \<Rightarrow> None
                | Some ss \<Rightarrow> Some (\<lparr>start = start_angle, finish = finish_angle\<rparr> # ss))))"

text \<open>The subtraction is done in \<open>size_t\<close>, so an empty buffer wraps.\<close>

definition num_sectors :: "byte list \<Rightarrow> int" where
  "num_sectors buffer = (int (length buffer) - 1) mod 2 ^ 64 div 8"

definition sectors_from_vector ::
    "byte list \<Rightarrow> blanking_sector_list \<Rightarrow> (sector_error + blanking_sector_list) option" where
  "sectors_from_vector buffer l =
     (let num = num_sectors buffer in
      if num mod 4 \<noteq> 0 then Some (Inl Not_enough_bytes)
      else if uint (buffer ! 0) \<noteq> num then Some (Inl Sector_count_mismatch)
      else (case read_sectors (nat num) (drop 1 buffer) of
              None \<Rightarrow> None
            | Some ss \<Rightarrow> Some (Inr (l\<lparr>sectors := sectors l @ ss\<rparr>))))"

section \<open>Sizes and the limit of eight\<close>

lemma length_sector_bytes [simp]: "length (sector_bytes s) = 8"
  by (simp add: sector_bytes_def)

lemma length_concat_sectors: "length (concat (map sector_bytes ss)) = 8 * length ss"
  by (induction ss) simp_all

lemma length_sectors_to_vector: "length (sectors_to_vector l) = 1 + 8 * length (sectors l)"
  by (simp add: sectors_to_vector_def length_concat_sectors)

lemma num_sectors_to_vector:
  "length (sectors l) < 256 \<Longrightarrow> num_sectors (sectors_to_vector l) = int (length (sectors l))"
  by (simp add: num_sectors_def length_sectors_to_vector)

definition sector_list_ok :: "blanking_sector_list \<Rightarrow> bool" where
  "sector_list_ok l \<longleftrightarrow> length (sectors l) \<le> max_sectors"

lemma add_sector_limit_facts:
  "sector_list_ok empty_sector_list"
  "sector_list_ok (make_sector_list init)"
  "sector_list_ok l \<Longrightarrow> sector_list_ok (snd (add_copy s l)) \<and> sector_list_ok (snd (add_move s l))"
  "snd (add_copy s l) = snd (add_move s l)"
  "sectors (snd (add_move s l)) =
     (if length (sectors l) < max_sectors then sectors l @ [s] else sectors l)"
  "fst (add_move s l) \<longleftrightarrow> length (sectors l) < max_sectors"
  "\<not> fst (add_copy s l)"
  by (auto simp: sector_list_ok_def empty_sector_list_def make_sector_list_def add_copy_def add_move_def)

text \<open>
  The constructors and both overloads of \<open>add\<close> keep at most eight sectors; a ninth is dropped
  and the list unchanged; below eight it is appended.  The overload taking a constant reference
  answers false in both cases, the overload taking an rvalue answers whether it was added.
\<close>

theorem add_sector_limit:
  "sector_list_ok empty_sector_list \<and>
     sector_list_ok (make_sector_list init) \<and>
     (sector_list_ok l \<longrightarrow> sector_list_ok (snd (add_copy s l)) \<and> sector_list_ok (snd (add_move s l))) \<and>
     snd (add_copy s l) = snd (add_move s l) \<and>
     (sectors (snd (add_move s l)) =
     (if length (sectors l) < max_sectors then sectors l @ [s] else sectors l)) \<and>
     (fst (add_move s l) \<longleftrightarrow> length (sectors l) < max_sectors) \<and>
     \<not> fst (add_copy s l)"
  using add_sector_limit_facts by blast

section \<open>Round trip\<close>

text \<open>An angle is settled when wrapping its value again changes nothing.\<close>

definition settled :: "angle \<Rightarrow> bool" where
  "settled a \<longleftrightarrow> mk_angle (to_float a) = Some a"

lemma settled_in_turn:
  assumes "val32 v = Fin q" "0 \<le> q" "q < 360"
  shows "settled (Angle v)"
proof -
  have "wrap_loop v = Some v" using assms by (intro wrap_loop_stop [where q = q]) (simp_all add: num_def)
  moreover have "f32_add (mk32 (Fin 0)) v = v" using assms(1) by (rule add_zero_eq)
  ultimately have "normalise v = Some v"
    using assms by (simp add: normalise_def deg360_def fp_leq_def fp_less_def)
  then show ?thesis by (simp add: settled_def mk_angle_def)
qed

definition settled_sector :: "sector \<Rightarrow> bool" where
  "settled_sector s \<longleftrightarrow> settled (start s) \<and> settled (finish s)"

lemma read_angle_bytes [codec]:
  "settled a \<Longrightarrow> read_angle (to_byte_array_4 (to_uint32_network_f (to_float a))) = Some a"
  by (simp add: read_angle_def settled_def)

lemma read_sectors_concat:
  "list_all settled_sector ss \<Longrightarrow> read_sectors (length ss) (concat (map sector_bytes ss)) = Some ss"
proof (induction ss)
  case (Cons s ss)
  then have "read_angle (to_byte_array_4 (to_uint32_network_f (to_float (start s)))) = Some (start s)"
    "read_angle (to_byte_array_4 (to_uint32_network_f (to_float (finish s)))) = Some (finish s)"
    by (simp_all add: settled_sector_def read_angle_bytes)
  then show ?case using Cons by (simp add: sector_bytes_def)
qed simp

text \<open>
  C34: what \<open>to_vector\<close> writes for a list of at most eight sectors, whose angles all lie in one turn
  (0 or more and below 360 degrees), \<open>from_vector\<close> reads back (and appends to what the list held)
  when the number of sectors is a multiple of four; for any other number it throws, although the
  bytes are well formed.  (An angle can lie outside the turn, and is then read back as another one:
  made from a tiny negative number it is 360 by the rounding and is read back as 0, made from -1000
  it is -280 and is read back as 80.)
\<close>

theorem sectors_round_trip:
  assumes "length (sectors l) \<le> 8"
    "\<forall>s \<in> set (sectors l). \<forall>a \<in> {start s, finish s}. \<exists>q. val32 (to_float a) = Fin q \<and> 0 \<le> q \<and> q < 360"
  shows "sectors_from_vector (sectors_to_vector l) l0 =
    (if length (sectors l) mod 4 = 0 then Some (Inr (l0\<lparr>sectors := sectors l0 @ sectors l\<rparr>))
     else Some (Inl Not_enough_bytes))"
proof -
  let ?n = "length (sectors l)"
  have n: "?n \<le> 8" using assms(1) .
  have "settled a" if "s \<in> set (sectors l)" "a \<in> {start s, finish s}" for s a
  proof -
    from bspec [OF bspec [OF assms(2) that(1)] that(2)]
    obtain q where "val32 (to_float a) = Fin q" "0 \<le> q" "q < 360" by blast
    from settled_in_turn [OF this] show ?thesis by (cases a) simp
  qed
  then have "list_all settled_sector (sectors l)" by (simp add: list_all_iff settled_sector_def)
  have num: "num_sectors (sectors_to_vector l) = int ?n" using n by (intro num_sectors_to_vector) simp
  have count: "uint (sectors_to_vector l ! 0) = int ?n"
    using n by (simp add: sectors_to_vector_def uint_nat unat_of_nat)
  have "int ?n mod 4 = 0 \<longleftrightarrow> ?n mod 4 = 0" by presburger
  moreover have "read_sectors ?n (drop 1 (sectors_to_vector l)) = Some (sectors l)"
    using read_sectors_concat [OF \<open>list_all settled_sector (sectors l)\<close>] by (simp add: sectors_to_vector_def)
  ultimately show ?thesis by (simp add: sectors_from_vector_def Let_def num count)
qed

definition sample_sector :: sector where
  "sample_sector = \<lparr>start = Angle (F32 0x42200000), finish = Angle (F32 0x42700000)\<rparr>"

lemma sample_in_turn: "\<forall>a \<in> {start sample_sector, finish sample_sector}. \<exists>q. val32 (to_float a) = Fin q \<and> 0 \<le> q \<and> q < 360"
proof -
  have "val32 (F32 0x42200000) = Fin 40" "val32 (F32 0x42700000) = Fin 60" by (simp_all add: fp_eval)
  then show ?thesis by (simp add: sample_sector_def)
qed

text \<open>One sector from 40 to 60 degrees is written but refused; four of them come back.\<close>

theorem sectors_round_trip_witness:
  "sectors_from_vector (sectors_to_vector \<lparr>sectors = [sample_sector]\<rparr>) empty_sector_list =
     Some (Inl Not_enough_bytes) \<and>
   sectors_from_vector (sectors_to_vector \<lparr>sectors = replicate 4 sample_sector\<rparr>) empty_sector_list =
     Some (Inr \<lparr>sectors = replicate 4 sample_sector\<rparr>)"
  using sectors_round_trip [of "\<lparr>sectors = [sample_sector]\<rparr>" empty_sector_list]
    sectors_round_trip [of "\<lparr>sectors = replicate 4 sample_sector\<rparr>" empty_sector_list]
  sample_in_turn by (simp add: empty_sector_list_def)

text \<open>An empty buffer, a missing count byte included, is refused.\<close>

lemma sectors_from_empty: "sectors_from_vector [] l = Some (Inl Not_enough_bytes)"
  by (simp add: sectors_from_vector_def num_sectors_def)

theorem add_sector_limit_witness:
  "sector_list_ok (snd (add_copy sample_sector empty_sector_list)) \<and>
   sector_list_ok (snd (add_move sample_sector empty_sector_list))"
  using add_sector_limit [of _ empty_sector_list sample_sector] by blast

end
