(* ===== verification/IP_Address.thy ===== *)
theory IP_Address
  imports Prelude
begin

text \<open>
  \<open>cpp_17/utility/ip_address.h\<close> and \<open>.cpp\<close>: an IPv4 address, its textual form and its masks.
  The address is kept as a host-endian 32-bit word; \<open>byte[i]\<close> of the union is byte \<open>i\<close> of its
  little-endian memory image.  The constructor from text throws \<open>std::out_of_range\<close> when the
  text does not match the regular expression of \<open>validate\<close>.
\<close>

datatype endian = Host | Network
datatype ip_error = Out_of_range string
datatype ip_address = IP u32

fun ip_word :: "ip_address \<Rightarrow> u32" where
  "ip_word (IP w) = w"

definition localhost :: ip_address where
  "localhost = IP 0x7F000001"

definition ip_of_raw :: "u32 \<Rightarrow> endian \<Rightarrow> ip_address" where
  "ip_of_raw raw_addr e = IP (if e = Host then raw_addr else ntohl raw_addr)"

definition to_host_endian :: "ip_address \<Rightarrow> u32" where
  "to_host_endian a = ip_word a"

definition to_network_endian :: "ip_address \<Rightarrow> u32" where
  "to_network_endian a = htonl (ip_word a)"

definition value_as :: "ip_address \<Rightarrow> endian \<Rightarrow> u32" where
  "value_as a e = (if e = Host then to_host_endian a else to_network_endian a)"

section \<open>Masks and comparison\<close>

unbundle bit_operations_syntax

definition ip_not :: "ip_address \<Rightarrow> ip_address" where
  "ip_not a = IP (NOT (ip_word a))"

definition ip_and :: "ip_address \<Rightarrow> ip_address \<Rightarrow> ip_address" where
  "ip_and a b = IP (ip_word a AND ip_word b)"

definition ip_and_raw :: "ip_address \<Rightarrow> u32 \<Rightarrow> ip_address" where
  "ip_and_raw a m = IP (ip_word a AND m)"

definition ip_or :: "ip_address \<Rightarrow> ip_address \<Rightarrow> ip_address" where
  "ip_or a b = IP (ip_word a OR ip_word b)"

definition ip_or_raw :: "ip_address \<Rightarrow> u32 \<Rightarrow> ip_address" where
  "ip_or_raw a m = IP (ip_word a OR m)"

definition ip_eq :: "ip_address \<Rightarrow> ip_address \<Rightarrow> bool" where
  "ip_eq a b \<longleftrightarrow> ip_word a = ip_word b"

definition ip_eq_raw :: "ip_address \<Rightarrow> u32 \<Rightarrow> bool" where
  "ip_eq_raw a w \<longleftrightarrow> ip_word a = w"

text \<open>The assignments, the forms that update in place, and those with the number on the left.\<close>

definition ip_assign_raw :: "u32 \<Rightarrow> ip_address \<Rightarrow> ip_address" where
  "ip_assign_raw w a = IP w"

definition ip_and_assign :: "ip_address \<Rightarrow> ip_address \<Rightarrow> ip_address" where
  "ip_and_assign a b = IP (ip_word a AND ip_word b)"

definition ip_and_assign_raw :: "ip_address \<Rightarrow> u32 \<Rightarrow> ip_address" where
  "ip_and_assign_raw a m = IP (ip_word a AND m)"

definition raw_and_ip :: "u32 \<Rightarrow> ip_address \<Rightarrow> ip_address" where
  "raw_and_ip m a = IP (m AND ip_word a)"

definition ip_or_assign :: "ip_address \<Rightarrow> ip_address \<Rightarrow> ip_address" where
  "ip_or_assign a b = IP (ip_word a OR ip_word b)"

definition ip_or_assign_raw :: "ip_address \<Rightarrow> u32 \<Rightarrow> ip_address" where
  "ip_or_assign_raw a m = IP (ip_word a OR m)"

definition raw_or_ip :: "u32 \<Rightarrow> ip_address \<Rightarrow> ip_address" where
  "raw_or_ip m a = IP (m OR ip_word a)"

definition ip_neq :: "ip_address \<Rightarrow> ip_address \<Rightarrow> bool" where
  "ip_neq a b \<longleftrightarrow> \<not> ip_eq a b"

definition ip_neq_raw :: "ip_address \<Rightarrow> u32 \<Rightarrow> bool" where
  "ip_neq_raw a w \<longleftrightarrow> \<not> ip_eq_raw a w"

definition ip_to_word :: "ip_address \<Rightarrow> u32" where
  "ip_to_word a = to_host_endian a"

text \<open>A network and the hosts in it: the mask of an address and the rest make up the address.\<close>

lemma mask_and_rest:
  "ip_or (ip_and a m) (ip_and a (ip_not m)) = a"
  "ip_and_assign a m = ip_and a m" "raw_and_ip (ip_word m) a = ip_and a m" "raw_or_ip (ip_word m) a = ip_or a m"
  by (cases a; simp add: ip_or_def ip_and_def ip_not_def ip_and_assign_def raw_and_ip_def raw_or_ip_def
      bit.conj_disj_distrib [symmetric] ac_simps)+

section \<open>Printing\<close>

definition digit_char :: "nat \<Rightarrow> char" where
  "digit_char d = char_of (48 + d)"

fun show_nat :: "nat \<Rightarrow> string" where
  "show_nat n = (if n < 10 then [digit_char n] else show_nat (n div 10) @ [digit_char (n mod 10)])"

declare show_nat.simps [simp del]

definition ip_byte :: "ip_address \<Rightarrow> nat \<Rightarrow> nat" where
  "ip_byte a i = unat (mem32 (ip_word a) ! i)"

definition ip_to_string :: "ip_address \<Rightarrow> string" where
  "ip_to_string a =
     show_nat (ip_byte a 3) @ ''.'' @ show_nat (ip_byte a 2) @ ''.'' @
     show_nat (ip_byte a 1) @ ''.'' @ show_nat (ip_byte a 0)"

section \<open>Parsing\<close>

definition is_digit :: "char \<Rightarrow> bool" where
  "is_digit c \<longleftrightarrow> 48 \<le> (of_char c :: nat) \<and> (of_char c :: nat) \<le> 57"

definition digit_val :: "char \<Rightarrow> nat" where
  "digit_val c = of_char c - 48"

definition digit_upto :: "nat \<Rightarrow> char \<Rightarrow> bool" where
  "digit_upto d c \<longleftrightarrow> is_digit c \<and> digit_val c \<le> d"

text \<open>The octet alternatives \<open>25[0-5]|2[0-4][0-9]|[01]?[0-9][0-9]?\<close> of the regular expression.\<close>

fun octet :: "string \<Rightarrow> bool" where
  "octet [a] = is_digit a"
| "octet [a, b] = (is_digit a \<and> is_digit b)"
| "octet [a, b, c] =
     ((a = CHR ''2'' \<and> b = CHR ''5'' \<and> digit_upto 5 c) \<or>
      (a = CHR ''2'' \<and> digit_upto 4 b \<and> is_digit c) \<or>
      (digit_upto 1 a \<and> is_digit b \<and> is_digit c))"
| "octet _ = False"

fun split_dots :: "string \<Rightarrow> string list" where
  "split_dots [] = [[]]"
| "split_dots (c # s) =
     (if c = CHR ''.'' then [] # split_dots s
      else (case split_dots s of [] \<Rightarrow> [[c]] | p # ps \<Rightarrow> (c # p) # ps))"

definition validate :: "string \<Rightarrow> bool" where
  "validate s = (let ps = split_dots s in length ps = 4 \<and> list_all octet ps)"

text \<open>
  \<open>std::stoi(str, nullptr, 0)\<close> on a string of digits: a leading zero selects octal, and the
  conversion stops at the first character that is not a digit of the base.
\<close>

fun stoi_base :: "nat \<Rightarrow> nat \<Rightarrow> string \<Rightarrow> nat" where
  "stoi_base b acc [] = acc"
| "stoi_base b acc (c # s) =
     (if is_digit c \<and> digit_val c < b then stoi_base b (b * acc + digit_val c) s else acc)"

definition stoi :: "string \<Rightarrow> nat" where
  "stoi s = (case s of [] \<Rightarrow> 0 | c # _ \<Rightarrow> stoi_base (if c = CHR ''0'' then 8 else 10) 0 s)"

definition parse_string :: "string \<Rightarrow> ip_address" where
  "parse_string s =
     (case split_dots s of
        [p3, p2, p1, p0] \<Rightarrow>
          IP (load32 [of_nat (stoi p0), of_nat (stoi p1), of_nat (stoi p2), of_nat (stoi p3)])
      | _ \<Rightarrow> IP 0)"

definition ip_of_string :: "string \<Rightarrow> ip_error + ip_address" where
  "ip_of_string s = (if validate s then Inr (parse_string s) else Inl (Out_of_range ''Invalid IP address''))"

section \<open>The text of an address reads back\<close>

lemma digit_char_digit: "d < 10 \<Longrightarrow> is_digit (digit_char d) \<and> digit_val (digit_char d) = d"
  by (simp add: digit_char_def is_digit_def digit_val_def of_char_of)

lemma dot_not_digit: "is_digit c \<Longrightarrow> c \<noteq> CHR ''.''"
  by (auto simp: is_digit_def)

lemma show_nat_digits: "c \<in> set (show_nat n) \<Longrightarrow> is_digit c"
proof (induction n rule: show_nat.induct)
  case (1 n)
  then show ?case
    using digit_char_digit [of n] digit_char_digit [of "n mod 10"]
    by (subst (asm) (2) show_nat.simps) (auto split: if_splits)
qed

lemma digit_char_inj: "a < 10 \<Longrightarrow> b < 10 \<Longrightarrow> digit_char a = digit_char b \<longleftrightarrow> a = b"
  by (metis digit_char_digit)

lemma digit_char_consts: "digit_char 0 = CHR ''0''" "digit_char 2 = CHR ''2''" "digit_char 5 = CHR ''5''"
  by (simp_all add: digit_char_def char_of_def bit_0)

lemmas digit_facts = digit_char_digit digit_char_consts [symmetric] digit_char_inj digit_upto_def

lemma octet1: "n < 10 \<Longrightarrow> octet [digit_char n] \<and> stoi [digit_char n] = n"
  by (simp add: digit_facts stoi_def)

lemma octet2:
  "0 < a \<Longrightarrow> a < 10 \<Longrightarrow> b < 10 \<Longrightarrow>
    octet [digit_char a, digit_char b] \<and> stoi [digit_char a, digit_char b] = 10 * a + b"
  by (simp add: digit_facts stoi_def)

lemma octet3:
  "0 < a \<Longrightarrow> a < 10 \<Longrightarrow> b < 10 \<Longrightarrow> c < 10 \<Longrightarrow> 100 * a + 10 * b + c < 256 \<Longrightarrow>
    octet [digit_char a, digit_char b, digit_char c] \<and>
    stoi [digit_char a, digit_char b, digit_char c] = 100 * a + 10 * b + c"
  by (auto simp: digit_facts stoi_def)

lemma show_nat_small: "n < 10 \<Longrightarrow> show_nat n = [digit_char n]"
  by (simp add: show_nat.simps)

lemma show_nat_step: "10 \<le> n \<Longrightarrow> show_nat n = show_nat (n div 10) @ [digit_char (n mod 10)]"
  by (subst show_nat.simps) simp

lemma octet_show_nat:
  assumes "n < 256"
  shows "octet (show_nat n) \<and> stoi (show_nat n) = n"
proof -
  consider "n < 10" | "10 \<le> n" "n < 100" | "100 \<le> n" by linarith
  then show ?thesis
  proof cases
    case 1
    then show ?thesis using octet1 [of n] by (simp only: show_nat_small)
  next
    case 2
    then have "n div 10 < 10" "0 < n div 10" by linarith+
    moreover have "show_nat n = [digit_char (n div 10), digit_char (n mod 10)]"
      using 2 calculation(1) by (simp only: show_nat_step [of n] show_nat_small append.simps)
    ultimately show ?thesis using octet2 [of "n div 10" "n mod 10"] by simp
  next
    case 3
    let ?m = "n div 10"
    have bounds: "10 \<le> ?m" "?m div 10 < 10" "0 < ?m div 10" using 3 assms by linarith+
    have "show_nat n = [digit_char (?m div 10), digit_char (?m mod 10), digit_char (n mod 10)]"
      using 3 bounds(1,2)
      by (simp only: show_nat_step [of n] show_nat_step [of ?m] show_nat_small append.simps)
    moreover have "100 * (?m div 10) + 10 * (?m mod 10) + n mod 10 = n"
      using mult_div_mod_eq [of 10 n] mult_div_mod_eq [of 10 ?m] by linarith
    ultimately show ?thesis
      using assms bounds octet3 [of "?m div 10" "?m mod 10" "n mod 10"]
      by (simp only: pos_mod_bound mod_less_divisor zero_less_numeral simp_thms)
  qed
qed

lemma split_dots_word: "(\<And>c. c \<in> set w \<Longrightarrow> c \<noteq> CHR ''.'') \<Longrightarrow> split_dots w = [w]"
  by (induction w) auto

lemma split_dots_step:
  "(\<And>c. c \<in> set w \<Longrightarrow> c \<noteq> CHR ''.'') \<Longrightarrow>
    split_dots (w @ CHR ''.'' # s) = w # split_dots s"
  by (induction w) auto

lemma split_ip_to_string:
  "split_dots (ip_to_string a) =
     [show_nat (ip_byte a 3), show_nat (ip_byte a 2), show_nat (ip_byte a 1), show_nat (ip_byte a 0)]"
  by (simp add: ip_to_string_def split_dots_step split_dots_word dot_not_digit show_nat_digits)

lemma ip_byte_lt: "ip_byte a i < 256"
  using unat_bound [of "mem32 (ip_word a) ! i"] by (simp add: ip_byte_def)

lemma ip_bytes: "[of_nat (ip_byte a 0), of_nat (ip_byte a 1), of_nat (ip_byte a 2), of_nat (ip_byte a 3)]
    = mem32 (ip_word a)"
  by (rule nth_equalityI) (auto simp: ip_byte_def nth_Cons' less_Suc_eq numeral_eq_Suc)

text \<open>
  The dotted text printed by \<open>to_string\<close> is accepted by the constructor from text, and gives
  the same address.
\<close>

theorem ip_string_round_trip: "ip_of_string (ip_to_string a) = Inr a"
proof -
  have "validate (ip_to_string a)"
    by (simp add: validate_def split_ip_to_string octet_show_nat ip_byte_lt)
  moreover have "parse_string (ip_to_string a) = IP (load32 (mem32 (ip_word a)))"
    by (simp add: parse_string_def split_ip_to_string octet_show_nat ip_byte_lt flip: ip_bytes)
  ultimately show ?thesis by (cases a) (simp add: ip_of_string_def)
qed

text \<open>
  An octet with a leading zero is accepted but read in octal, up to the first digit that is not octal, so the accepted text \<open>192.168.0.010\<close> is the
  address 192.168.0.8 and \<open>192.168.0.08\<close> is 192.168.0.0.
\<close>

theorem ip_leading_zero_is_octal:
  "ip_of_string ''192.168.0.010'' = Inr (IP 0xC0A80008) \<and>
   ip_of_string ''192.168.0.08'' = Inr (IP 0xC0A80000)"
  by code_simp

end
