(* ===== verification/Colossus_Message.thy ===== *)
theory Colossus_Message
  imports IP_Address Net_Conversion "HOL-Library.Monad_Syntax"
begin

text \<open>
  \<open>cpp_17/network/colossus_network_message.h\<close> and \<open>.cpp\<close>: a Colossus message is one byte vector
  with a 22-byte header (signature 16, version 1, type 1, payload size 4 in network order)
  overlaid on its front.  An access beyond the vector is undefined behaviour (\<open>None\<close>).
\<close>

section \<open>Message types\<close>

datatype message_type =
    invalid | keep_alive | configuration | configuration_request | start_fft_data | stop_fft_data
  | start_health_msgs | stop_health_msgs | recalibrate_rf_health | start_tracks | stop_tracks
  | transmit_on | transmit_off | fft_data | high_precision_fft_data | health | contour_update
  | sector_blanking_update | system_restart | logging_levels | logging_levels_request
  | set_auto_tune | start_nav_data | stop_nav_data | set_nav_threshold | navigation_data
  | set_nav_range_offset_and_gain | calibrate_accelerometer | start_accelerometer
  | stop_accelerometer | accelerometer_data | start_non_contour_fft_data
  | set_nav_buffer_mode_and_length | set_nav_bin_operation | navigation_alarm_data
  | set_nav_area_rules | nav_radar_reset | nav_radar_halt | navigation_config_request
  | navigation_configuration | set_navigation_configuration

fun type_code :: "message_type \<Rightarrow> byte" where
  "type_code invalid = 0"
| "type_code keep_alive = 1"
| "type_code configuration = 10"
| "type_code configuration_request = 20"
| "type_code start_fft_data = 21"
| "type_code stop_fft_data = 22"
| "type_code start_health_msgs = 23"
| "type_code stop_health_msgs = 24"
| "type_code recalibrate_rf_health = 25"
| "type_code start_tracks = 26"
| "type_code stop_tracks = 27"
| "type_code transmit_on = 28"
| "type_code transmit_off = 29"
| "type_code fft_data = 30"
| "type_code high_precision_fft_data = 31"
| "type_code health = 40"
| "type_code contour_update = 50"
| "type_code sector_blanking_update = 51"
| "type_code system_restart = 76"
| "type_code logging_levels = 90"
| "type_code logging_levels_request = 100"
| "type_code set_auto_tune = 110"
| "type_code start_nav_data = 120"
| "type_code stop_nav_data = 121"
| "type_code set_nav_threshold = 122"
| "type_code navigation_data = 123"
| "type_code set_nav_range_offset_and_gain = 124"
| "type_code calibrate_accelerometer = 125"
| "type_code start_accelerometer = 126"
| "type_code stop_accelerometer = 127"
| "type_code accelerometer_data = 128"
| "type_code start_non_contour_fft_data = 140"
| "type_code set_nav_buffer_mode_and_length = 141"
| "type_code set_nav_bin_operation = 142"
| "type_code navigation_alarm_data = 143"
| "type_code set_nav_area_rules = 144"
| "type_code nav_radar_reset = 145"
| "type_code nav_radar_halt = 146"
| "type_code navigation_config_request = 203"
| "type_code navigation_configuration = 204"
| "type_code set_navigation_configuration = 205"

definition all_types :: "message_type list" where
  "all_types = [invalid, keep_alive, configuration, configuration_request, start_fft_data,
     stop_fft_data, start_health_msgs, stop_health_msgs, recalibrate_rf_health, start_tracks,
     stop_tracks, transmit_on, transmit_off, fft_data, high_precision_fft_data, health,
     contour_update, sector_blanking_update, system_restart, logging_levels,
     logging_levels_request, set_auto_tune, start_nav_data, stop_nav_data, set_nav_threshold,
     navigation_data, set_nav_range_offset_and_gain, calibrate_accelerometer,
     start_accelerometer, stop_accelerometer, accelerometer_data, start_non_contour_fft_data,
     set_nav_buffer_mode_and_length, set_nav_bin_operation, navigation_alarm_data,
     set_nav_area_rules, nav_radar_reset, nav_radar_halt, navigation_config_request,
     navigation_configuration, set_navigation_configuration]"

text \<open>The enumerator a byte of the header stands for, when it stands for one.\<close>

definition type_of_code :: "byte \<Rightarrow> message_type option" where
  "type_of_code b = List.find (\<lambda>t. type_code t = b) all_types"

lemma type_of_code_code [simp]: "type_of_code (type_code t) = Some t"
  by (cases t) (simp_all add: type_of_code_def all_types_def)

lemma type_code_inj [simp]: "type_code s = type_code t \<longleftrightarrow> s = t"
  by (metis type_of_code_code option.inject)

text \<open>The enumerators are ordered by their codes (as keys of an ordered map).\<close>

instantiation message_type :: linorder
begin

definition less_eq_message_type :: "message_type \<Rightarrow> message_type \<Rightarrow> bool" where
  "less_eq_message_type s t \<longleftrightarrow> type_code s \<le> type_code t"

definition less_message_type :: "message_type \<Rightarrow> message_type \<Rightarrow> bool" where
  "less_message_type s t \<longleftrightarrow> type_code s < type_code t"

instance
  by standard (auto simp: less_eq_message_type_def less_message_type_def order.strict_iff_order)

end

section \<open>The signature\<close>

definition signature :: "byte list" where
  "signature = [0x00, 0x01, 0x03, 0x03, 0x07, 0x07, 0x0F, 0x0F,
                0x1F, 0x1F, 0x3F, 0x3F, 0x7F, 0x7F, 0xFE, 0xFE]"

text \<open>
  \<open>std::equal(first1, last1, first2)\<close> stops at the first mismatch; \<open>None\<close> when it would read the
  second range past its end.
\<close>

fun std_equal :: "'a list \<Rightarrow> 'a list \<Rightarrow> bool option" where
  "std_equal [] ys = Some True"
| "std_equal (x # xs) [] = None"
| "std_equal (x # xs) (y # ys) = (if x = y then std_equal xs ys else Some False)"

definition signature_eq :: "byte list \<Rightarrow> bool option" where
  "signature_eq rhs = std_equal rhs signature"

definition signature_neq :: "byte list \<Rightarrow> bool option" where
  "signature_neq rhs = map_option Not (signature_eq rhs)"

section \<open>The message\<close>

record message =
  address :: ip_address
  identity :: u32
  has_protobuf :: bool
  data :: "byte list"

definition largest_payload :: int where
  "largest_payload = 1000000"

definition largest_valid_message :: int where
  "largest_valid_message = 255"

definition version :: byte where
  "version = 1"

definition header_size :: nat where
  "header_size = 22"

definition blank_message :: message where
  "blank_message = \<lparr>address = IP 0, identity = 0, has_protobuf = False, data = []\<rparr>"

definition add_signature :: "message \<Rightarrow> message option" where
  "add_signature m = do { d \<leftarrow> poke_at 0 signature (data m); Some (m\<lparr>data := d\<rparr>) }"

definition add_version :: "byte \<Rightarrow> message \<Rightarrow> message option" where
  "add_version v m = do { d \<leftarrow> set_opt 16 v (data m); Some (m\<lparr>data := d\<rparr>) }"

text \<open>\<open>resize\<close> pads with zeros, or cuts.\<close>

definition resize :: "nat \<Rightarrow> byte list \<Rightarrow> byte list" where
  "resize n d = take n d @ replicate (n - length d) 0"

definition initialize :: "message \<Rightarrow> message option" where
  "initialize m = do {
     m1 \<leftarrow> add_signature (m\<lparr>data := resize header_size (data m)\<rparr>);
     add_version version m1 }"

definition message_default :: "message option" where
  "message_default = initialize blank_message"

definition message_from :: "ip_address \<Rightarrow> u32 \<Rightarrow> message option" where
  "message_from ip_addr i = initialize (blank_message\<lparr>address := ip_addr, identity := i\<rparr>)"

definition replace :: "byte list \<Rightarrow> message \<Rightarrow> message" where
  "replace src m = m\<lparr>data := src\<rparr>"

definition message_of :: "byte list \<Rightarrow> message" where
  "message_of buf = replace buf blank_message"

definition message_of_from :: "ip_address \<Rightarrow> u32 \<Rightarrow> byte list \<Rightarrow> message" where
  "message_of_from ip_addr i buf = replace buf (blank_message\<lparr>address := ip_addr, identity := i\<rparr>)"

definition set_id :: "u32 \<Rightarrow> message \<Rightarrow> message" where
  "set_id i m = m\<lparr>identity := i\<rparr>"

definition set_ip_address :: "ip_address \<Rightarrow> message \<Rightarrow> message" where
  "set_ip_address a m = m\<lparr>address := a\<rparr>"

definition message_code :: "message \<Rightarrow> byte option" where
  "message_code m = nth_opt (data m) 17"

definition set_type :: "message_type \<Rightarrow> message \<Rightarrow> message option" where
  "set_type t m = do { d \<leftarrow> set_opt 17 (type_code t) (data m); Some (m\<lparr>data := d\<rparr>) }"

definition message_size :: "message \<Rightarrow> nat" where
  "message_size m = length (data m)"

definition payload_size :: "message \<Rightarrow> int option" where
  "payload_size m =
     (if data m = [] then Some 0
      else do { bs \<leftarrow> peek_at 18 4 (data m); Some (uint (ntohl (load32 bs))) })"

definition update_payload_size :: "message \<Rightarrow> message option" where
  "update_payload_size m = do {
     d \<leftarrow> poke_at 18 (mem32 (htonl (of_int (int (length (data m)) - int header_size)))) (data m);
     Some (m\<lparr>data := d\<rparr>) }"

definition is_signature_valid :: "message \<Rightarrow> bool option" where
  "is_signature_valid m = std_equal signature (data m)"

definition is_version_valid :: "message \<Rightarrow> bool option" where
  "is_version_valid m = do { v \<leftarrow> nth_opt (data m) 16; Some (v = version) }"

definition is_valid :: "message \<Rightarrow> bool option" where
  "is_valid m =
     (if data m = [] then Some False
      else do {
        sig \<leftarrow> is_signature_valid m;
        if \<not> sig then Some False
        else do {
          ver \<leftarrow> is_version_valid m;
          if \<not> ver then Some False
          else do {
            code \<leftarrow> message_code m;
            if \<not> uint code \<le> largest_valid_message then Some False
            else do { n \<leftarrow> payload_size m; Some (n < largest_payload) } } } })"

definition relinquish :: "message \<Rightarrow> (byte list \<times> message) option" where
  "relinquish m = do { m1 \<leftarrow> add_signature m; Some (data m1, m1\<lparr>data := []\<rparr>) }"

definition append_buffer :: "byte list \<Rightarrow> message \<Rightarrow> message option" where
  "append_buffer protocol_buffer m = do {
     m1 \<leftarrow> update_payload_size (m\<lparr>data := data m @ protocol_buffer\<rparr>);
     Some (m1\<lparr>has_protobuf := True\<rparr>) }"

text \<open>\<open>copy_backward(start, finish, end(data))\<close> for the payload.\<close>

definition shift_payload :: "message \<Rightarrow> message option" where
  "shift_payload m = do {
     n \<leftarrow> payload_size m;
     bs \<leftarrow> peek_at header_size (nat n) (data m);
     d \<leftarrow> poke_at (length (data m) - nat n) bs (data m);
     Some (m\<lparr>data := d\<rparr>) }"

definition append_header :: "byte list \<Rightarrow> message \<Rightarrow> message option" where
  "append_header hdr m = do {
     let m1 = m\<lparr>data := resize (message_size m + length hdr) (data m)\<rparr>;
     m2 \<leftarrow> (if has_protobuf m1 then shift_payload m1 else Some m1);
     d \<leftarrow> poke_at header_size hdr (data m2);
     update_payload_size (m2\<lparr>data := d\<rparr>) }"

section \<open>Well-formed messages\<close>

text \<open>The bytes of a message with type byte \<open>c\<close> and the given payload, and a message holding them.\<close>

definition be32 :: "int \<Rightarrow> byte list" where
  "be32 n = mem32 (htonl (of_int n))"

definition frame :: "byte \<Rightarrow> byte list \<Rightarrow> byte list" where
  "frame c pl = signature @ [version, c] @ be32 (int (length pl)) @ pl"

definition framed :: "byte \<Rightarrow> byte list \<Rightarrow> message \<Rightarrow> bool" where
  "framed c pl m \<longleftrightarrow> data m = frame c pl"

lemma length_signature [simp]: "length signature = 16"
  by (simp add: signature_def)

lemma length_be32 [simp]: "length (be32 n) = 4"
  by (simp add: be32_def)

lemma length_frame [simp]: "length (frame c pl) = 22 + length pl"
  by (simp add: frame_def)

lemma frame_not_Nil [simp]: "frame c pl \<noteq> []"
  by (simp add: frame_def)

lemma be32_value: "uint (ntohl (load32 (be32 n))) = n mod 2 ^ 32"
  by (simp add: be32_def uint_word_of_int)

lemma be32_bytes:
  "be32 n = [of_int (n div 16777216), of_int (n div 65536), of_int (n div 256), of_int n]"
proof -
  have "be32 n = rev (le_bytes 4 n)"
    unfolding be32_def mem_htonl using le_bytes_mod [of 4 n] by (simp add: mem32_def uint_word_of_int)
  then show ?thesis by (simp add: numeral_eq_Suc flip: zdiv_zmult2_eq)
qed

lemma std_equal_append [simp]: "std_equal xs (xs @ ys) = Some True"
  by (induction xs) simp_all

lemma std_equal_refl [simp]: "std_equal xs xs = Some True"
  using std_equal_append [of xs "[]"] by simp

lemma std_equal_prefix: "std_equal xs ys = Some True \<longleftrightarrow> (\<exists>zs. ys = xs @ zs)"
  by (induction xs ys rule: std_equal.induct) auto

text \<open>The reads and writes of the header fields, on a framed vector.\<close>

lemma frame_split:
  "frame c pl = (signature @ [version, c]) @ be32 (int (length pl)) @ pl"
  "frame c pl = (signature @ [version]) @ c # (be32 (int (length pl)) @ pl)"
  "frame c pl = signature @ version # (c # be32 (int (length pl)) @ pl)"
  by (simp_all add: frame_def)

lemma frame_code [buffer]: "nth_opt (frame c pl) 17 = Some c"
  unfolding frame_split(2) by (simp add: nth_opt_def nth_append)

lemma frame_version [buffer]: "nth_opt (frame c pl) 16 = Some version"
  unfolding frame_split(3) by (simp add: nth_opt_def nth_append)

lemma frame_set_code [buffer]: "set_opt 17 e (frame c pl) = Some (frame e pl)"
  unfolding frame_split(2) by (simp add: set_opt_def list_update_append)

lemma frame_signature [buffer]: "poke_at 0 signature (frame c pl) = Some (frame c pl)"
  unfolding frame_split(3) using poke_at_mid [of signature signature "[]"] by simp

lemma frame_peek_size [buffer]: "peek_at 18 4 (frame c pl) = Some (be32 (int (length pl)))"
  unfolding frame_split(1)
  using peek_at_mid [of "signature @ [version, c]" "be32 (int (length pl))" pl] by simp

lemma frame_peek_payload [buffer]: "peek_at 22 (length pl) (frame c (pl @ zs)) = Some pl"
  using peek_at_mid [of "signature @ [version, c] @ be32 (int (length (pl @ zs)))" pl zs]
  by (simp add: frame_def)

text \<open>A vector that has the header of one message and the payload of another.\<close>

lemma poke_size:
  assumes "data m = signature @ [version, c] @ be32 n @ pl"
  shows "update_payload_size m = Some (m\<lparr>data := frame c pl\<rparr>)"
proof -
  have "poke_at 18 (be32 (int (length pl))) (data m) = Some (frame c pl)"
    using poke_at_mid [of "be32 n" "be32 (int (length pl))" "signature @ [version, c]" pl]
    by (simp add: frame_def assms)
  then show ?thesis by (simp add: update_payload_size_def assms be32_def header_size_def)
qed

lemma initialize_framed:
  assumes "data m = []"
  shows "initialize m = Some (m\<lparr>data := frame 0 []\<rparr>)"
proof -
  have zeros: "resize 22 [] = replicate 16 0 @ replicate 6 0"
    by (simp add: resize_def replicate_add [symmetric])
  have sig: "poke_at 0 signature (resize 22 []) = Some (signature @ replicate 6 0)"
    unfolding zeros using poke_at_mid [of "replicate 16 0" signature "[]" "replicate 6 0"] by simp
  have "be32 0 = replicate 4 0"
    by (simp add: be32_def htonl_def mem32_def load32_def numeral_eq_Suc)
  then have "(signature @ replicate 6 0)[16 := version] = frame 0 []"
    by (simp add: frame_def list_update_append numeral_eq_Suc)
  then show ?thesis
    by (simp add: initialize_def add_signature_def add_version_def header_size_def assms sig set_opt_def)
qed

lemma payload_size_framed:
  "framed c pl m \<Longrightarrow> payload_size m = Some (int (length pl) mod 2 ^ 32)"
  by (simp add: framed_def payload_size_def frame_peek_size be32_value)

lemma append_buffer_framed:
  assumes "framed c pl m"
  shows "append_buffer pb m = Some (m\<lparr>data := frame c (pl @ pb), has_protobuf := True\<rparr>)"
  using poke_size [of "m\<lparr>data := data m @ pb\<rparr>" c "int (length pl)" "pl @ pb"] assms
  by (simp add: append_buffer_def framed_def frame_def)

lemma poke_at_end: "length bs \<le> length xs \<Longrightarrow>
    poke_at (length xs - length bs) bs xs = Some (take (length xs - length bs) xs @ bs)"
  by (simp add: poke_at_def)

text \<open>Appending a header before any protocol buffer overwrites what follows the frame header.\<close>

lemma append_header_plain:
  assumes "framed c pl m" "\<not> has_protobuf m"
  shows "append_header hdr m =
    Some (m\<lparr>data := frame c (hdr @ drop (length hdr) (pl @ replicate (length hdr) 0))\<rparr>)"
proof -
  let ?h = "signature @ [version, c] @ be32 (int (length pl))"
  let ?zs = "pl @ replicate (length hdr) 0"
  have "resize (message_size m + length hdr) (data m) = ?h @ take (length hdr) ?zs @ drop (length hdr) ?zs"
    using assms(1) by (simp add: resize_def message_size_def framed_def frame_def del: take_append drop_append)
  moreover have "poke_at 22 hdr (?h @ take (length hdr) ?zs @ drop (length hdr) ?zs) =
      Some (?h @ hdr @ drop (length hdr) ?zs)"
    using poke_at_mid [of "take (length hdr) ?zs" hdr ?h "drop (length hdr) ?zs"] by simp
  ultimately show ?thesis
    using assms(2) poke_size [of "m\<lparr>data := ?h @ hdr @ drop (length hdr) ?zs\<rparr>" c "int (length pl)"]
    by (simp add: append_header_def header_size_def Let_def del: take_append drop_append)
qed

text \<open>Appending it after a protocol buffer moves the payload back to make room.\<close>

lemma append_header_behind:
  assumes "framed c pl m" "has_protobuf m" "length pl < 2 ^ 32"
  shows "append_header hdr m = Some (m\<lparr>data := frame c (hdr @ pl)\<rparr>)"
proof -
  let ?h = "signature @ [version, c] @ be32 (int (length pl))"
  define d where "d = ?h @ pl @ replicate (length hdr) 0"
  define x where "x = take (length hdr) (pl @ replicate (length hdr) 0)"
  have x: "length x = length hdr" by (simp add: x_def)
  have d: "resize (message_size m + length hdr) (data m) = d"
    using assms(1) by (simp add: resize_def message_size_def framed_def frame_def d_def)
  have size: "int (length pl) < 2 ^ 32" using assms(3) by simp
  have "peek_at 18 4 d = Some (be32 (int (length pl)))"
    using peek_at_mid [of "signature @ [version, c]"] by (simp add: peek_at_def d_def)
  moreover have "d \<noteq> []" by (simp add: d_def)
  ultimately have n: "payload_size (m\<lparr>data := d\<rparr>) = Some (int (length pl))"
    using size by (simp add: payload_size_def be32_value)
  have p: "peek_at 22 (length pl) d = Some pl"
    using peek_at_mid [of ?h pl] by (simp add: d_def)
  have q: "poke_at (length d - length pl) pl d = Some (?h @ x @ pl)"
  proof (subst poke_at_end)
    have "d = (?h @ x) @ drop (length hdr) (pl @ replicate (length hdr) 0)"
      by (simp add: x_def d_def del: take_append drop_append)
    moreover have "length d - length pl = length (?h @ x)" using x by (simp add: d_def)
    ultimately have "take (length d - length pl) d = ?h @ x" by (metis append_eq_conv_conj)
    then show "Some (take (length d - length pl) d @ pl) = Some (?h @ x @ pl)" by simp
  qed (simp add: d_def)
  have "shift_payload (m\<lparr>data := d\<rparr>) = Some (m\<lparr>data := ?h @ x @ pl\<rparr>)"
    by (simp add: shift_payload_def n header_size_def p q)
  moreover have "poke_at 22 hdr (?h @ x @ pl) = Some (?h @ hdr @ pl)"
    using poke_at_mid [OF x, of ?h pl] by simp
  ultimately show ?thesis
    using assms(2) poke_size [of "m\<lparr>data := ?h @ hdr @ pl\<rparr>" c "int (length pl)"]
    by (simp add: append_header_def header_size_def Let_def d)
qed

lemma set_type_framed:
  "framed c pl m \<Longrightarrow> set_type t m = Some (m\<lparr>data := frame (type_code t) pl\<rparr>)"
  by (simp add: set_type_def framed_def frame_set_code)

lemma relinquish_framed: "framed c pl m \<Longrightarrow> relinquish m = Some (frame c pl, m\<lparr>data := []\<rparr>)"
  by (simp add: relinquish_def add_signature_def framed_def frame_signature)

lemma framedI [simp]: "framed c pl (m\<lparr>data := frame c pl\<rparr>)"
  "framed c pl (m\<lparr>data := frame c pl, has_protobuf := b\<rparr>)"
  by (simp_all add: framed_def)

lemma is_valid_framed:
  "framed c pl m \<Longrightarrow> is_valid m = Some (int (length pl) mod 2 ^ 32 < largest_payload)"
proof -
  assume m: "framed c pl m"
  have "std_equal signature (frame c pl) = Some True"
    unfolding frame_split(3) by (rule std_equal_append)
  moreover have "uint c \<le> 255" using uint_bounds(2) [of c] by simp
  ultimately show ?thesis
    using m payload_size_framed [OF m]
    by (simp add: is_valid_def is_signature_valid_def is_version_valid_def message_code_def
        framed_def frame_version frame_code largest_valid_message_def)
qed

section \<open>Building and reading back a message\<close>

definition build_header_first :: "message_type \<Rightarrow> byte list \<Rightarrow> byte list \<Rightarrow> message option" where
  "build_header_first t hdr pb = do {
     m0 \<leftarrow> message_default; m1 \<leftarrow> set_type t m0; m2 \<leftarrow> append_header hdr m1; append_buffer pb m2 }"

definition build_header_last :: "message_type \<Rightarrow> byte list \<Rightarrow> byte list \<Rightarrow> message option" where
  "build_header_last t hdr pb = do {
     m0 \<leftarrow> message_default; m1 \<leftarrow> set_type t m0; m2 \<leftarrow> append_buffer pb m1; append_header hdr m2 }"

lemma build_first:
  "build_header_first t hdr pb =
     Some (blank_message\<lparr>data := frame (type_code t) (hdr @ pb), has_protobuf := True\<rparr>)"
proof -
  let ?m = "\<lambda>c pl. blank_message\<lparr>data := frame c pl\<rparr>"
  have 1: "message_default = Some (?m 0 [])"
    by (simp add: message_default_def initialize_framed blank_message_def)
  have 2: "set_type t (?m 0 []) = Some (?m (type_code t) [])"
    by (simp add: set_type_framed [where c = 0 and pl = "[]"])
  have 3: "append_header hdr (?m (type_code t) []) = Some (?m (type_code t) hdr)"
    by (subst append_header_plain [where c = "type_code t" and pl = "[]"])
      (simp_all add: blank_message_def framed_def)
  have 4: "append_buffer pb (?m (type_code t) hdr) = Some ((?m (type_code t) (hdr @ pb))\<lparr>has_protobuf := True\<rparr>)"
    by (subst append_buffer_framed [where c = "type_code t" and pl = hdr]) simp_all
  show ?thesis
    unfolding build_header_first_def 1 bind.bind_lunit 2 3 4 by simp
qed

lemma message_build_order_facts:
  assumes "length pb < 2 ^ 32"
  shows "build_header_first t hdr pb = build_header_last t hdr pb"
    and "map_option data (build_header_first t hdr pb) =
      Some (signature @ [version, type_code t] @ be32 (int (length (hdr @ pb))) @ hdr @ pb)"
proof -
  let ?m = "\<lambda>c pl. blank_message\<lparr>data := frame c pl\<rparr>"
  have 1: "message_default = Some (?m 0 [])"
    by (simp add: message_default_def initialize_framed blank_message_def)
  have 2: "set_type t (?m 0 []) = Some (?m (type_code t) [])"
    by (simp add: set_type_framed [where c = 0 and pl = "[]"])
  have 3: "append_buffer pb (?m (type_code t) []) = Some ((?m (type_code t) pb)\<lparr>has_protobuf := True\<rparr>)"
    by (subst append_buffer_framed [where c = "type_code t" and pl = "[]"]) simp_all
  have 4: "append_header hdr ((?m (type_code t) pb)\<lparr>has_protobuf := True\<rparr>) =
      Some ((?m (type_code t) (hdr @ pb))\<lparr>has_protobuf := True\<rparr>)"
    by (subst append_header_behind [where c = "type_code t" and pl = pb]) (use assms in \<open>simp_all add: framed_def\<close>)
  show "build_header_first t hdr pb = build_header_last t hdr pb"
    unfolding build_first build_header_last_def 1 bind.bind_lunit 2 3 4 by simp
qed (simp add: build_first frame_def)

text \<open>
  C2: a message built from a type, a header and a protocol buffer is the signature, version 1,
  the type code, the big-endian payload size, the header and the buffer, in this order,
  whichever of the header and the buffer is appended first.
\<close>

theorem message_build_order:
  assumes "length pb < 2 ^ 32"
  shows "build_header_first t hdr pb = build_header_last t hdr pb \<and>
     map_option data (build_header_first t hdr pb) =
      Some (signature @ [version, type_code t] @ be32 (int (length (hdr @ pb))) @ hdr @ pb)"
  using message_build_order_facts [OF assms] by blast

text \<open>A navigation threshold message, with its two header bytes before and after a buffer.\<close>

theorem message_build_order_witness:
  "map_option data (build_header_first set_nav_threshold [0, 10] [7]) =
     Some (signature @ [1, 122, 0, 0, 0, 3, 0, 10, 7])"
proof -
  have "length [7 :: byte] < 2 ^ 32" by simp
  from message_build_order [OF this, of set_nav_threshold "[0, 10]", THEN conjunct2]
  show ?thesis by (simp add: version_def be32_bytes del: map_option_eq_Some)
qed

text \<open>
  A vector of at least a frame header is a valid message exactly when it starts with the
  signature, has version 1 and announces a payload below 1,000,000; the type byte is never
  rejected, and the announced size is not compared with the bytes that are there.
\<close>

theorem is_valid_iff:
  assumes "22 \<le> length (data m)"
  shows "is_valid m = Some (take 16 (data m) = signature \<and> data m ! 16 = 1 \<and>
    uint (ntohl (load32 (take 4 (drop 18 (data m))))) < 1000000)"
proof -
  have code: "uint (data m ! 17) \<le> 255" using uint_bounds(2) [of "data m ! 17"] by simp
  have "std_equal signature (data m) = Some (take 16 (data m) = signature)"
  proof -
    have "std_equal xs ys \<noteq> None" if "length xs \<le> length ys" for xs ys :: "byte list"
      using that by (induction xs ys rule: std_equal.induct) auto
    then obtain r where r: "std_equal signature (data m) = Some r" using assms by fastforce
    have "r \<longleftrightarrow> (\<exists>zs. data m = signature @ zs)" using std_equal_prefix [of signature "data m"] r by simp
    also have "\<dots> \<longleftrightarrow> take 16 (data m) = signature" by (metis append_eq_conv_conj length_signature)
    finally show ?thesis using r by simp
  qed
  moreover have "data m \<noteq> []" using assms by auto
  ultimately show ?thesis
    using assms code
    by (simp add: is_valid_def is_signature_valid_def is_version_valid_def message_code_def
        payload_size_def nth_opt_def peek_at_def version_def largest_valid_message_def largest_payload_def)
qed

theorem is_valid_iff_witness:
  "is_valid (message_of (signature @ [1, 200] @ be32 9)) = Some True"
  using is_valid_iff [of "message_of (signature @ [1, 200] @ be32 9)"]
  by (simp add: message_of_def replace_def nth_append be32_value)

text \<open>
  C5: a built message, given up for sending and taken in again by a receiver, is valid and has
  the type, the payload size and the payload it was built with; the sender keeps nothing.
\<close>

theorem message_wire_round_trip:
  assumes "length hdr + length pb < 1000000"
  shows "\<exists>m buf m'. build_header_first t hdr pb = Some m \<and> relinquish m = Some (buf, m') \<and>
    is_valid (message_of buf) = Some True \<and> message_code (message_of buf) = Some (type_code t) \<and>
    payload_size (message_of buf) = Some (int (length (hdr @ pb))) \<and>
    drop 22 buf = hdr @ pb \<and> data m' = []"
proof -
  have f: "framed (type_code t) (hdr @ pb) (message_of (frame (type_code t) (hdr @ pb)))"
    by (simp add: message_of_def replace_def framed_def)
  have n: "int (length (hdr @ pb)) mod 2 ^ 32 = int (length (hdr @ pb))"
    using assms by (simp add: zmod_trivial_iff)
  have "drop 22 (frame (type_code t) (hdr @ pb)) = hdr @ pb" by (simp add: frame_def)
  moreover have "message_code (message_of (frame (type_code t) (hdr @ pb))) = Some (type_code t)"
    by (simp add: message_code_def message_of_def replace_def frame_code)
  ultimately show ?thesis
    using assms is_valid_framed [OF f] payload_size_framed [OF f]
    by (simp add: build_first relinquish_framed [where c = "type_code t" and pl = "hdr @ pb"] n
        largest_payload_def)
qed

theorem message_wire_round_trip_witness:
  "\<exists>m buf m'. build_header_first keep_alive [] [] = Some m \<and> relinquish m = Some (buf, m') \<and>
    is_valid (message_of buf) = Some True \<and> message_code (message_of buf) = Some 1 \<and>
    payload_size (message_of buf) = Some 0 \<and> drop 22 buf = [] \<and> data m' = []"
  using message_wire_round_trip [of "[]" "[]" keep_alive] by simp

lemma signature_eq_prefix_facts:
  "signature_eq bs = Some True \<longleftrightarrow> (\<exists>zs. signature = bs @ zs)"
  "signature_eq [] = Some True"
  by (simp_all add: signature_eq_def std_equal_prefix)

text \<open>
  Comparing a vector with the signature compares only as many bytes as the vector has: any
  prefix of the signature is equal to it, the empty vector included.
\<close>

theorem signature_eq_prefix:
  "(signature_eq bs = Some True \<longleftrightarrow> (\<exists>zs. signature = bs @ zs)) \<and>
     signature_eq [] = Some True"
  using signature_eq_prefix_facts by blast

end
