(* ===== verification/Colossus_Views.thy ===== *)
theory Colossus_Views
  imports Colossus_Message IEEE_Eval
begin

text \<open>
  \<open>cpp_17/network/colossus_message_base.h\<close> and \<open>colossus_messages.h\<close>: the message classes are
  packed overlays, 22 bytes of frame header followed by their own attributes in network order.
  A header object is a record of the stored attributes; a view reads them from a message.  The
  setters and getters convert; overloaded names get the suffix of their class.
\<close>

section \<open>The overlay bases\<close>

text \<open>\<open>Header_only\<close> and \<open>Header_and_payload\<close>, for a derived class of \<open>hs\<close> header bytes.\<close>

definition view_payload_size :: "message \<Rightarrow> int option" where
  "view_payload_size m = do { bs \<leftarrow> peek_at 18 4 (data m); Some (uint (ntohl (load32 bs))) }"

definition view_header :: "nat \<Rightarrow> message \<Rightarrow> byte list option" where
  "view_header hs m = peek_at 22 hs (data m)"

definition protobuf_size :: "nat \<Rightarrow> message \<Rightarrow> int option" where
  "protobuf_size hs m = map_option (\<lambda>n. n - int hs) (view_payload_size m)"

definition protobuf_vector :: "nat \<Rightarrow> message \<Rightarrow> byte list option" where
  "protobuf_vector hs m = do {
     n \<leftarrow> protobuf_size hs m;
     if n < 0 then None else peek_at (22 + hs) (nat n) (data m) }"

section \<open>Configuration\<close>

record configuration_hdr =
  azi_samples :: u16
  bin_sz :: u16
  range_bins :: u16
  encoder_sz :: u16
  rotation_spd :: u16
  pckt_rate :: u16
  gain :: u32
  offset :: u32

definition configuration_size :: nat where
  "configuration_size = 6 * 2 + 2 * 4"

definition configuration_image :: "configuration_hdr \<Rightarrow> byte list" where
  "configuration_image h =
     mem16 (azi_samples h) @ mem16 (bin_sz h) @ mem16 (range_bins h) @ mem16 (encoder_sz h) @
     mem16 (rotation_spd h) @ mem16 (pckt_rate h) @ mem32 (gain h) @ mem32 (offset h)"

definition configuration_overlay :: "byte list \<Rightarrow> configuration_hdr" where
  "configuration_overlay bs =
     \<lparr>azi_samples = load16 (take 2 bs), bin_sz = load16 (take 2 (drop 2 bs)),
      range_bins = load16 (take 2 (drop 4 bs)), encoder_sz = load16 (take 2 (drop 6 bs)),
      rotation_spd = load16 (take 2 (drop 8 bs)), pckt_rate = load16 (take 2 (drop 10 bs)),
      gain = load32 (take 4 (drop 12 bs)), offset = load32 (take 4 (drop 16 bs))\<rparr>"

definition azimuth_samples :: "configuration_hdr \<Rightarrow> u16" where
  "azimuth_samples h = to_uint16_host (azi_samples h)"

definition set_azimuth_samples :: "u16 \<Rightarrow> configuration_hdr \<Rightarrow> configuration_hdr" where
  "set_azimuth_samples v h = h\<lparr>azi_samples := to_uint16_network v\<rparr>"

definition bin_size :: "configuration_hdr \<Rightarrow> u16" where
  "bin_size h = to_uint16_host (bin_sz h)"

definition set_bin_size :: "u16 \<Rightarrow> configuration_hdr \<Rightarrow> configuration_hdr" where
  "set_bin_size v h = h\<lparr>bin_sz := to_uint16_network v\<rparr>"

definition range_in_bins :: "configuration_hdr \<Rightarrow> u16" where
  "range_in_bins h = to_uint16_host (range_bins h)"

definition set_range_in_bins :: "u16 \<Rightarrow> configuration_hdr \<Rightarrow> configuration_hdr" where
  "set_range_in_bins v h = h\<lparr>range_bins := to_uint16_network v\<rparr>"

definition encoder_size :: "configuration_hdr \<Rightarrow> u16" where
  "encoder_size h = to_uint16_host (encoder_sz h)"

definition set_encoder_size :: "u16 \<Rightarrow> configuration_hdr \<Rightarrow> configuration_hdr" where
  "set_encoder_size v h = h\<lparr>encoder_sz := to_uint16_network v\<rparr>"

definition rotation_speed :: "configuration_hdr \<Rightarrow> u16" where
  "rotation_speed h = to_uint16_host (rotation_spd h)"

definition set_rotation_speed :: "u16 \<Rightarrow> configuration_hdr \<Rightarrow> configuration_hdr" where
  "set_rotation_speed v h = h\<lparr>rotation_spd := to_uint16_network v\<rparr>"

definition packet_rate :: "configuration_hdr \<Rightarrow> u16" where
  "packet_rate h = to_uint16_host (pckt_rate h)"

definition set_packet_rate :: "u16 \<Rightarrow> configuration_hdr \<Rightarrow> configuration_hdr" where
  "set_packet_rate v h = h\<lparr>pckt_rate := to_uint16_network v\<rparr>"

definition range_gain :: "configuration_hdr \<Rightarrow> float32" where
  "range_gain h = from_uint32_network (gain h)"

definition set_range_gain :: "float32 \<Rightarrow> configuration_hdr \<Rightarrow> configuration_hdr" where
  "set_range_gain v h = h\<lparr>gain := to_uint32_network_f v\<rparr>"

definition range_offset :: "configuration_hdr \<Rightarrow> float32" where
  "range_offset h = from_uint32_network (offset h)"

definition set_range_offset :: "float32 \<Rightarrow> configuration_hdr \<Rightarrow> configuration_hdr" where
  "set_range_offset v h = h\<lparr>offset := to_uint32_network_f v\<rparr>"

section \<open>FFT data\<close>

record fft_hdr =
  data_offset :: u16
  sweep :: u16
  azi :: u16
  seconds :: u32
  split_seconds :: u32

definition fft_size :: nat where
  "fft_size = 3 * 2 + 2 * 4"

definition fft_image :: "fft_hdr \<Rightarrow> byte list" where
  "fft_image h = mem16 (data_offset h) @ mem16 (sweep h) @ mem16 (azi h) @
     mem32 (seconds h) @ mem32 (split_seconds h)"

definition fft_overlay :: "byte list \<Rightarrow> fft_hdr" where
  "fft_overlay bs =
     \<lparr>data_offset = load16 (take 2 bs), sweep = load16 (take 2 (drop 2 bs)),
      azi = load16 (take 2 (drop 4 bs)), seconds = load32 (take 4 (drop 6 bs)),
      split_seconds = load32 (take 4 (drop 10 bs))\<rparr>"

definition fft_data_offset :: "fft_hdr \<Rightarrow> u16" where
  "fft_data_offset h = to_uint16_host (data_offset h)"

definition set_fft_data_offset :: "u16 \<Rightarrow> fft_hdr \<Rightarrow> fft_hdr" where
  "set_fft_data_offset v h = h\<lparr>data_offset := to_uint16_network v\<rparr>"

definition sweep_counter :: "fft_hdr \<Rightarrow> u16" where
  "sweep_counter h = to_uint16_host (sweep h)"

definition set_sweep_counter :: "u16 \<Rightarrow> fft_hdr \<Rightarrow> fft_hdr" where
  "set_sweep_counter v h = h\<lparr>sweep := to_uint16_network v\<rparr>"

definition fft_azimuth :: "fft_hdr \<Rightarrow> u16" where
  "fft_azimuth h = to_uint16_host (azi h)"

definition set_fft_azimuth :: "u16 \<Rightarrow> fft_hdr \<Rightarrow> fft_hdr" where
  "set_fft_azimuth v h = h\<lparr>azi := to_uint16_network v\<rparr>"

text \<open>The two getters of the time return the stored attribute.\<close>

definition fft_ntp_seconds :: "fft_hdr \<Rightarrow> u32" where
  "fft_ntp_seconds h = seconds h"

definition set_fft_ntp_seconds :: "u32 \<Rightarrow> fft_hdr \<Rightarrow> fft_hdr" where
  "set_fft_ntp_seconds v h = h\<lparr>seconds := to_uint32_network v\<rparr>"

definition fft_ntp_split_seconds :: "fft_hdr \<Rightarrow> u32" where
  "fft_ntp_split_seconds h = split_seconds h"

definition set_fft_ntp_split_seconds :: "u32 \<Rightarrow> fft_hdr \<Rightarrow> fft_hdr" where
  "set_fft_ntp_split_seconds v h = h\<lparr>split_seconds := to_uint32_network v\<rparr>"

section \<open>Navigation data\<close>

record navigation_hdr =
  net_azimuth :: u16
  nav_seconds :: u32
  nav_split_seconds :: u32

definition navigation_size :: nat where
  "navigation_size = 2 + 2 * 4"

definition navigation_image :: "navigation_hdr \<Rightarrow> byte list" where
  "navigation_image h = mem16 (net_azimuth h) @ mem32 (nav_seconds h) @ mem32 (nav_split_seconds h)"

definition navigation_overlay :: "byte list \<Rightarrow> navigation_hdr" where
  "navigation_overlay bs =
     \<lparr>net_azimuth = load16 (take 2 bs), nav_seconds = load32 (take 4 (drop 2 bs)),
      nav_split_seconds = load32 (take 4 (drop 6 bs))\<rparr>"

definition nav_azimuth :: "navigation_hdr \<Rightarrow> u16" where
  "nav_azimuth h = to_uint16_host (net_azimuth h)"

definition set_nav_azimuth :: "u16 \<Rightarrow> navigation_hdr \<Rightarrow> navigation_hdr" where
  "set_nav_azimuth v h = h\<lparr>net_azimuth := to_uint16_network v\<rparr>"

definition nav_ntp_seconds :: "navigation_hdr \<Rightarrow> u32" where
  "nav_ntp_seconds h = to_uint32_host (nav_seconds h)"

definition set_nav_ntp_seconds :: "u32 \<Rightarrow> navigation_hdr \<Rightarrow> navigation_hdr" where
  "set_nav_ntp_seconds v h = h\<lparr>nav_seconds := to_uint32_network v\<rparr>"

definition nav_ntp_split_seconds :: "navigation_hdr \<Rightarrow> u32" where
  "nav_ntp_split_seconds h = to_uint32_host (nav_split_seconds h)"

definition set_nav_ntp_split_seconds :: "u32 \<Rightarrow> navigation_hdr \<Rightarrow> navigation_hdr" where
  "set_nav_ntp_split_seconds v h = h\<lparr>nav_split_seconds := to_uint32_network v\<rparr>"

section \<open>Navigation configuration\<close>

record nav_config_hdr =
  operating_bins :: u16
  min_bin :: u16
  threshold :: u32
  max_peaks :: u32

definition nav_config_size :: nat where
  "nav_config_size = 2 + 2 + 4 + 4"

definition nav_config_image :: "nav_config_hdr \<Rightarrow> byte list" where
  "nav_config_image h = mem16 (operating_bins h) @ mem16 (min_bin h) @ mem32 (threshold h) @ mem32 (max_peaks h)"

definition nav_config_overlay :: "byte list \<Rightarrow> nav_config_hdr" where
  "nav_config_overlay bs =
     \<lparr>operating_bins = load16 (take 2 bs), min_bin = load16 (take 2 (drop 2 bs)),
      threshold = load32 (take 4 (drop 4 bs)), max_peaks = load32 (take 4 (drop 8 bs))\<rparr>"

definition bins_to_operate_on :: "nav_config_hdr \<Rightarrow> u16" where
  "bins_to_operate_on h = to_uint16_host (operating_bins h)"

definition set_bins_to_operate_on :: "u16 \<Rightarrow> nav_config_hdr \<Rightarrow> nav_config_hdr" where
  "set_bins_to_operate_on v h = h\<lparr>operating_bins := to_uint16_network v\<rparr>"

definition min_bin_to_operate_on :: "nav_config_hdr \<Rightarrow> u16" where
  "min_bin_to_operate_on h = to_uint16_host (min_bin h)"

definition set_min_bin_to_operate_on :: "u16 \<Rightarrow> nav_config_hdr \<Rightarrow> nav_config_hdr" where
  "set_min_bin_to_operate_on v h = h\<lparr>min_bin := to_uint16_network v\<rparr>"

definition ten :: float32 where
  "ten = f32_of_int 10"

definition navigation_threshold :: "nav_config_hdr \<Rightarrow> float32" where
  "navigation_threshold h = f32_div (from_uint32_network (threshold h)) ten"

definition set_navigation_threshold :: "float32 \<Rightarrow> nav_config_hdr \<Rightarrow> nav_config_hdr" where
  "set_navigation_threshold level h = h\<lparr>threshold := to_uint32_network_f (f32_mul level ten)\<rparr>"

definition max_peaks_per_azimuth :: "nav_config_hdr \<Rightarrow> u32" where
  "max_peaks_per_azimuth h = to_uint32_host (max_peaks h)"

definition set_max_peaks_per_azimuth :: "u32 \<Rightarrow> nav_config_hdr \<Rightarrow> nav_config_hdr" where
  "set_max_peaks_per_azimuth v h = h\<lparr>max_peaks := to_uint32_network v\<rparr>"

section \<open>The interface of an overlay\<close>

text \<open>
  What the message code relies on: the image of a header has the size the class reports, and
  overlaying an image gives the header back, in both directions.
\<close>

locale overlay =
  fixes image :: "'h \<Rightarrow> byte list" and lay :: "byte list \<Rightarrow> 'h" and hs :: nat
  assumes image_size: "length (image h) = hs"
    and lay_image: "lay (image h) = h"
    and image_lay: "length bs = hs \<Longrightarrow> image (lay bs) = bs"
begin

lemma view_frame:
  "framed c (image h @ pl) m \<Longrightarrow> map_option lay (view_header hs m) = Some h"
  using frame_peek_payload [of "image h" c pl]
  by (simp add: view_header_def framed_def image_size lay_image)

lemma payload_frame:
  assumes "framed c (image h @ pl) m" "length (image h @ pl) < 2 ^ 32"
  shows "protobuf_vector hs m = Some pl"
proof -
  let ?n = "length (image h @ pl)"
  have "int ?n < 2 ^ 32" using assms(2) by simp
  then have "view_payload_size m = Some (int ?n)"
    using assms(1) by (simp add: view_payload_size_def framed_def frame_peek_size be32_value)
  moreover have "peek_at (22 + hs) (length pl) (data m) = Some pl"
    using peek_at_mid [of "signature @ [version, c] @ be32 (int ?n) @ image h" pl "[]"] assms(1)
    by (simp add: framed_def frame_def image_size)
  ultimately show ?thesis by (simp add: protobuf_vector_def protobuf_size_def image_size)
qed

lemma view_bytes: "view_header hs m = Some bs \<Longrightarrow> image (lay bs) = bs"
  by (rule image_lay) (auto simp: view_header_def dest: length_peek_at)

end

lemma take_mem [simp]:
  "take 2 (mem16 a @ xs) = mem16 a" "drop 2 (mem16 a @ xs) = xs"
  "take 4 (mem32 b @ xs) = mem32 b" "drop 4 (mem32 b @ xs) = xs"
  "take 2 (mem16 a) = mem16 a" "take 4 (mem32 b) = mem32 b"
  by simp_all

lemma drop_mem16 [simp]: "2 \<le> n \<Longrightarrow> drop n (mem16 a @ xs) = drop (n - 2) xs"
  and drop_mem32 [simp]: "4 \<le> n \<Longrightarrow> drop n (mem32 b @ xs) = drop (n - 4) xs"
  by simp_all

lemma split2: "take 2 (drop n bs) @ drop (n + 2) bs = drop n bs"
  and split4: "take 4 (drop n bs) @ drop (n + 4) bs = drop n bs"
  by (metis append_take_drop_id drop_drop add.commute)+

lemma mem_load_take:
  "n + 2 \<le> length bs \<Longrightarrow> mem16 (load16 (take 2 (drop n bs))) = take 2 (drop n bs)"
  "n + 4 \<le> length bs \<Longrightarrow> mem32 (load32 (take 4 (drop n bs))) = take 4 (drop n bs)"
  by (simp_all add: mem_load16 mem_load32)

interpretation configuration_view: overlay configuration_image configuration_overlay configuration_size
proof
  fix bs :: "byte list" assume "length bs = configuration_size"
  then show "configuration_image (configuration_overlay bs) = bs"
    using split2 [of 2 bs] split2 [of 4 bs] split2 [of 6 bs] split2 [of 8 bs]
      split2 [of 10 bs] split4 [of 12 bs] mem_load_take(1) [of 0 bs] mem_load_take [of _ bs]
    by (simp add: configuration_image_def configuration_overlay_def configuration_size_def mem_load32)
qed (simp_all add: configuration_image_def configuration_overlay_def configuration_size_def)

interpretation fft_view: overlay fft_image fft_overlay fft_size
proof
  fix bs :: "byte list" assume "length bs = fft_size"
  then show "fft_image (fft_overlay bs) = bs"
    using split2 [of 2 bs] split2 [of 4 bs] split4 [of 6 bs] mem_load_take(1) [of 0 bs]
      mem_load_take [of _ bs]
    by (simp add: fft_image_def fft_overlay_def fft_size_def mem_load32)
qed (simp_all add: fft_image_def fft_overlay_def fft_size_def)

interpretation navigation_view: overlay navigation_image navigation_overlay navigation_size
proof
  fix bs :: "byte list" assume "length bs = navigation_size"
  then show "navigation_image (navigation_overlay bs) = bs"
    using split4 [of 2 bs] mem_load_take(1) [of 0 bs] mem_load_take [of _ bs]
    by (simp add: navigation_image_def navigation_overlay_def navigation_size_def mem_load32)
qed (simp_all add: navigation_image_def navigation_overlay_def navigation_size_def)

interpretation nav_config_view: overlay nav_config_image nav_config_overlay nav_config_size
proof
  fix bs :: "byte list" assume "length bs = nav_config_size"
  then show "nav_config_image (nav_config_overlay bs) = bs"
    using split2 [of 2 bs] split4 [of 4 bs] mem_load_take(1) [of 0 bs] mem_load_take [of _ bs]
    by (simp add: nav_config_image_def nav_config_overlay_def nav_config_size_def mem_load32)
qed (simp_all add: nav_config_image_def nav_config_overlay_def nav_config_size_def)

text \<open>A view of a built message, for the four classes.\<close>

definition view_configuration :: "message \<Rightarrow> configuration_hdr option" where
  "view_configuration m = map_option configuration_overlay (view_header configuration_size m)"

definition view_fft :: "message \<Rightarrow> fft_hdr option" where
  "view_fft m = map_option fft_overlay (view_header fft_size m)"

definition view_navigation :: "message \<Rightarrow> navigation_hdr option" where
  "view_navigation m = map_option navigation_overlay (view_header navigation_size m)"

definition view_nav_config :: "message \<Rightarrow> nav_config_hdr option" where
  "view_nav_config m = map_option nav_config_overlay (view_header nav_config_size m)"

lemma built_framed:
  "build_header_first t hdr pb = Some m \<Longrightarrow> framed (type_code t) (hdr @ pb) m"
  by (auto simp: build_first framed_def)

lemma view_of_built_facts:
  assumes "length pb < 1000000"
  shows "Option.bind (build_header_first t (configuration_image c) pb) view_configuration = Some c"
    and "Option.bind (build_header_first t (configuration_image c) pb) (protobuf_vector configuration_size) = Some pb"
    and "Option.bind (build_header_first t (fft_image f) pb) view_fft = Some f"
    and "Option.bind (build_header_first t (fft_image f) pb) (protobuf_vector fft_size) = Some pb"
    and "Option.bind (build_header_first t (navigation_image n) pb) view_navigation = Some n"
    and "Option.bind (build_header_first t (navigation_image n) pb) (protobuf_vector navigation_size) = Some pb"
    and "Option.bind (build_header_first t (nav_config_image v) pb) view_nav_config = Some v"
proof -
  have sizes: "length (configuration_image c @ pb) < 2 ^ 32" "length (fft_image f @ pb) < 2 ^ 32"
    "length (navigation_image n @ pb) < 2 ^ 32"
    using assms by (simp_all add: configuration_view.image_size fft_view.image_size
        navigation_view.image_size configuration_size_def fft_size_def navigation_size_def)
  have ex: "\<exists>m. build_header_first t hdr pb = Some m \<and> framed (type_code t) (hdr @ pb) m" for hdr
    using built_framed build_first by fastforce
  show "Option.bind (build_header_first t (configuration_image c) pb) view_configuration = Some c"
    using ex [of "configuration_image c"] configuration_view.view_frame
    by (auto simp: view_configuration_def)
  show "Option.bind (build_header_first t (fft_image f) pb) view_fft = Some f"
    using ex [of "fft_image f"] fft_view.view_frame by (auto simp: view_fft_def)
  show "Option.bind (build_header_first t (navigation_image n) pb) view_navigation = Some n"
    using ex [of "navigation_image n"] navigation_view.view_frame by (auto simp: view_navigation_def)
  show "Option.bind (build_header_first t (nav_config_image v) pb) view_nav_config = Some v"
    using ex [of "nav_config_image v"] nav_config_view.view_frame by (auto simp: view_nav_config_def)
  show "Option.bind (build_header_first t (configuration_image c) pb) (protobuf_vector configuration_size) = Some pb"
    using ex [of "configuration_image c"] configuration_view.payload_frame [OF _ sizes(1)] by auto
  show "Option.bind (build_header_first t (fft_image f) pb) (protobuf_vector fft_size) = Some pb"
    using ex [of "fft_image f"] fft_view.payload_frame [OF _ sizes(2)] by auto
  show "Option.bind (build_header_first t (navigation_image n) pb) (protobuf_vector navigation_size) = Some pb"
    using ex [of "navigation_image n"] navigation_view.payload_frame [OF _ sizes(3)] by auto
qed

text \<open>
  C7: viewing a message that was built with a header and a protocol buffer gives back the header,
  attribute for attribute, and exactly the buffer, for every message class with a header.
\<close>

theorem view_of_built:
  assumes "length pb < 1000000"
  shows "Option.bind (build_header_first t (configuration_image c) pb) view_configuration = Some c \<and>
     Option.bind (build_header_first t (configuration_image c) pb) (protobuf_vector configuration_size) = Some pb \<and>
     Option.bind (build_header_first t (fft_image f) pb) view_fft = Some f \<and>
     Option.bind (build_header_first t (fft_image f) pb) (protobuf_vector fft_size) = Some pb \<and>
     Option.bind (build_header_first t (navigation_image n) pb) view_navigation = Some n \<and>
     Option.bind (build_header_first t (navigation_image n) pb) (protobuf_vector navigation_size) = Some pb \<and>
     Option.bind (build_header_first t (nav_config_image v) pb) view_nav_config = Some v"
  using view_of_built_facts [OF assms] by blast

definition sample_fft :: fft_hdr where
  "sample_fft = \<lparr>data_offset = 1, sweep = 2, azi = 3, seconds = 4, split_seconds = 5\<rparr>"

theorem view_of_built_witness:
  "Option.bind (build_header_first fft_data (fft_image sample_fft) [9, 8]) view_fft = Some sample_fft"
  using view_of_built [of "[9, 8]" fft_data undefined sample_fft undefined undefined] by simp

lemma view_accessors_facts:
  "azimuth_samples (set_azimuth_samples s c) = s" "bin_size (set_bin_size s c) = s"
  "range_in_bins (set_range_in_bins s c) = s" "encoder_size (set_encoder_size s c) = s"
  "rotation_speed (set_rotation_speed s c) = s" "packet_rate (set_packet_rate s c) = s"
  "range_gain (set_range_gain x c) = x" "range_offset (set_range_offset x c) = x"
  "fft_data_offset (set_fft_data_offset s f) = s" "sweep_counter (set_sweep_counter s f) = s"
  "fft_azimuth (set_fft_azimuth s f) = s"
  "fft_ntp_seconds (set_fft_ntp_seconds w f) = htonl w"
  "fft_ntp_split_seconds (set_fft_ntp_split_seconds w f) = htonl w"
  "nav_azimuth (set_nav_azimuth s n) = s" "nav_ntp_seconds (set_nav_ntp_seconds w n) = w"
  "nav_ntp_split_seconds (set_nav_ntp_split_seconds w n) = w"
  "bins_to_operate_on (set_bins_to_operate_on s v) = s"
  "min_bin_to_operate_on (set_min_bin_to_operate_on s v) = s"
  "max_peaks_per_azimuth (set_max_peaks_per_azimuth w v) = w"
  by (simp_all add: azimuth_samples_def set_azimuth_samples_def bin_size_def set_bin_size_def
      range_in_bins_def set_range_in_bins_def encoder_size_def set_encoder_size_def
      rotation_speed_def set_rotation_speed_def packet_rate_def set_packet_rate_def
      range_gain_def set_range_gain_def range_offset_def set_range_offset_def
      fft_data_offset_def set_fft_data_offset_def sweep_counter_def set_sweep_counter_def
      fft_azimuth_def set_fft_azimuth_def fft_ntp_seconds_def set_fft_ntp_seconds_def
      fft_ntp_split_seconds_def set_fft_ntp_split_seconds_def to_uint32_network_def
      nav_azimuth_def set_nav_azimuth_def nav_ntp_seconds_def set_nav_ntp_seconds_def
      to_uint32_host_def nav_ntp_split_seconds_def set_nav_ntp_split_seconds_def
      bins_to_operate_on_def set_bins_to_operate_on_def min_bin_to_operate_on_def
      set_min_bin_to_operate_on_def max_peaks_per_azimuth_def set_max_peaks_per_azimuth_def)

text \<open>
  Every getter returns what its setter was given, but for the two times of the FFT data: their
  getters return the attribute in network order, so the value comes back with its bytes reversed.
\<close>

theorem view_accessors:
  "azimuth_samples (set_azimuth_samples s c) = s \<and>
     bin_size (set_bin_size s c) = s \<and>
     range_in_bins (set_range_in_bins s c) = s \<and>
     encoder_size (set_encoder_size s c) = s \<and>
     rotation_speed (set_rotation_speed s c) = s \<and>
     packet_rate (set_packet_rate s c) = s \<and>
     range_gain (set_range_gain x c) = x \<and>
     range_offset (set_range_offset x c) = x \<and>
     fft_data_offset (set_fft_data_offset s f) = s \<and>
     sweep_counter (set_sweep_counter s f) = s \<and>
     fft_azimuth (set_fft_azimuth s f) = s \<and>
     fft_ntp_seconds (set_fft_ntp_seconds w f) = htonl w \<and>
     fft_ntp_split_seconds (set_fft_ntp_split_seconds w f) = htonl w \<and>
     nav_azimuth (set_nav_azimuth s n) = s \<and>
     nav_ntp_seconds (set_nav_ntp_seconds w n) = w \<and>
     nav_ntp_split_seconds (set_nav_ntp_split_seconds w n) = w \<and>
     bins_to_operate_on (set_bins_to_operate_on s v) = s \<and>
     min_bin_to_operate_on (set_min_bin_to_operate_on s v) = s \<and>
     max_peaks_per_azimuth (set_max_peaks_per_azimuth w v) = w"
  by (intro conjI view_accessors_facts)

text \<open>The threshold is stored in tenths; whole thresholds come back exactly.\<close>

lemma navigation_threshold_exact:
  assumes "0 < i" "i < 2 ^ 20"
  shows "navigation_threshold (set_navigation_threshold (f32_of_int i) h) = f32_of_int i"
proof -
  have v: "val32 (f32_of_int i) = Fin (of_int i)" "val32 ten = Fin 10"
    "val32 (f32_of_int (i * 10)) = Fin (of_int (i * 10))"
    using val32_of_int [of i] val32_of_int [of 10] val32_of_int [of "i * 10"] assms
    by (simp_all add: ten_def)
  have "f32_mul (f32_of_int i) ten = f32_of_int (i * 10)"
    using assms by (simp add: f32_mul_def v fp_mul_def Let_def f32_of_int_def [of "i * 10"])
  moreover have "f32_div (f32_of_int (i * 10)) ten = f32_of_int i"
    using assms v(2,3) by (simp add: f32_div_def fp_div_def Let_def f32_of_int_def [of i])
  ultimately show ?thesis by (simp add: navigation_threshold_def set_navigation_threshold_def)
qed

end
