(* ===== verification/Message_Access.thy ===== *)
theory Message_Access
  imports Colossus_Message
begin

text \<open>
  The rest of \<open>cpp_17/network/colossus_network_message.h\<close> and \<open>.cpp\<close>: the overloads that take a
  vector by move, an iterator range or a string, the stream operators, the getters, the positions
  of signature and payload, and the text of the signature.  A position is an offset into the
  bytes of the message.  A moved-from buffer is given back as it is left, where the code
  determines it.
\<close>

section \<open>The signature as a range and as text\<close>

definition signature_size :: nat where
  "signature_size = length signature"

definition signature_begin :: nat where
  "signature_begin = 0"

definition signature_end :: nat where
  "signature_end = 16"

definition signature_to_vector :: "byte list" where
  "signature_to_vector = take (signature_end - signature_begin) (drop signature_begin signature)"

definition hex_digit :: "nat \<Rightarrow> char" where
  "hex_digit d = char_of (if d < 10 then 48 + d else 87 + d)"

text \<open>A number in hexadecimal, at least two characters wide, filled with zeros.\<close>

fun hex_number :: "nat \<Rightarrow> string" where
  "hex_number n = (if n < 16 then [hex_digit n] else hex_number (n div 16) @ [hex_digit (n mod 16)])"

declare hex_number.simps [simp del]

definition hex_byte :: "byte \<Rightarrow> string" where
  "hex_byte b = (let s = hex_number (unat b) in replicate (2 - length s) (CHR ''0'') @ s)"

fun hex_list :: "byte list \<Rightarrow> string" where
  "hex_list [] = []"
| "hex_list [b] = ''0x'' @ hex_byte b"
| "hex_list (b # bs) = ''0x'' @ hex_byte b @ '', '' @ hex_list bs"

definition signature_to_string :: string where
  "signature_to_string = hex_list signature"

text \<open>The comparisons with the vector on the other side.\<close>

definition vector_eq_signature :: "byte list \<Rightarrow> bool option" where
  "vector_eq_signature lhs = signature_eq lhs"

definition signature_not_eq :: "byte list \<Rightarrow> bool option" where
  "signature_not_eq rhs = map_option Not (signature_eq rhs)"

section \<open>Construction and replacement\<close>

definition replace_moved :: "byte list \<Rightarrow> message \<Rightarrow> message" where
  "replace_moved src m = m\<lparr>data := src\<rparr>"

text \<open>A range is a position in some buffer and a size.\<close>

definition replace_range :: "byte list \<Rightarrow> nat \<Rightarrow> nat \<Rightarrow> message \<Rightarrow> message option" where
  "replace_range buf src_start src_size m = do {
     bs \<leftarrow> peek_at src_start src_size buf;
     Some (m\<lparr>data := bs\<rparr>) }"

definition message_of_moved :: "byte list \<Rightarrow> message" where
  "message_of_moved buf = replace_moved buf blank_message"

definition message_of_range :: "byte list \<Rightarrow> nat \<Rightarrow> nat \<Rightarrow> message option" where
  "message_of_range buf start sz = replace_range buf start sz blank_message"

definition message_of_from_moved :: "ip_address \<Rightarrow> u32 \<Rightarrow> byte list \<Rightarrow> message" where
  "message_of_from_moved ip_addr i buf = replace_moved buf (blank_message\<lparr>address := ip_addr, identity := i\<rparr>)"

definition message_of_from_range :: "ip_address \<Rightarrow> u32 \<Rightarrow> byte list \<Rightarrow> nat \<Rightarrow> nat \<Rightarrow> message option" where
  "message_of_from_range ip_addr i buf start sz =
     replace_range buf start sz (blank_message\<lparr>address := ip_addr, identity := i\<rparr>)"

section \<open>Getters and positions\<close>

definition get_id :: "message \<Rightarrow> u32" where
  "get_id m = identity m"

definition get_ip_address :: "message \<Rightarrow> ip_address" where
  "get_ip_address m = address m"

definition valid_signature :: "byte list" where
  "valid_signature = signature"

definition payload_begin :: "message \<Rightarrow> nat" where
  "payload_begin m = header_size"

definition payload_end :: "message \<Rightarrow> nat" where
  "payload_end m = length (data m)"

definition message_signature_begin :: "message \<Rightarrow> nat" where
  "message_signature_begin m = 0"

definition message_signature_end :: "message \<Rightarrow> nat" where
  "message_signature_end m = 16"

definition payload_bytes :: "message \<Rightarrow> byte list" where
  "payload_bytes m = take (payload_end m - payload_begin m) (drop (payload_begin m) (data m))"

section \<open>Appending\<close>

text \<open>The buffer is moved into a local vector, which leaves it empty.\<close>

definition append_moved :: "byte list \<Rightarrow> message \<Rightarrow> (message \<times> byte list) option" where
  "append_moved protocol_buffer m = do {
     let temp = protocol_buffer;
     m1 \<leftarrow> update_payload_size (m\<lparr>data := data m @ temp\<rparr>);
     Some (m1\<lparr>has_protobuf := True\<rparr>, []) }"

definition char_byte :: "char \<Rightarrow> byte" where
  "char_byte c = of_char c"

definition append_string :: "string \<Rightarrow> message \<Rightarrow> message option" where
  "append_string protocol_buffer m = do {
     m1 \<leftarrow> update_payload_size (m\<lparr>data := data m @ map char_byte protocol_buffer\<rparr>);
     Some (m1\<lparr>has_protobuf := True\<rparr>) }"

definition append_string_moved :: "string \<Rightarrow> message \<Rightarrow> message option" where
  "append_string_moved protocol_buffer m = do {
     let temp = protocol_buffer;
     m1 \<leftarrow> update_payload_size (m\<lparr>data := data m @ map char_byte temp\<rparr>);
     Some (m1\<lparr>has_protobuf := True\<rparr>) }"

definition put_buffer :: "message \<Rightarrow> byte list \<Rightarrow> message option" where
  "put_buffer m buf = append_buffer buf m"

definition put_moved :: "message \<Rightarrow> byte list \<Rightarrow> (message \<times> byte list) option" where
  "put_moved m buf = append_moved buf m"

definition put_string :: "message \<Rightarrow> string \<Rightarrow> message option" where
  "put_string m s = append_string s m"

definition put_string_moved :: "message \<Rightarrow> string \<Rightarrow> message option" where
  "put_string_moved m s = append_string_moved s m"

definition put_header :: "message \<Rightarrow> byte list \<Rightarrow> message option" where
  "put_header m hdr = append_header hdr m"

section \<open>Properties\<close>

text \<open>Every way to append is the appending of a buffer.\<close>

lemma append_overloads:
  "append_moved buf m = map_option (\<lambda>m1. (m1, [])) (append_buffer buf m)"
  "append_string s m = append_buffer (map char_byte s) m"
  "append_string_moved s m = append_buffer (map char_byte s) m"
  "put_buffer m buf = append_buffer buf m" "put_moved m buf = append_moved buf m"
  "put_string m s = append_string s m" "put_string_moved m s = append_string_moved s m"
  by (simp_all add: append_moved_def append_buffer_def append_string_def append_string_moved_def put_buffer_def
      put_moved_def put_string_def put_string_moved_def Let_def split: Option.bind_split)

text \<open>Every way to take bytes in gives the same message.\<close>

lemma replace_overloads:
  "replace_moved buf m = replace buf m"
  "n \<le> length buf \<Longrightarrow> replace_range buf 0 n m = Some (replace (take n buf) m)"
  "message_of_moved buf = message_of buf"
  "message_of_from_moved a i buf = message_of_from a i buf"
  "message_of_range buf 0 (length buf) = Some (message_of buf)"
  "message_of_from_range a i buf 0 (length buf) = Some (message_of_from a i buf)"
  by (simp_all add: replace_moved_def replace_def replace_range_def message_of_moved_def message_of_def
      message_of_from_moved_def message_of_from_def message_of_range_def message_of_from_range_def peek_at_def)

lemma signature_text:
  "signature_to_vector = signature"
  "signature_to_string = ''0x00, 0x01, 0x03, 0x03, 0x07, 0x07, 0x0f, 0x0f, 0x1f, 0x1f, 0x3f, 0x3f, 0x7f, 0x7f, 0xfe, 0xfe''"
  by code_simp+

text \<open>
  The range between the payload iterators is the payload of a well-formed message, whichever
  overload built it, so that reading a message from a copied range of a larger buffer, by move or
  by copy gives its payload back.
\<close>

theorem payload_of_any_overload:
  "payload_bytes (message_of_moved (frame c pl)) = pl \<and>
   map_option payload_bytes (message_of_range (pre @ frame c pl @ post) (length pre) (length (frame c pl))) = Some pl \<and>
   map_option payload_bytes (message_of_from_range a i (frame c pl @ post) 0 (length (frame c pl))) = Some pl \<and>
   payload_bytes (message_of_from_moved a i (frame c pl)) = pl"
proof -
  have p: "payload_bytes (m\<lparr>data := frame c pl\<rparr>) = pl" for m
    by (simp add: payload_bytes_def payload_begin_def payload_end_def header_size_def)
      (simp add: frame_def be32_def signature_def length_mem)
  have "peek_at (length pre) (length (frame c pl)) (pre @ frame c pl @ post) = Some (frame c pl)"
    by (rule peek_at_mid)
  moreover have "peek_at 0 (length (frame c pl)) (frame c pl @ post) = Some (frame c pl)"
    by (simp add: peek_at_def)
  ultimately show ?thesis
    by (simp add: message_of_moved_def message_of_from_moved_def message_of_range_def message_of_from_range_def
        replace_moved_def replace_range_def p)
qed

end
