(* ===== verification/Protobuf_Helpers.thy ===== *)
theory Protobuf_Helpers
  imports Prelude "HOL-Library.Monad_Syntax"
begin

text \<open>
  \<open>cpp_17/utility/Protobuf_helpers.h\<close>: protocol buffers to and from strings and vectors.  The
  protocol buffer library is a parameter: what its calls return, with the string they leave
  behind, or that they throw a \<open>std::exception\<close>.
\<close>

section \<open>The library\<close>

datatype 'a outcome = Returns 'a | Throws

record 'm proto_library =
  serialize_to_string :: "'m \<Rightarrow> (bool \<times> byte list) outcome"
  parse_from_string :: "byte list \<Rightarrow> (bool \<times> 'm) outcome"
  print_text :: "'m \<Rightarrow> (bool \<times> byte list) outcome"
  parse_text :: "byte list \<Rightarrow> (bool \<times> 'm) outcome"

section \<open>The helpers\<close>

definition string_from :: "'m proto_library \<Rightarrow> 'm \<Rightarrow> byte list option" where
  "string_from lib m = (case serialize_to_string lib m of
       Returns (ok, output_str) \<Rightarrow> if ok then Some output_str else None
     | Throws \<Rightarrow> None)"

definition from_string_into :: "'m proto_library \<Rightarrow> byte list \<Rightarrow> 'm option" where
  "from_string_into lib input_str = (case parse_from_string lib input_str of
       Returns (ok, m) \<Rightarrow> if ok then Some m else None
     | Throws \<Rightarrow> None)"

definition vector_from :: "'m proto_library \<Rightarrow> 'm \<Rightarrow> byte list option" where
  "vector_from lib m = (case serialize_to_string lib m of
       Returns (ok, str) \<Rightarrow> if ok then Some str else None
     | Throws \<Rightarrow> None)"

definition from_vector_into :: "'m proto_library \<Rightarrow> byte list \<Rightarrow> 'm option" where
  "from_vector_into lib bytes = (case parse_from_string lib bytes of
       Returns (ok, m) \<Rightarrow> if ok then Some m else None
     | Throws \<Rightarrow> None)"

text \<open>
  The functions with an output parameter give back its new value beside their result.  The object
  converts itself to a protocol buffer and is made from one by functions of its own.
\<close>

definition serialize_to_protocol_buffer_string ::
    "'m proto_library \<Rightarrow> ('u \<Rightarrow> 'm outcome) \<Rightarrow> 'u \<Rightarrow> byte list \<Rightarrow> bool \<times> byte list" where
  "serialize_to_protocol_buffer_string lib to_protocol_buffer object object_string =
     (case to_protocol_buffer object of
        Returns proto \<Rightarrow> (case print_text lib proto of
            Returns (ok, text) \<Rightarrow> (True, text)
          | Throws \<Rightarrow> (False, object_string))
      | Throws \<Rightarrow> (False, object_string))"

definition deserialize_from_protocol_buffer_string ::
    "'m proto_library \<Rightarrow> ('m \<Rightarrow> 'u) \<Rightarrow> byte list \<Rightarrow> 'u \<Rightarrow> bool \<times> 'u" where
  "deserialize_from_protocol_buffer_string lib construct object_string object =
     (case parse_text lib object_string of
        Returns (result, proto) \<Rightarrow> (result, if result then construct proto else object)
      | Throws \<Rightarrow> (False, object))"

definition serialize_to_protocol_buffer ::
    "'m proto_library \<Rightarrow> bool \<Rightarrow> 'm \<Rightarrow> byte list \<Rightarrow> bool \<times> byte list" where
  "serialize_to_protocol_buffer lib human_readable m bytes =
     (case (if human_readable then print_text lib m else serialize_to_string lib m) of
        Returns (ok, object_string) \<Rightarrow> (True, object_string)
      | Throws \<Rightarrow> (False, bytes))"

definition deserialize_from_protocol_buffer ::
    "'m proto_library \<Rightarrow> bool \<Rightarrow> byte list \<Rightarrow> 'm \<Rightarrow> bool \<times> 'm" where
  "deserialize_from_protocol_buffer lib human_readable bytes object =
     (case (if human_readable then parse_text lib bytes else parse_from_string lib bytes) of
        Returns (result, proto) \<Rightarrow> (result, if result then proto else object)
      | Throws \<Rightarrow> (False, object))"

section \<open>Properties\<close>

text \<open>What the library promises: what it serializes it parses back.\<close>

definition reads_back :: "'m proto_library \<Rightarrow> bool" where
  "reads_back lib \<longleftrightarrow>
     (\<forall>m bs. serialize_to_string lib m = Returns (True, bs) \<longrightarrow> parse_from_string lib bs = Returns (True, m)) \<and>
     (\<forall>m bs. print_text lib m = Returns (True, bs) \<longrightarrow> parse_text lib bs = Returns (True, m))"

text \<open>
  With a library that parses what it serializes, a value that a helper wrote is read back by
  its counterpart; and a failed parse, or an exception, leaves the object that was passed as it was.
\<close>

theorem protobuf_helpers_round_trip:
  assumes "reads_back lib"
  shows "(vector_from lib m = Some bs \<longrightarrow> from_vector_into lib bs = Some m) \<and>
    (string_from lib m = Some bs \<longrightarrow> from_string_into lib bs = Some m) \<and>
    ((if hr then print_text lib m else serialize_to_string lib m) = Returns (True, bs) \<longrightarrow>
      serialize_to_protocol_buffer lib hr m old = (True, bs) \<and>
      deserialize_from_protocol_buffer lib hr bs object = (True, m)) \<and>
    (fst (deserialize_from_protocol_buffer lib hr other object) \<or>
      snd (deserialize_from_protocol_buffer lib hr other object) = object)"
  using assms
  by (auto simp: reads_back_def vector_from_def from_vector_into_def string_from_def from_string_into_def
      serialize_to_protocol_buffer_def deserialize_from_protocol_buffer_def
      split: outcome.splits prod.splits if_splits)

text \<open>A serialization that fails without an exception is reported as a success.\<close>

lemma failed_serialization_succeeds:
  "serialize_to_string lib m = Returns (False, partial) \<Longrightarrow>
    serialize_to_protocol_buffer lib False m bytes = (True, partial)"
  by (simp add: serialize_to_protocol_buffer_def)

definition byte_library :: "byte list proto_library" where
  "byte_library = \<lparr>serialize_to_string = (\<lambda>m. Returns (True, 0 # m)),
     parse_from_string = (\<lambda>bs. case bs of b # m \<Rightarrow> Returns (True, m) | [] \<Rightarrow> Throws),
     print_text = (\<lambda>m. Returns (True, m)), parse_text = (\<lambda>bs. Returns (True, bs))\<rparr>"

theorem protobuf_helpers_round_trip_witness:
  "reads_back byte_library \<and> from_vector_into byte_library [0, 5, 6] = Some [5, 6]"
proof -
  have "reads_back byte_library" by (auto simp: reads_back_def byte_library_def)
  then show ?thesis
    using protobuf_helpers_round_trip [of byte_library "[5, 6]" "[0, 5, 6]" True "[]" "[]" "[]"]
    by (simp add: vector_from_def byte_library_def)
qed

end
