(* ===== verification/Threaded_Queue.thy ===== *)
theory Threaded_Queue
  imports Prelude
begin

text \<open>
  \<open>cpp_17/utility/threaded_class.h\<close>, \<open>.cpp\<close>, \<open>threaded_queue.h\<close>, \<open>timer.h\<close> and \<open>.cpp\<close>: a worker
  thread that repeats \<open>do_work\<close> until it is asked to stop, the queue and the timer built on it.
  Each member function is a function of the object's state, as a single thread sees it; what the
  threads do to each other is the subject of \<open>Queue_Interleaving\<close>.
\<close>

section \<open>The thread base\<close>

record thread_state =
  joinable :: bool
  stop_requested :: bool

text \<open>\<open>thread_method\<close>: work while no stop is requested; the requests are the ones seen in turn.\<close>

fun thread_method :: "('s \<Rightarrow> 's) \<Rightarrow> bool list \<Rightarrow> 's \<Rightarrow> 's" where
  "thread_method work [] s = s"
| "thread_method work (stop # stops) s = (if stop then s else thread_method work stops (work s))"

text \<open>Joining leaves the thread object unjoinable; the hooks are arguments.\<close>

definition join_thread :: "'a thread_state_scheme \<Rightarrow> 'a thread_state_scheme" where
  "join_thread t = (if \<not> joinable t then t else t\<lparr>joinable := False\<rparr>)"

definition start_thread ::
    "('a thread_state_scheme \<Rightarrow> 'a thread_state_scheme) \<Rightarrow> 'a thread_state_scheme \<Rightarrow> 'a thread_state_scheme" where
  "start_thread post_stop t =
     (if joinable t then t else post_stop (t\<lparr>stop_requested := False, joinable := True\<rparr>))"

definition stop_thread ::
    "(bool \<Rightarrow> 'a thread_state_scheme \<Rightarrow> 'a thread_state_scheme) \<Rightarrow> bool \<Rightarrow>
      'a thread_state_scheme \<Rightarrow> 'a thread_state_scheme" where
  "stop_thread pre_stop finish_work t =
     (if \<not> joinable t \<or> stop_requested t then t
      else join_thread (pre_stop finish_work (t\<lparr>stop_requested := True\<rparr>)))"

section \<open>The queue\<close>

text \<open>\<open>delivered\<close> records the items the callback received, in order.\<close>

record 'i threaded_queue = thread_state +
  stopping :: bool
  items :: "'i list"
  callback_set :: bool
  delivered :: "'i list"

definition max_queue_depth :: nat where
  "max_queue_depth = 10000"

text \<open>
  A queue as its owner makes it: the constructors are defaulted and \<open>Tcp_radar_client\<close> value-initialises
  its member (\<open>Threaded_queue<...>()\<close>), which sets all of it, the atomic flags too, to zero first.
\<close>

definition fresh_queue :: "'i threaded_queue" where
  "fresh_queue = \<lparr>joinable = False, stop_requested = False, stopping = False, items = [],
     callback_set = False, delivered = []\<rparr>"

definition enqueue :: "'i \<Rightarrow> 'i threaded_queue \<Rightarrow> 'i threaded_queue" where
  "enqueue item q =
     (if stopping q \<or> \<not> callback_set q \<or> \<not> joinable q \<or> length (items q) > max_queue_depth then q
      else q\<lparr>items := items q @ [item]\<rparr>)"

definition set_dequeue_callback :: "bool \<Rightarrow> 'i threaded_queue \<Rightarrow> 'i threaded_queue" where
  "set_dequeue_callback given q = q\<lparr>callback_set := given\<rparr>"

definition deliver :: "'i \<Rightarrow> 'i threaded_queue \<Rightarrow> 'i threaded_queue" where
  "deliver item q = (if callback_set q then q\<lparr>delivered := delivered q @ [item]\<rparr> else q)"

definition dequeue :: "'i threaded_queue \<Rightarrow> bool \<times> 'i threaded_queue" where
  "dequeue q =
     (let q' = (case items q of [] \<Rightarrow> q | item # rest \<Rightarrow> deliver item (q\<lparr>items := rest\<rparr>))
      in (items q' = [], q'))"

text \<open>The loop \<open>while (!dequeue())\<close>, with as many turns as there are items at most.\<close>

function drain :: "'i threaded_queue \<Rightarrow> 'i threaded_queue" where
  "drain q = (case dequeue q of (finished, q') \<Rightarrow> if finished then q' else drain q')"
  by pat_completeness auto

lemma items_deliver [simp]: "items (deliver x q) = items q"
  by (simp add: deliver_def)

termination drain
proof (relation "measure (\<lambda>q. length (items q))")
  fix q finished and q' :: "'i threaded_queue"
  assume "(finished, q') = dequeue q" "\<not> finished"
  then show "(q', q) \<in> measure (\<lambda>q. length (items q))"
    by (auto simp: dequeue_def Let_def split: list.splits)
qed simp

declare drain.simps [simp del]

definition queue_pre_stop :: "bool \<Rightarrow> 'i threaded_queue \<Rightarrow> 'i threaded_queue" where
  "queue_pre_stop finish_work q =
     (let q1 = q\<lparr>stopping := True\<rparr>;
          q2 = (if finish_work then drain q1 else q1)
      in q2\<lparr>items := []\<rparr>)"

definition queue_post_stop :: "'i threaded_queue \<Rightarrow> 'i threaded_queue" where
  "queue_post_stop q = q\<lparr>stopping := False\<rparr>"

definition start_queue :: "'i threaded_queue \<Rightarrow> 'i threaded_queue" where
  "start_queue = start_thread queue_post_stop"

definition stop_queue :: "bool \<Rightarrow> 'i threaded_queue \<Rightarrow> 'i threaded_queue" where
  "stop_queue = stop_thread queue_pre_stop"

lemmas queue_life = start_queue_def stop_queue_def start_thread_def stop_thread_def join_thread_def
  queue_post_stop_def queue_pre_stop_def Let_def

text \<open>The working half of \<open>do_work\<close>, before the wait: take one item and deliver it.\<close>

definition work_once :: "'i threaded_queue \<Rightarrow> 'i threaded_queue" where
  "work_once q = (case items q of [] \<Rightarrow> q | item # rest \<Rightarrow> deliver item (q\<lparr>items := rest\<rparr>))"

section \<open>The queue as a bounded fifo\<close>

text \<open>What a producer relies on, with the capacity the code really has.\<close>

locale bounded_fifo =
  fixes put :: "'i \<Rightarrow> 'q \<Rightarrow> 'q" and get :: "'q \<Rightarrow> 'q" and contents :: "'q \<Rightarrow> 'i list"
    and out :: "'q \<Rightarrow> 'i list" and ready :: "'q \<Rightarrow> bool" and cap :: nat
  assumes put_contents: "contents (put x q) =
      (if ready q \<and> length (contents q) < cap then contents q @ [x] else contents q)"
    and put_ready: "ready (put x q) = ready q"
    and put_out: "out (put x q) = out q"
    and get_ready: "ready (get q) = ready q"
    and get_contents: "contents (get q) = tl (contents q)"
    and get_out: "ready q \<Longrightarrow> out (get q) = out q @ take 1 (contents q)"
begin

definition put_all :: "'i list \<Rightarrow> 'q \<Rightarrow> 'q" where
  "put_all xs q = fold put xs q"

lemma ready_put_all: "ready (put_all xs q) = ready q"
  by (induction xs arbitrary: q) (simp_all add: put_all_def put_ready)

lemma out_put_all: "out (put_all xs q) = out q"
  by (induction xs arbitrary: q) (simp_all add: put_all_def put_out)

lemma contents_put_all:
  "ready q \<Longrightarrow> length (contents q) \<le> cap \<Longrightarrow>
    contents (put_all xs q) = contents q @ take (cap - length (contents q)) xs"
proof (induction xs arbitrary: q)
  case (Cons x xs)
  show ?case
  proof (cases "length (contents q) < cap")
    case True
    then have "contents (put x q) = contents q @ [x]" using Cons.prems put_contents by simp
    then show ?thesis
      using Cons.IH [of "put x q"] Cons.prems True
      by (simp add: put_all_def put_ready Suc_diff_Suc [symmetric] take_Cons' Suc_leI)
  next
    case False
    then have "contents (put x q) = contents q" using put_contents by simp
    then show ?thesis
      using Cons.IH [of "put x q"] Cons.prems False by (simp add: put_all_def put_ready)
  qed
qed (simp add: put_all_def)

lemma get_all:
  "ready q \<Longrightarrow> length (contents q) \<le> n \<Longrightarrow> out ((get ^^ n) q) = out q @ contents q"
proof (induction n arbitrary: q)
  case (Suc n)
  then have "out ((get ^^ n) (get q)) = out (get q) @ contents (get q)"
    by (intro Suc.IH) (auto simp: get_ready get_contents)
  then show ?case
    using Suc.prems by (cases "contents q") (simp_all add: funpow_swap1 get_out get_contents)
qed simp

text \<open>What goes in comes out, in order, up to the capacity.\<close>

lemma first_in_first_out:
  assumes "ready q" "contents q = []" "length xs \<le> n"
  shows "out ((get ^^ n) (put_all xs q)) = out q @ take cap xs"
proof -
  have c: "contents (put_all xs q) = take cap xs"
    using contents_put_all [of q xs] assms by simp
  then have "length (contents (put_all xs q)) \<le> n" using assms(3) by simp
  then show ?thesis using get_all [of "put_all xs q" n] assms(1) c by (simp add: ready_put_all out_put_all)
qed

end

definition queue_ready :: "'i threaded_queue \<Rightarrow> bool" where
  "queue_ready q \<longleftrightarrow> \<not> stopping q \<and> callback_set q \<and> joinable q"

interpretation queue_fifo: bounded_fifo enqueue work_once items delivered queue_ready "max_queue_depth + 1"
  by unfold_locales
    (auto simp: enqueue_def queue_ready_def work_once_def deliver_def split: list.splits)

text \<open>
  Items offered to a started queue with a callback are delivered in order, each once, and
  nothing else is, as long as no more than 10,001 of them wait; beyond that an offered item is
  dropped without a trace.
\<close>

theorem queue_in_order:
  assumes "queue_ready q" "items q = []" "length xs \<le> n"
  shows "delivered ((work_once ^^ n) (fold enqueue xs q)) = delivered q @ take 10001 xs"
  using queue_fifo.first_in_first_out [OF assms] by (simp add: queue_fifo.put_all_def max_queue_depth_def)

theorem queue_in_order_witness:
  "delivered ((work_once ^^ 3) (fold enqueue [True, False] (start_queue (set_dequeue_callback True fresh_queue)))) =
     [True, False]"
  using queue_in_order [of "start_queue (set_dequeue_callback True fresh_queue)" "[True, False]" 3]
  by (simp add: queue_ready_def queue_life set_dequeue_callback_def fresh_queue_def)

section \<open>Starting and stopping\<close>

lemma drain_items: "items (drain q) = [] \<and> (callback_set q \<longrightarrow> delivered (drain q) = delivered q @ items q)
    \<and> joinable (drain q) = joinable q \<and> stopping (drain q) = stopping q
    \<and> stop_requested (drain q) = stop_requested q \<and> callback_set (drain q) = callback_set q"
proof (induction q rule: drain.induct)
  case (1 q)
  show ?case
  proof (cases "items q")
    case Nil
    then show ?thesis by (simp add: drain.simps [of q] dequeue_def)
  next
    case (Cons x xs)
    then show ?thesis
      using "1.IH" [of "xs = []" "deliver x (q\<lparr>items := xs\<rparr>)"]
      by (auto simp: drain.simps [of q] dequeue_def deliver_def)
  qed
qed

lemma queue_stop_facts:
  assumes "joinable q" "\<not> stop_requested q" "callback_set q"
  shows "items (stop_queue f q) = []" "\<not> joinable (stop_queue f q)"
    and "enqueue x (stop_queue f q) = stop_queue f q"
    and "delivered (stop_queue f q) = (if f then delivered q @ items q else delivered q)"
    and "items (enqueue x (start_queue (stop_queue f q))) = [x]"
  using assms drain_items [of "q\<lparr>stop_requested := True, stopping := True\<rparr>"]
  by (auto simp: queue_life enqueue_def)

text \<open>
  Stopping a started queue leaves it empty, unstarted and refusing items; when asked to finish
  the work it first delivers everything that waits, in order, and otherwise it drops it.  After
  a restart the queue accepts items again.
\<close>

theorem queue_stop:
  assumes "joinable q" "\<not> stop_requested q" "callback_set q"
  shows "items (stop_queue f q) = [] \<and>
     \<not> joinable (stop_queue f q) \<and>
     enqueue x (stop_queue f q) = stop_queue f q \<and>
     (delivered (stop_queue f q) = (if f then delivered q @ items q else delivered q)) \<and>
     items (enqueue x (start_queue (stop_queue f q))) = [x]"
  using queue_stop_facts [OF assms] by blast

theorem queue_stop_witness:
  "delivered (stop_queue True (fold enqueue [1 :: int, 2] (start_queue (set_dequeue_callback True fresh_queue)))) = [1, 2]"
  using queue_stop [of "fold enqueue [1 :: int, 2] (start_queue (set_dequeue_callback True fresh_queue))" True]
  by (simp add: queue_life set_dequeue_callback_def fresh_queue_def enqueue_def max_queue_depth_def)

end
