(* ===== verification/Queue_Interleaving.thy ===== *)
theory Queue_Interleaving
  imports Threaded_Queue "HOL-Library.Sublist"
begin

text \<open>
  The interleavings of \<open>Threaded_queue\<close>: the worker running \<open>thread_method\<close> and \<open>do_work\<close>, any number
  of clients, each calling \<open>enqueue\<close> again and again with either value of \<open>notify\<close>, and one thread
  calling \<open>stop()\<close>.  A step is one access to the shared state: each test of the guard of \<open>enqueue\<close> is one,
  and none of them holds the mutex; only the push and the notification do.  The worker holds the
  mutex while it takes an item and from its second test up to the wait; \<open>stop\<close> never holds it, not even
  for its swap.  Taking the mutex is a step of its own; letting go of it belongs to the access before.

  The operations of \<open>std::queue\<close> are taken as atomic.  \<open>front\<close> and \<open>pop\<close> of an empty queue are undefined
  and lead to \<open>Broken\<close>.
\<close>

section \<open>Threads and steps\<close>

datatype 'i worker =
    Testing          \<comment> \<open>about to test \<open>stop_requested\<close> in \<open>thread_method\<close>\<close>
  | Locking          \<comment> \<open>about to lock\<close>
  | Looking          \<comment> \<open>holds the mutex, about to test \<open>!queue.empty()\<close>\<close>
  | Reading          \<comment> \<open>holds the mutex, about to copy \<open>queue.front()\<close>\<close>
  | Popping 'i       \<comment> \<open>holds the mutex, about to call \<open>queue.pop()\<close>\<close>
  | Delivering 'i    \<comment> \<open>has an item, mutex released\<close>
  | Relocking        \<comment> \<open>about to lock again\<close>
  | Checking         \<comment> \<open>holds the mutex, about to test \<open>queue.empty()\<close>\<close>
  | Asking           \<comment> \<open>holds the mutex, about to test \<open>!stop_requested\<close>\<close>
  | Committed        \<comment> \<open>holds the mutex, about to wait\<close>
  | Sleeping         \<comment> \<open>in \<open>condition.wait\<close>\<close>
  | Woken            \<comment> \<open>notified, about to lock for the return from \<open>wait\<close>\<close>
  | Exited
  | Broken           \<comment> \<open>undefined behaviour\<close>

text \<open>A caller of \<open>enqueue(item, notify)\<close>; the guard is tested from left to right.\<close>

datatype 'i caller =
    Idle
  | Test_callback 'i bool    \<comment> \<open>\<open>stopping\<close> was false\<close>
  | Test_thread 'i bool      \<comment> \<open>there was a callback\<close>
  | Test_size 'i bool        \<comment> \<open>the thread was joinable\<close>
  | Passed 'i bool           \<comment> \<open>past the guard, about to lock\<close>
  | Pushing 'i bool          \<comment> \<open>holds the mutex, about to push\<close>
  | Notifying bool           \<comment> \<open>holds the mutex, has pushed\<close>

datatype stopper =
    Not_stopping
  | Requested        \<comment> \<open>\<open>stop_requested = true\<close> done\<close>
  | Closing          \<comment> \<open>\<open>stopping = true\<close> done\<close>
  | Emptied          \<comment> \<open>the swap done\<close>
  | Joining          \<comment> \<open>notified, waiting in \<open>join\<close>\<close>
  | Joined

datatype actor = Worker | Client nat | Stopper | Spurious

text \<open>
  \<open>accepted\<close> records the items pushed, in order, and \<open>silent\<close> whether one was pushed without a
  notification; no thread reads them.
\<close>

record 'i system =
  shared :: "'i threaded_queue"
  mutex_held :: bool
  worker :: "'i worker"
  clients :: "'i caller list"
  stopper :: stopper
  accepted :: "'i list"
  silent :: bool

definition wake :: "'i worker \<Rightarrow> 'i worker" where
  "wake w = (if w = Sleeping then Woken else w)"

abbreviation becomes :: "nat \<Rightarrow> 'i caller \<Rightarrow> 'i system \<Rightarrow> 'i system" where
  "becomes i c s \<equiv> s\<lparr>clients := (clients s)[i := c]\<rparr>"

inductive step :: "actor \<Rightarrow> 'i system \<Rightarrow> 'i system \<Rightarrow> bool" where
  worker_test: "worker s = Testing \<Longrightarrow>
    step Worker s (s\<lparr>worker := if stop_requested (shared s) then Exited else Locking\<rparr>)"
| worker_lock: "worker s = Locking \<Longrightarrow> \<not> mutex_held s \<Longrightarrow>
    step Worker s (s\<lparr>worker := Looking, mutex_held := True\<rparr>)"
| worker_look: "worker s = Looking \<Longrightarrow>
    step Worker s (if items (shared s) = [] then s\<lparr>worker := Relocking, mutex_held := False\<rparr> else s\<lparr>worker := Reading\<rparr>)"
| worker_read: "worker s = Reading \<Longrightarrow>
    step Worker s (s\<lparr>worker := (case items (shared s) of [] \<Rightarrow> Broken | x # xs \<Rightarrow> Popping x)\<rparr>)"
| worker_pop: "worker s = Popping x \<Longrightarrow> items (shared s) = y # ys \<Longrightarrow>
    step Worker s (s\<lparr>worker := Delivering x, mutex_held := False, shared := (shared s)\<lparr>items := ys\<rparr>\<rparr>)"
| worker_pop_none: "worker s = Popping x \<Longrightarrow> items (shared s) = [] \<Longrightarrow> step Worker s (s\<lparr>worker := Broken\<rparr>)"
| worker_deliver: "worker s = Delivering x \<Longrightarrow>
    step Worker s (s\<lparr>worker := Relocking, shared := deliver x (shared s)\<rparr>)"
| worker_relock: "worker s = Relocking \<Longrightarrow> \<not> mutex_held s \<Longrightarrow>
    step Worker s (s\<lparr>worker := Checking, mutex_held := True\<rparr>)"
| worker_check: "worker s = Checking \<Longrightarrow>
    step Worker s (if items (shared s) = [] then s\<lparr>worker := Asking\<rparr> else s\<lparr>worker := Testing, mutex_held := False\<rparr>)"
| worker_ask: "worker s = Asking \<Longrightarrow>
    step Worker s (if stop_requested (shared s) then s\<lparr>worker := Testing, mutex_held := False\<rparr> else s\<lparr>worker := Committed\<rparr>)"
| worker_wait: "worker s = Committed \<Longrightarrow> step Worker s (s\<lparr>worker := Sleeping, mutex_held := False\<rparr>)"
| worker_return: "worker s = Woken \<Longrightarrow> \<not> mutex_held s \<Longrightarrow> step Worker s (s\<lparr>worker := Testing\<rparr>)"
| client_call: "i < length (clients s) \<Longrightarrow> clients s ! i = Idle \<Longrightarrow>
    step (Client i) s (becomes i (if stopping (shared s) then Idle else Test_callback x b) s)"
| client_callback: "i < length (clients s) \<Longrightarrow> clients s ! i = Test_callback x b \<Longrightarrow>
    step (Client i) s (becomes i (if callback_set (shared s) then Test_thread x b else Idle) s)"
| client_thread: "i < length (clients s) \<Longrightarrow> clients s ! i = Test_thread x b \<Longrightarrow>
    step (Client i) s (becomes i (if joinable (shared s) then Test_size x b else Idle) s)"
| client_size: "i < length (clients s) \<Longrightarrow> clients s ! i = Test_size x b \<Longrightarrow>
    step (Client i) s (becomes i (if length (items (shared s)) > max_queue_depth then Idle else Passed x b) s)"
| client_lock: "i < length (clients s) \<Longrightarrow> clients s ! i = Passed x b \<Longrightarrow> \<not> mutex_held s \<Longrightarrow>
    step (Client i) s (becomes i (Pushing x b) s\<lparr>mutex_held := True\<rparr>)"
| client_push: "i < length (clients s) \<Longrightarrow> clients s ! i = Pushing x b \<Longrightarrow>
    step (Client i) s (becomes i (Notifying b) s\<lparr>shared := (shared s)\<lparr>items := items (shared s) @ [x]\<rparr>,
      accepted := accepted s @ [x], silent := silent s \<or> \<not> b\<rparr>)"
| client_notify: "i < length (clients s) \<Longrightarrow> clients s ! i = Notifying b \<Longrightarrow>
    step (Client i) s (becomes i Idle s\<lparr>worker := if b then wake (worker s) else worker s, mutex_held := False\<rparr>)"
| stop_request: "stopper s = Not_stopping \<Longrightarrow> joinable (shared s) \<Longrightarrow> \<not> stop_requested (shared s) \<Longrightarrow>
    step Stopper s (s\<lparr>stopper := Requested, shared := (shared s)\<lparr>stop_requested := True\<rparr>\<rparr>)"
| stop_close: "stopper s = Requested \<Longrightarrow>
    step Stopper s (s\<lparr>stopper := Closing, shared := (shared s)\<lparr>stopping := True\<rparr>\<rparr>)"
| stop_empty: "stopper s = Closing \<Longrightarrow>
    step Stopper s (s\<lparr>stopper := Emptied, shared := (shared s)\<lparr>items := []\<rparr>\<rparr>)"
| stop_notify: "stopper s = Emptied \<Longrightarrow>
    step Stopper s (s\<lparr>stopper := Joining, worker := wake (worker s)\<rparr>)"
| stop_join: "stopper s = Joining \<Longrightarrow> worker s = Exited \<Longrightarrow>
    step Stopper s (s\<lparr>stopper := Joined, shared := (shared s)\<lparr>joinable := False\<rparr>\<rparr>)"
| spurious: "worker s = Sleeping \<Longrightarrow> step Spurious s (s\<lparr>worker := Woken\<rparr>)"

inductive_cases workerE: "step Worker s s'"
inductive_cases clientE: "step (Client i) s s'"
inductive_cases stopperE: "step Stopper s s'"

inductive_simps worker_step: "step Worker s s'"
inductive_simps stopper_step: "step Stopper s s'"
inductive_simps client_step: "step (Client i) s s'"

definition started :: "'i system \<Rightarrow> bool" where
  "started s \<longleftrightarrow> queue_ready (shared s) \<and> \<not> stop_requested (shared s) \<and> items (shared s) = [] \<and>
     delivered (shared s) = [] \<and> worker s = Testing \<and> \<not> mutex_held s \<and> list_all (\<lambda>c. c = Idle) (clients s) \<and>
     stopper s = Not_stopping \<and> accepted s = [] \<and> \<not> silent s"

inductive reachable :: "'i system \<Rightarrow> bool" where
  initial: "started s \<Longrightarrow> reachable s"
| later: "reachable s \<Longrightarrow> step a s s' \<Longrightarrow> reachable s'"

lemma reachable_invariant:
  assumes "reachable s" "\<And>s. started s \<Longrightarrow> I s" "\<And>a s s'. reachable s \<Longrightarrow> step a s s' \<Longrightarrow> I s \<Longrightarrow> I s'"
  shows "I s"
  using assms(1) by (induction rule: reachable.induct) (use assms(2,3) in blast)+

section \<open>Mutex, flags and bound\<close>

fun worker_holds :: "'i worker \<Rightarrow> int" where
  "worker_holds Looking = 1"
| "worker_holds Reading = 1"
| "worker_holds (Popping x) = 1"
| "worker_holds Checking = 1"
| "worker_holds Asking = 1"
| "worker_holds Committed = 1"
| "worker_holds Broken = 1"
| "worker_holds _ = 0"

fun caller_holds :: "'i caller \<Rightarrow> int" where
  "caller_holds (Pushing x b) = 1"
| "caller_holds (Notifying b) = 1"
| "caller_holds _ = 0"

fun in_flight :: "'i caller \<Rightarrow> int" where
  "in_flight (Passed x b) = 1"
| "in_flight (Pushing x b) = 1"
| "in_flight _ = 0"

definition census :: "('i caller \<Rightarrow> int) \<Rightarrow> 'i caller list \<Rightarrow> int" where
  "census f cs = sum_list (map f cs)"

lemma census_split:
  "i < length cs \<Longrightarrow> census f cs = census f (take i cs) + f (cs ! i) + census f (drop (Suc i) cs)"
  unfolding census_def
  by (metis (no_types, lifting) id_take_nth_drop map_append sum_list.append list.map(2) sum_list.Cons add.assoc)

lemma census_update [simp]:
  "i < length cs \<Longrightarrow> census f (cs[i := c]) = census f cs - f (cs ! i) + f c"
  using census_split [of i cs f] census_split [of i "cs[i := c]" f] by simp

lemma census_bounds:
  assumes "\<And>c. 0 \<le> f c" "\<And>c. f c \<le> 1"
  shows "0 \<le> census f cs" "census f cs \<le> int (length cs)" "i < length cs \<Longrightarrow> f (cs ! i) \<le> census f cs"
proof -
  have nonneg: "0 \<le> census f cs" for cs unfolding census_def using assms(1) by (induction cs) simp_all
  then show "0 \<le> census f cs" .
  show "census f cs \<le> int (length cs)"
    unfolding census_def using assms(2) by (induction cs) (simp_all add: add_mono add.commute)
  assume "i < length cs"
  then show "f (cs ! i) \<le> census f cs"
    using census_split [of i cs f] nonneg [of "take i cs"] nonneg [of "drop (Suc i) cs"] by simp
qed

lemma caller_range: "0 \<le> caller_holds c" "caller_holds c \<le> 1" "0 \<le> in_flight c" "in_flight c \<le> 1"
  by (cases c; simp)+

lemmas holders = census_bounds [of caller_holds, OF caller_range(1,2)]
lemmas flying = census_bounds [of in_flight, OF caller_range(3,4)]

lemma worker_holds_wake [simp]: "worker_holds (wake w) = worker_holds w"
  by (simp add: wake_def)

lemma worker_holds_range: "0 \<le> worker_holds w"
  by (cases w) simp_all

text \<open>The mutex is held by at most one thread, and then it is marked so.\<close>

definition mutex_ok :: "'i system \<Rightarrow> bool" where
  "mutex_ok s \<longleftrightarrow> worker_holds (worker s) + census caller_holds (clients s) = (if mutex_held s then 1 else 0)"

lemma mutex_step:
  assumes "step a s s'" "mutex_ok s"
  shows "mutex_ok s'"
proof -
  have "0 \<le> worker_holds (worker s)" "0 \<le> census caller_holds (clients s)"
    by (rule worker_holds_range, rule holders)
  with assms show ?thesis
  proof (induction a s s' rule: step.induct)
    case (client_notify i s b)
    then show ?case using holders(3) [of i "clients s"] by (auto simp: mutex_ok_def split: if_splits)
  qed (auto simp: mutex_ok_def split: if_splits list.splits)
qed

lemma mutex_excludes:
  assumes "mutex_ok s" "i < length (clients s)" "caller_holds (clients s ! i) = 1"
  shows "worker_holds (worker s) = 0"
  using assms holders(3) [OF assms(2)] worker_holds_range [of "worker s"] by (auto simp: mutex_ok_def split: if_splits)

text \<open>The flags follow the stopping thread, and the callback stays set.\<close>

abbreviation emptied :: "'i system \<Rightarrow> bool" where
  "emptied s \<equiv> stopper s \<in> {Emptied, Joining, Joined}"

definition flags_ok :: "'i system \<Rightarrow> bool" where
  "flags_ok s \<longleftrightarrow> callback_set (shared s) \<and> stop_requested (shared s) = (stopper s \<noteq> Not_stopping) \<and>
     stopping (shared s) = (stopper s \<notin> {Not_stopping, Requested}) \<and> joinable (shared s) = (stopper s \<noteq> Joined)"

lemma flags_step: "step a s s' \<Longrightarrow> flags_ok s \<Longrightarrow> flags_ok s'"
  by (induction a s s' rule: step.induct) (auto simp: flags_ok_def deliver_def)

text \<open>Every client that is past the guard may still push.\<close>

definition bound_ok :: "'i system \<Rightarrow> bool" where
  "bound_ok s \<longleftrightarrow> int (length (items (shared s))) + census in_flight (clients s) \<le> int (max_queue_depth + length (clients s))"

lemma bound_step: "step a s s' \<Longrightarrow> bound_ok s \<Longrightarrow> bound_ok s'"
proof (induction a s s' rule: step.induct)
  case (client_size i s x b)
  then show ?case
    using flying(2) [of "(clients s)[i := Passed x b]"] by (auto simp: bound_ok_def)
next
  case (stop_empty s)
  then show ?case using flying(2) [of "clients s"] by (simp add: bound_ok_def)
qed (auto simp: bound_ok_def deliver_def)

section \<open>What the worker knows\<close>

definition worker_ok :: "'i system \<Rightarrow> bool" where
  "worker_ok s \<longleftrightarrow> (case worker s of
       Reading \<Rightarrow> emptied s \<or> items (shared s) \<noteq> []
     | Popping x \<Rightarrow> emptied s \<and> items (shared s) = [] \<or> (\<exists>xs. items (shared s) = x # xs)
     | Asking \<Rightarrow> items (shared s) = []
     | Committed \<Rightarrow> items (shared s) = []
     | Sleeping \<Rightarrow> items (shared s) = [] \<or> silent s \<or> Notifying True \<in> set (clients s)
     | Broken \<Rightarrow> emptied s
     | _ \<Rightarrow> True)"

lemma others_stay [intro]: "x \<in> set cs \<Longrightarrow> cs ! i \<noteq> x \<Longrightarrow> x \<in> set (cs[i := c])"
  by (metis in_set_conv_nth length_list_update nth_list_update_neq)

lemma worker_ok_step:
  assumes "step a s s'" "mutex_ok s" "worker_ok s"
  shows "worker_ok s'"
  using assms
proof (induction a s s' rule: step.induct)
  case (client_push i s x b)
  have "worker_holds (worker s) = 0" using mutex_excludes [of s i] client_push by simp
  then show ?case using client_push by (cases "worker s") (auto simp: worker_ok_def set_update_memI)
next
  case (client_notify i s b)
  have w: "worker_holds (worker s) = 0" using mutex_excludes [of s i] client_notify by simp
  show ?case
  proof (cases "worker s = Sleeping \<and> \<not> b")
    case True
    then have "clients s ! i \<noteq> Notifying True" using client_notify.hyps(2) by simp
    then show ?thesis using client_notify True by (auto simp: worker_ok_def)
  next
    case False
    then show ?thesis
      using client_notify w by (cases "worker s") (auto simp: worker_ok_def wake_def)
  qed
qed (auto simp: worker_ok_def wake_def deliver_def split: worker.splits list.splits)

section \<open>Order and loss\<close>

fun in_hand :: "'i worker \<Rightarrow> 'i list" where
  "in_hand (Delivering x) = [x]"
| "in_hand _ = []"

lemma in_hand_wake [simp]: "in_hand (wake w) = in_hand w"
  by (simp add: wake_def)

lemma length_in_hand: "length (in_hand w) \<le> 1"
  by (cases w) simp_all

abbreviation here :: "'i system \<Rightarrow> 'i list" where
  "here s \<equiv> delivered (shared s) @ in_hand (worker s) @ items (shared s)"

definition order_ok :: "'i system \<Rightarrow> bool" where
  "order_ok s \<longleftrightarrow> (if emptied s then subseq (here s) (accepted s) else accepted s = here s)"

lemma order_step:
  assumes "step a s s'" "flags_ok s" "worker_ok s" "order_ok s"
  shows "order_ok s'"
  using assms
proof (induction a s s' rule: step.induct)
  case (worker_pop s x y ys)
  then show ?case by (auto simp: order_ok_def worker_ok_def)
next
  case (client_push i s x b)
  then show ?case by (auto simp: order_ok_def list_emb_append_mono subseq_append' simp flip: append_assoc)
next
  case (stop_empty s)
  have "subseq (delivered (shared s) @ in_hand (worker s)) (here s)"
    using list_emb_prefix [OF subseq_order.order_refl, of "delivered (shared s) @ in_hand (worker s)" "items (shared s)"] by simp
  then show ?case using stop_empty by (simp add: order_ok_def)
qed (auto simp: order_ok_def flags_ok_def deliver_def split: list.splits)


lemma reachable_ok: "reachable s \<Longrightarrow> mutex_ok s \<and> flags_ok s \<and> bound_ok s \<and> worker_ok s \<and> order_ok s"
proof (induction rule: reachable.induct)
  case (initial s)
  have "list_all (\<lambda>c. c = Idle) cs \<Longrightarrow> census caller_holds cs = 0 \<and> census in_flight cs = 0" for cs :: "'i caller list"
    by (induction cs) (simp_all add: census_def)
  then show ?case
    using initial by (auto simp: started_def queue_ready_def mutex_ok_def flags_ok_def bound_ok_def worker_ok_def order_ok_def)
next
  case (later s a s')
  then show ?case using mutex_step flags_step bound_step worker_ok_step order_step by blast
qed

lemma clients_step: "step a s s' \<Longrightarrow> length (clients s') = length (clients s)"
  by (induction a s s' rule: step.induct) simp_all

lemma queue_bound: "reachable s \<Longrightarrow> length (items (shared s)) \<le> max_queue_depth + length (clients s)"
  using reachable_ok [of s] flying(1) [of "clients s"] by (auto simp: bound_ok_def)


section \<open>Refinement of an abstract queue\<close>

text \<open>
  What a user may expect, without threads and flags: items that wait, items that came out, and one
  stop that throws waiting items away, except that the first may already be on its way out.
\<close>

record 'i fifo =
  waiting :: "'i list"
  came_out :: "'i list"
  discarded :: bool

inductive fifo_step :: "nat \<Rightarrow> 'i fifo \<Rightarrow> 'i fifo \<Rightarrow> bool" for cap where
  put: "length (waiting f) \<le> cap \<Longrightarrow> fifo_step cap f (f\<lparr>waiting := waiting f @ [x]\<rparr>)"
| get: "waiting f = x # xs \<Longrightarrow> fifo_step cap f (f\<lparr>waiting := xs, came_out := came_out f @ [x]\<rparr>)"
| discard: "waiting f = kept @ thrown \<Longrightarrow> length kept \<le> 1 \<Longrightarrow> \<not> discarded f \<Longrightarrow>
    fifo_step cap f (f\<lparr>waiting := kept, discarded := True\<rparr>)"

inductive fifo_run :: "nat \<Rightarrow> 'i fifo \<Rightarrow> bool" for cap where
  empty: "fifo_run cap \<lparr>waiting = [], came_out = [], discarded = False\<rparr>"
| further: "fifo_run cap f \<Longrightarrow> fifo_step cap f g \<Longrightarrow> fifo_run cap g"

definition abs_queue :: "'i system \<Rightarrow> 'i fifo" where
  "abs_queue s = \<lparr>waiting = in_hand (worker s) @ items (shared s), came_out = delivered (shared s), discarded = emptied s\<rparr>"

lemma step_simulated:
  "step a s s' \<Longrightarrow> flags_ok s \<Longrightarrow> bound_ok s \<Longrightarrow> worker_ok s \<Longrightarrow>
    fifo_step (max_queue_depth + length (clients s)) (abs_queue s) (abs_queue s') \<or> abs_queue s' = abs_queue s"
proof (induction a s s' rule: step.induct)
  case (worker_deliver s x)
  then have "abs_queue (s\<lparr>worker := Relocking, shared := deliver x (shared s)\<rparr>) =
      (abs_queue s)\<lparr>waiting := items (shared s), came_out := came_out (abs_queue s) @ [x]\<rparr>"
    by (simp add: abs_queue_def deliver_def flags_ok_def)
  moreover have "waiting (abs_queue s) = x # items (shared s)" using worker_deliver.hyps by (simp add: abs_queue_def)
  ultimately show ?case using fifo_step.get by metis
next
  case (client_push i s x b)
  let ?s = "becomes i (Notifying b) s\<lparr>shared := (shared s)\<lparr>items := items (shared s) @ [x]\<rparr>,
      accepted := accepted s @ [x], silent := silent s \<or> \<not> b\<rparr>"
  have "in_flight (clients s ! i) = 1" using client_push.hyps by simp
  then have "length (items (shared s)) < max_queue_depth + length (clients s)"
    using client_push.prems(2) flying(3) [OF client_push.hyps(1)] by (simp add: bound_ok_def)
  then have "length (waiting (abs_queue s)) \<le> max_queue_depth + length (clients s)"
    using length_in_hand [of "worker s"] by (simp add: abs_queue_def)
  moreover have "abs_queue ?s = (abs_queue s)\<lparr>waiting := waiting (abs_queue s) @ [x]\<rparr>"
    by (simp add: abs_queue_def)
  ultimately show ?case using fifo_step.put by metis
next
  case (stop_empty s)
  have "waiting (abs_queue s) = in_hand (worker s) @ items (shared s)" "\<not> discarded (abs_queue s)"
    using stop_empty.hyps by (simp_all add: abs_queue_def)
  from fifo_step.discard [OF this(1) length_in_hand this(2)] show ?case by (simp add: abs_queue_def)
qed (auto simp: abs_queue_def worker_ok_def split: list.splits)

lemma fifo_run_of: "reachable s \<Longrightarrow> fifo_run (max_queue_depth + length (clients s)) (abs_queue s)"
proof (induction rule: reachable.induct)
  case (initial s)
  then show ?case using fifo_run.empty by (simp add: started_def abs_queue_def)
next
  case (later s a s')
  then show ?case using step_simulated reachable_ok clients_step fifo_run.further by metis
qed


section \<open>Schedules\<close>

definition start_state :: "nat \<Rightarrow> 'i system" where
  "start_state n = \<lparr>shared = start_queue (set_dequeue_callback True fresh_queue), mutex_held = False, worker = Testing,
     clients = replicate n Idle, stopper = Not_stopping, accepted = [], silent = False\<rparr>"

lemma started_start: "started (start_state n)"
  by (simp add: started_def start_state_def queue_life set_dequeue_callback_def fresh_queue_def queue_ready_def list_all_iff)



text \<open>The next step of each thread as a function; a thread that must wait stays where it is.\<close>

fun worker_turn :: "'i system \<Rightarrow> 'i system" where
  "worker_turn s = (case worker s of
       Testing \<Rightarrow> s\<lparr>worker := if stop_requested (shared s) then Exited else Locking\<rparr>
     | Locking \<Rightarrow> if mutex_held s then s else s\<lparr>worker := Looking, mutex_held := True\<rparr>
     | Looking \<Rightarrow> if items (shared s) = [] then s\<lparr>worker := Relocking, mutex_held := False\<rparr> else s\<lparr>worker := Reading\<rparr>
     | Reading \<Rightarrow> s\<lparr>worker := (case items (shared s) of [] \<Rightarrow> Broken | x # xs \<Rightarrow> Popping x)\<rparr>
     | Popping x \<Rightarrow> (case items (shared s) of [] \<Rightarrow> s\<lparr>worker := Broken\<rparr>
         | y # ys \<Rightarrow> s\<lparr>worker := Delivering x, mutex_held := False, shared := (shared s)\<lparr>items := ys\<rparr>\<rparr>)
     | Delivering x \<Rightarrow> s\<lparr>worker := Relocking, shared := deliver x (shared s)\<rparr>
     | Relocking \<Rightarrow> if mutex_held s then s else s\<lparr>worker := Checking, mutex_held := True\<rparr>
     | Checking \<Rightarrow> if items (shared s) = [] then s\<lparr>worker := Asking\<rparr> else s\<lparr>worker := Testing, mutex_held := False\<rparr>
     | Asking \<Rightarrow> if stop_requested (shared s) then s\<lparr>worker := Testing, mutex_held := False\<rparr> else s\<lparr>worker := Committed\<rparr>
     | Committed \<Rightarrow> s\<lparr>worker := Sleeping, mutex_held := False\<rparr>
     | Woken \<Rightarrow> if mutex_held s then s else s\<lparr>worker := Testing\<rparr>
     | _ \<Rightarrow> s)"

fun stopper_turn :: "'i system \<Rightarrow> 'i system" where
  "stopper_turn s = (case stopper s of
       Not_stopping \<Rightarrow> if joinable (shared s) \<and> \<not> stop_requested (shared s)
         then s\<lparr>stopper := Requested, shared := (shared s)\<lparr>stop_requested := True\<rparr>\<rparr> else s
     | Requested \<Rightarrow> s\<lparr>stopper := Closing, shared := (shared s)\<lparr>stopping := True\<rparr>\<rparr>
     | Closing \<Rightarrow> s\<lparr>stopper := Emptied, shared := (shared s)\<lparr>items := []\<rparr>\<rparr>
     | Emptied \<Rightarrow> s\<lparr>stopper := Joining, worker := wake (worker s)\<rparr>
     | Joining \<Rightarrow> if worker s = Exited then s\<lparr>stopper := Joined, shared := (shared s)\<lparr>joinable := False\<rparr>\<rparr> else s
     | Joined \<Rightarrow> s)"

text \<open>A client that is idle calls \<open>enqueue\<close> with the given arguments.\<close>

fun client_turn :: "nat \<Rightarrow> 'i \<Rightarrow> bool \<Rightarrow> 'i system \<Rightarrow> 'i system" where
  "client_turn i x b s =
     (if i < length (clients s) then (case clients s ! i of
       Idle \<Rightarrow> becomes i (if stopping (shared s) then Idle else Test_callback x b) s
     | Test_callback x b \<Rightarrow> becomes i (if callback_set (shared s) then Test_thread x b else Idle) s
     | Test_thread x b \<Rightarrow> becomes i (if joinable (shared s) then Test_size x b else Idle) s
     | Test_size x b \<Rightarrow> becomes i (if length (items (shared s)) > max_queue_depth then Idle else Passed x b) s
     | Passed x b \<Rightarrow> if mutex_held s then s else becomes i (Pushing x b) s\<lparr>mutex_held := True\<rparr>
     | Pushing x b \<Rightarrow> becomes i (Notifying b) s\<lparr>shared := (shared s)\<lparr>items := items (shared s) @ [x]\<rparr>,
         accepted := accepted s @ [x], silent := silent s \<or> \<not> b\<rparr>
     | Notifying b \<Rightarrow> becomes i Idle s\<lparr>worker := if b then wake (worker s) else worker s, mutex_held := False\<rparr>) else s)"

declare worker_turn.simps [simp del] stopper_turn.simps [simp del] client_turn.simps [simp del]

lemma worker_turn_step: "worker_turn s = s \<or> step Worker s (worker_turn s)"
  by (cases "worker s"; cases "items (shared s)") (auto simp: worker_turn.simps worker_step)

lemma stopper_turn_step: "stopper_turn s = s \<or> step Stopper s (stopper_turn s)"
  by (cases "stopper s") (auto simp: stopper_turn.simps stopper_step)

lemma client_turn_step: "client_turn i x b s = s \<or> step (Client i) s (client_turn i x b s)"
  by (cases "clients s ! i") (auto simp: client_turn.simps client_step)

lemma reachable_turn:
  assumes "reachable s"
  shows "reachable (worker_turn s)" "reachable (stopper_turn s)" "reachable (client_turn i x b s)"
  using assms worker_turn_step [of s] stopper_turn_step [of s] client_turn_step [of i x b s]
  by (metis reachable.later)+

lemma reachable_turns: "reachable s \<Longrightarrow> reachable ((client_turn i x b ^^ n) s)"
  by (induction n) (simp_all add: reachable_turn)

lemmas turns = worker_turn.simps stopper_turn.simps client_turn.simps start_state_def queue_life
  set_dequeue_callback_def fresh_queue_def wake_def max_queue_depth_def

section \<open>An undisturbed call\<close>

text \<open>Seven steps of a client without a step of another thread between them are the member function.\<close>

lemma client_alone:
  assumes "i < length (clients s)" "clients s ! i = Idle" "\<not> mutex_held s" "enqueue x (shared s) \<noteq> shared s"
  shows "(client_turn i x b ^^ 7) s = s\<lparr>shared := enqueue x (shared s), worker := if b then wake (worker s) else worker s,
     accepted := accepted s @ [x], silent := silent s \<or> \<not> b\<rparr>"
proof -
  have "\<not> stopping (shared s)" "callback_set (shared s)" "joinable (shared s)" "length (items (shared s)) \<le> max_queue_depth"
    using assms(4) by (auto simp: enqueue_def split: if_splits)
  moreover have "(clients s)[i := Idle] = clients s" using assms(2) by (metis list_update_id)
  ultimately show ?thesis
    using assms(1-3) by (simp add: numeral_eq_Suc client_turn.simps enqueue_def)
qed

lemma client_alone_frame:
  assumes "reachable s" "i < length (clients s)" "clients s ! i = Idle" "\<not> mutex_held s" "stopper s = Not_stopping"
    "length (items (shared s)) \<le> max_queue_depth"
  shows "reachable ((client_turn i x b ^^ 7) s)" "enqueue x (shared s) = (shared s)\<lparr>items := items (shared s) @ [x]\<rparr>"
  using reachable_turns [OF assms(1)] reachable_ok [OF assms(1)] assms(5,6)
  by (auto simp: flags_ok_def enqueue_def)

section \<open>Past the limit\<close>

text \<open>Before the worker runs, one client can fill the queue to any size up to 10,001.\<close>

lemma fill_queue:
  "k \<le> max_queue_depth + 1 \<Longrightarrow> \<exists>s :: 'i system. reachable s \<and> clients s = [Idle, Idle] \<and> \<not> mutex_held s \<and>
     stopper s = Not_stopping \<and> length (items (shared s)) = k"
proof (induction k)
  case 0
  show ?case
    by (rule exI [of _ "start_state 2"])
      (simp add: initial started_start, simp add: start_state_def queue_life set_dequeue_callback_def fresh_queue_def numeral_eq_Suc)
next
  case (Suc k)
  then obtain s :: "'i system" where s: "reachable s" "clients s = [Idle, Idle]" "\<not> mutex_held s"
      "stopper s = Not_stopping" "length (items (shared s)) = k" by auto
  note run = client_alone_frame [of s 0] client_alone [of 0 s]
  have "enqueue undefined (shared s) = (shared s)\<lparr>items := items (shared s) @ [undefined]\<rparr>"
    using run(2) s Suc.prems by simp
  moreover from this have "enqueue undefined (shared s) \<noteq> shared s"
    by (metis append_self_conv list.distinct(1) threaded_queue.select_convs(2) threaded_queue.surjective threaded_queue.update_convs(2))
  ultimately have "(client_turn 0 undefined True ^^ 7) s = s\<lparr>shared := (shared s)\<lparr>items := items (shared s) @ [undefined]\<rparr>,
      worker := wake (worker s), accepted := accepted s @ [undefined], silent := silent s\<rparr>" (is "_ = ?s")
    using run(3) [of undefined True] s by simp
  moreover have "reachable ((client_turn 0 undefined True ^^ 7) s)" using run(1) s Suc.prems by simp
  ultimately have "reachable ?s" by simp
  then show ?case using s by (intro exI [of _ ?s]) simp
qed

text \<open>
  Two clients that both test the size when 10,000 items wait put the queue at 10,002 items, one more than
  the guard of \<open>enqueue\<close> lets a single client reach: the bound is attained.
\<close>

theorem queue_passes_limit:
  "\<exists>s :: 'i system. reachable s \<and> length (clients s) = 2 \<and> length (items (shared s)) = 10002"
proof -
  obtain s :: "'i system" where s: "reachable s" "clients s = [Idle, Idle]" "\<not> mutex_held s"
      "stopper s = Not_stopping" "length (items (shared s)) = max_queue_depth"
    using fill_queue [of max_queue_depth] by auto
  have f: "\<not> stopping (shared s)" "callback_set (shared s)" "joinable (shared s)"
    using reachable_ok [OF s(1)] s(4) by (auto simp: flags_ok_def)
  let ?c0 = "client_turn 0 (undefined :: 'i) True" and ?c1 = "client_turn 1 (undefined :: 'i) True"
  let ?s = "(?c1 ^^ 3) ((?c0 ^^ 3) ((?c1 ^^ 4) ((?c0 ^^ 4) s)))"
  have "reachable ?s" using s(1) by (intro reachable_turns)
  moreover have "length (clients ?s) = 2 \<and> length (items (shared ?s)) = 10002"
    using s f by (simp add: numeral_eq_Suc client_turn.simps) (simp add: max_queue_depth_def)
  ultimately show ?thesis by blast
qed

section \<open>Stopping\<close>

text \<open>
  C15: stopping a queue that still works is undefined behaviour in some interleaving: the worker sees an item, the
  stopping thread, which does not take the mutex, swaps the queue for an empty one, and the worker
  reads the front of that.
\<close>

theorem stop_breaks_worker:
  "\<exists>s :: 'i system. reachable s \<and> length (clients s) = 1 \<and> worker s = Broken"
proof -
  let ?s1 = "(client_turn 0 undefined True ^^ 7) (start_state 1 :: 'i system)"
  let ?s2 = "worker_turn (worker_turn (worker_turn ?s1))"
  let ?s = "worker_turn (stopper_turn (stopper_turn (stopper_turn ?s2)))"
  have "reachable ?s" by (intro reachable_turn reachable_turns initial started_start)
  moreover have "length (clients ?s) = 1 \<and> worker ?s = Broken"
    by (simp add: numeral_eq_Suc turns)
  ultimately show ?thesis by blast
qed

text \<open>
  The schedule that loses the notification: the worker tests, finds no item, sees no stop request and decides to
  wait; the stopping thread then requests the stop, empties the queue and notifies; only now does the
  worker go to sleep.
\<close>

definition stuck_state :: "'i system" where
  "stuck_state = worker_turn ((stopper_turn ^^ 4) ((worker_turn ^^ 6) (start_state 1)))"

lemma stuck_state:
  "worker stuck_state = Sleeping" "stopper stuck_state = Joining" "stopping (shared stuck_state)"
  "list_all (\<lambda>c. c = Idle) (clients stuck_state)"
  by (simp_all add: stuck_state_def numeral_eq_Suc turns)

lemma reachable_stuck: "reachable stuck_state"
proof -
  have "reachable ((worker_turn ^^ n) s)" "reachable ((stopper_turn ^^ n) s)" if "reachable s" for n and s :: "'i system"
    using that by (induction n) (simp_all add: reachable_turn)
  then show ?thesis unfolding stuck_state_def using initial [OF started_start] reachable_turn(1) by blast
qed

lemma stuck_steps:
  assumes "worker s = Sleeping" "stopper s = Joining" "stopping (shared s)" "list_all (\<lambda>c. c = Idle) (clients s)"
    and "step a s s'"
  shows "a = Spurious \<or> s' = s"
  using assms(5)
proof (cases rule: step.cases)
  case (client_call i x b)
  then have "(clients s)[i := Idle] = clients s" by (metis list_update_id)
  then show ?thesis using client_call assms(3) by simp
qed (use assms in \<open>auto simp: list_all_length\<close>)

text \<open>
  C40: \<open>stop()\<close> can hang: an interleaving of the worker and the stopping thread reaches a state in
  which the worker sleeps, the stopping thread waits to join it, and no step of the worker, of a
  client or of the stopping thread changes anything any more (the notification came between the
  worker's test and its wait, because it is sent without the mutex).
\<close>

theorem queue_stop_can_hang:
  "\<exists>s :: 'i system. reachable s \<and> worker s = Sleeping \<and> stopper s = Joining \<and>
     \<not> (\<exists>a s'. step a s s' \<and> a \<noteq> Spurious \<and> s' \<noteq> s)"
proof (intro exI conjI notI)
  show "reachable (stuck_state :: 'i system)" by (rule reachable_stuck)
  show "worker (stuck_state :: 'i system) = Sleeping" "stopper (stuck_state :: 'i system) = Joining"
    by (simp_all add: stuck_state)
  assume "\<exists>a s'. step a stuck_state s' \<and> a \<noteq> Spurious \<and> s' \<noteq> (stuck_state :: 'i system)"
  then show False using stuck_steps [OF stuck_state] by blast
qed

end
