(* ===== verification/Tcp_Socket.thy ===== *)
theory Tcp_Socket
  imports IP_Address
begin

text \<open>
  \<open>cpp_17/network/tcp_socket.h\<close> and \<open>.cpp\<close>.  The operating system's calls are not part of the
  program: they are fields of \<open>os_calls\<close>, functions of an environment state \<open>'s\<close>.  The member
  \<open>sock\<close> is atomic and other threads close it, so the test inside the receive loop reads it
  through the environment (\<open>sock_seen\<close>).
\<close>

datatype recv_result = Received "byte list" | Peer_closed | Recv_failed
datatype send_result = Sent nat | Send_failed u32
datatype socket_option = Reuse_address | Linger | Receive_timeout u32 | Send_timeout u32

record 's os_calls =
  sys_socket :: "'s \<Rightarrow> int \<times> 's"
  sys_setsockopt :: "int \<Rightarrow> socket_option \<Rightarrow> 's \<Rightarrow> bool \<times> 's"
  sys_connect :: "int \<Rightarrow> string \<Rightarrow> u16 \<Rightarrow> 's \<Rightarrow> bool \<times> 's"
  sys_send :: "int \<Rightarrow> byte list \<Rightarrow> 's \<Rightarrow> send_result \<times> 's"
  sys_recv :: "int \<Rightarrow> int \<Rightarrow> bool \<Rightarrow> 's \<Rightarrow> recv_result \<times> 's"
  sys_shutdown :: "int \<Rightarrow> 's \<Rightarrow> 's"
  sys_close :: "int \<Rightarrow> 's \<Rightarrow> bool \<times> 's"
  sock_seen :: "'s \<Rightarrow> int"

datatype close_option = Do_not_shutdown | Shutdown
datatype receive_option = Consume | Peek

record tcp_socket =
  sock :: int
  destination :: ip_address
  port :: u16
  sin_port :: u16

definition make_socket :: "ip_address \<Rightarrow> u16 \<Rightarrow> tcp_socket" where
  "make_socket dest prt = \<lparr>sock = - 1, destination = dest, port = prt, sin_port = 0\<rparr>"

definition socket_valid :: "tcp_socket \<Rightarrow> bool" where
  "socket_valid t \<longleftrightarrow> sock t \<noteq> - 1"

definition destroy_socket :: "'s os_calls \<Rightarrow> tcp_socket \<Rightarrow> 's \<Rightarrow> 's" where
  "destroy_socket os t s = (if socket_valid t then snd (sys_close os (sock t) s) else s)"

definition create_socket :: "'s os_calls \<Rightarrow> u32 \<Rightarrow> tcp_socket \<Rightarrow> 's \<Rightarrow> bool \<times> tcp_socket \<times> 's" where
  "create_socket os receive_timeout t s =
     (let (fd, s1) = sys_socket os s;
          t1 = t\<lparr>sock := fd\<rparr>
      in if \<not> socket_valid t1 then (False, t1, s1)
      else (let (ok1, s2) = sys_setsockopt os fd Reuse_address s1 in
        if \<not> ok1 then (False, t1, s2)
        else (let (ok2, s3) = sys_setsockopt os fd Linger s2 in
          if \<not> ok2 then (False, t1, s3)
          else (let s4 = (if 0 < receive_timeout
                          then snd (sys_setsockopt os fd (Receive_timeout receive_timeout) s3) else s3)
            in (True, t1, s4)))))"

definition set_send_timeout :: "'s os_calls \<Rightarrow> u32 \<Rightarrow> tcp_socket \<Rightarrow> 's \<Rightarrow> 's" where
  "set_send_timeout os send_timeout t s =
     (if 0 < send_timeout then snd (sys_setsockopt os (sock t) (Send_timeout send_timeout) s) else s)"

definition connect_socket :: "'s os_calls \<Rightarrow> tcp_socket \<Rightarrow> 's \<Rightarrow> bool \<times> tcp_socket \<times> 's" where
  "connect_socket os t s =
     (if \<not> socket_valid t then (False, t, s)
      else (let t1 = t\<lparr>sin_port := htons (port t)\<rparr>;
                (ok, s1) = sys_connect os (sock t) (ip_to_string (destination t)) (sin_port t1) s
            in (ok, t1, s1)))"

text \<open>A short count of \<open>send\<close> is taken as success.\<close>

definition send_socket :: "'s os_calls \<Rightarrow> tcp_socket \<Rightarrow> byte list \<Rightarrow> 's \<Rightarrow> u32 \<times> 's" where
  "send_socket os t bytes s =
     (case sys_send os (sock t) bytes s of
        (Send_failed errno, s1) \<Rightarrow> (errno, s1)
      | (Sent n, s1) \<Rightarrow> (0, s1))"

text \<open>
  The loop of \<open>receive\<close>: the result, the bytes appended to \<open>data\<close> and the environment.  A
  positive status is the number of bytes in the buffer.
\<close>

function receive_loop ::
    "'s os_calls \<Rightarrow> tcp_socket \<Rightarrow> int \<Rightarrow> bool \<Rightarrow> int \<Rightarrow> byte list \<Rightarrow> 's \<Rightarrow> u32 \<times> byte list \<times> 's" where
  "receive_loop os t bytes_to_read peek bytes_read acc s =
     (if bytes_read < bytes_to_read then
        (case sys_recv os (sock t) (bytes_to_read - bytes_read) peek s of
           (Received bs, s1) \<Rightarrow>
             if bs = [] then (0, acc, s1)
             else if sock_seen os s1 = - 1 then (0, acc @ bs, s1)
             else receive_loop os t bytes_to_read peek (bytes_read + int (length bs)) (acc @ bs) s1
         | (_, s1) \<Rightarrow> (0, acc, s1))
      else (of_int bytes_read, acc, s))"
  by pat_completeness auto

termination
proof (relation "measure (\<lambda>(os, t, n, p, r, acc, s). nat (n - r))")
  fix bs :: "byte list" and n r :: int
  assume "r < n" "bs \<noteq> []"
  then show "((os, t, n, p, r + int (length bs), acc @ bs, s1), os, t, n, p, r, acc, s)
      \<in> measure (\<lambda>(os, t, n, p, r, acc, s). nat (n - r))" for os t p acc s1 s
    by (cases bs) auto
qed simp

declare receive_loop.simps [simp del]

text \<open>
  Without a byte to read the status is read uninitialised: undefined behaviour.  \<open>bytes_to_read\<close> is a
  \<open>std::int32_t\<close>: a caller that has another type converts where it calls (\<open>handle_data\<close> does).
\<close>

definition receive ::
    "'s os_calls \<Rightarrow> tcp_socket \<Rightarrow> int \<Rightarrow> receive_option \<Rightarrow> 's \<Rightarrow> (u32 \<times> byte list \<times> 's) option" where
  "receive os t bytes_to_read opt s =
     (if bytes_to_read \<le> 0 then None
      else Some (receive_loop os t bytes_to_read (opt = Peek) 0 [] s))"

definition close_socket :: "'s os_calls \<Rightarrow> close_option \<Rightarrow> tcp_socket \<Rightarrow> 's \<Rightarrow> bool \<times> tcp_socket \<times> 's" where
  "close_socket os opt t s =
     (if \<not> socket_valid t then (False, t, s)
      else (let s1 = (if opt = Shutdown then sys_shutdown os (sock t) s else s);
                (ok, s2) = sys_close os (sock t) s1
            in if \<not> ok then (False, t, s2) else (True, t\<lparr>sock := - 1\<rparr>, s2)))"

section \<open>The interface of a stream socket\<close>

text \<open>
  What \<open>recv\<close> is documented to do on a stream: without the peek flag it hands over the first
  bytes of what is pending, at most as many as asked for, and removes them; with the flag it
  hands them over and leaves them.
\<close>

locale stream_socket =
  fixes os :: "'s os_calls" and fd :: int and pending :: "'s \<Rightarrow> byte list"
  assumes consume: "sys_recv os fd n False s = (Received bs, s1) \<Longrightarrow>
      pending s = bs @ pending s1 \<and> int (length bs) \<le> n"
    and look: "sys_recv os fd n True s = (Received bs, s1) \<Longrightarrow>
      s1 = s \<and> int (length bs) \<le> n \<and> (\<exists>rest. pending s = bs @ rest)"
begin

text \<open>A completed read has consumed exactly the next bytes of the stream.\<close>

lemma consume_loop:
  assumes "receive_loop os t n False r acc s = (res, d, s1)" "sock t = fd" "0 \<le> r" "r \<le> n"
    "res \<noteq> 0" "n < 2 ^ 32"
  shows "\<exists>bs. d = acc @ bs \<and> pending s = bs @ pending s1 \<and> r + int (length bs) = n \<and> res = of_int n"
  using assms(1,3,4)
proof (induction "nat (n - r)" arbitrary: r acc s rule: less_induct)
  case less
  show ?case
  proof (cases "r < n")
    case False
    then show ?thesis using less.prems by (simp add: receive_loop.simps [of os t n])
  next
    case True
    obtain x s2 where x: "sys_recv os fd (n - r) False s = (x, s2)" by fastforce
    then obtain bs where bs: "x = Received bs" "bs \<noteq> []"
        and go: "receive_loop os t n False (r + int (length bs)) (acc @ bs) s2 = (res, d, s1)"
      using less.prems(1) True assms(2,5)
      by (cases x) (auto simp: receive_loop.simps [of os t n _ r] split: if_splits)
    have c: "pending s = bs @ pending s2" "int (length bs) \<le> n - r" using consume x bs(1) by blast+
    have "nat (n - (r + int (length bs))) < nat (n - r)" using True bs(2) by (cases bs) auto
    then obtain cs where "d = acc @ bs @ cs" "pending s2 = cs @ pending s1"
        "r + int (length bs) + int (length cs) = n" "res = of_int n"
      using less.hyps [OF _ go] less.prems(2) c(2) by auto
    then show ?thesis using c(1) by auto
  qed
qed

text \<open>A read reports what it was asked for, or 0.\<close>

lemma receive_consumes:
  assumes "receive os t n Consume s = Some (res, d, s1)" "sock t = fd" "res \<noteq> 0" "n < 2 ^ 32"
  shows "pending s = d @ pending s1 \<and> int (length d) = n \<and> res = of_int n"
proof -
  have "receive_loop os t n False 0 [] s = (res, d, s1)" "0 \<le> n"
    using assms(1) by (auto simp: receive_def split: if_splits)
  then show ?thesis using consume_loop [of t n 0 "[]" s res d s1] assms by auto
qed

text \<open>
  A peek that is answered whole shows the next bytes and leaves them.  (One that is answered in
  parts is not: the loop asks for the rest, and is shown the beginning again.)
\<close>

lemma receive_peeks:
  assumes "sys_recv os fd n True s = (Received bs, s1)" "int (length bs) = n" "0 < n"
    "sock t = fd" "sock_seen os s \<noteq> - 1"
  shows "receive os t n Peek s = Some (of_int n, bs, s)" and "\<exists>rest. pending s = bs @ rest"
proof -
  have l: "s1 = s" "\<exists>rest. pending s = bs @ rest" using look [OF assms(1)] by auto
  have "bs \<noteq> []" using assms(2,3) by auto
  then show "receive os t n Peek s = Some (of_int n, bs, s)"
    using assms l(1) by (simp add: receive_def receive_loop.simps [of os t n True 0]
        receive_loop.simps [of os t n True n])
  show "\<exists>rest. pending s = bs @ rest" by (rule l(2))
qed

lemma peek_part_repeats:
  assumes "sys_recv os fd 2 True s = (Received [b], s1)" "sys_recv os fd 1 True s = (Received [b], s1)"
    "sock t = fd" "sock_seen os s \<noteq> - 1"
  shows "receive os t 2 Peek s = Some (2, [b, b], s)"
  using look [OF assms(1)] assms
  by (simp add: receive_def receive_loop.simps [of os t 2 True 0] receive_loop.simps [of os t 2 True 1]
      receive_loop.simps [of os t 2 True 2])

end

section \<open>A stream that arrives in pieces\<close>

text \<open>
  An executable instance of the interface: the bytes arrive in pieces, a call of \<open>recv\<close> sees the
  piece at the front only, and the peer has closed when there is none.  The other calls succeed;
  what is sent is recorded.
\<close>

record stream =
  pieces :: "byte list list"
  sent :: "byte list"
  connects :: nat
  descriptor :: int

definition stream_recv :: "int \<Rightarrow> int \<Rightarrow> bool \<Rightarrow> stream \<Rightarrow> recv_result \<times> stream" where
  "stream_recv fd n peek s =
     (if n \<le> 0 then (Recv_failed, s)
      else case pieces s of
        [] \<Rightarrow> (Peer_closed, s)
      | c # cs \<Rightarrow> (Received (take (nat n) c),
          if peek then s
          else s\<lparr>pieces := if nat n < length c then drop (nat n) c # cs else cs\<rparr>))"

definition stream_os :: "stream os_calls" where
  "stream_os =
     \<lparr>sys_socket = (\<lambda>s. (descriptor s, s)),
      sys_setsockopt = (\<lambda>fd opt s. (True, s)),
      sys_connect = (\<lambda>fd host prt s. (True, s\<lparr>connects := connects s + 1\<rparr>)),
      sys_send = (\<lambda>fd bs s. (Sent (length bs), s\<lparr>sent := sent s @ bs\<rparr>)),
      sys_recv = stream_recv,
      sys_shutdown = (\<lambda>fd s. s),
      sys_close = (\<lambda>fd s. (True, s)),
      sock_seen = descriptor\<rparr>"

definition stream_pending :: "stream \<Rightarrow> byte list" where
  "stream_pending s = concat (pieces s)"

lemma sys_recv_stream [simp]: "sys_recv stream_os = stream_recv"
  and sock_seen_stream [simp]: "sock_seen stream_os = descriptor"
  by (simp_all add: stream_os_def)

interpretation piecewise: stream_socket stream_os fd stream_pending for fd
proof
  fix n s bs s1
  assume "sys_recv stream_os fd n False s = (Received bs, s1)"
  then show "stream_pending s = bs @ stream_pending s1 \<and> int (length bs) \<le> n"
    by (auto simp: stream_recv_def stream_pending_def split: if_splits list.splits)
next
  fix n s bs s1
  assume "sys_recv stream_os fd n True s = (Received bs, s1)"
  then have s: "s1 = s" "0 < n" and "\<exists>c cs. pieces s = c # cs \<and> bs = take (nat n) c"
    by (auto simp: stream_recv_def split: if_splits list.splits)
  then obtain c cs where "pieces s = c # cs" "bs = take (nat n) c" by blast
  then have "stream_pending s = bs @ (drop (nat n) c @ concat cs)" "int (length bs) \<le> n"
    using s(2) by (simp_all add: stream_pending_def)
  then show "s1 = s \<and> int (length bs) \<le> n \<and> (\<exists>rest. stream_pending s = bs @ rest)"
    using s(1) by blast
qed

lemma stream_loop_returns:
  assumes "list_all (\<lambda>c. c \<noteq> []) (pieces s)" "descriptor s \<noteq> - 1" "0 \<le> r" "r \<le> n"
    "n - r \<le> int (length (stream_pending s))" "n < 2 ^ 32"
  shows "\<exists>d s1. receive_loop stream_os t n False r acc s = (of_int n, d, s1) \<and>
    list_all (\<lambda>c. c \<noteq> []) (pieces s1) \<and> descriptor s1 = descriptor s"
  using assms
proof (induction "nat (n - r)" arbitrary: r acc s rule: less_induct)
  case less
  show ?case
  proof (cases "r < n")
    case False
    then show ?thesis using less.prems by (simp add: receive_loop.simps [of _ _ n])
  next
    case True
    then obtain c cs where c: "pieces s = c # cs" "c \<noteq> []"
      using less.prems(1,5) by (cases "pieces s") (auto simp: stream_pending_def)
    let ?bs = "take (nat (n - r)) c"
    let ?s1 = "s\<lparr>pieces := if nat (n - r) < length c then drop (nat (n - r)) c # cs else cs\<rparr>"
    have bs: "?bs \<noteq> []" "int (length ?bs) \<le> n - r" using c(2) True by auto
    have recv: "stream_recv (sock t) (n - r) False s = (Received ?bs, ?s1)"
      using True c(1) by (simp add: stream_recv_def)
    have go: "receive_loop stream_os t n False r acc s =
        receive_loop stream_os t n False (r + int (length ?bs)) (acc @ ?bs) ?s1"
      using True recv bs(1) less.prems(2) by (simp add: receive_loop.simps [of _ _ n _ r])
    have "\<exists>d s2. receive_loop stream_os t n False (r + int (length ?bs)) (acc @ ?bs) ?s1 = (of_int n, d, s2) \<and>
        list_all (\<lambda>c. c \<noteq> []) (pieces s2) \<and> descriptor s2 = descriptor ?s1"
    proof (rule less.hyps)
      show "nat (n - (r + int (length ?bs))) < nat (n - r)" using bs(1) True by (cases ?bs) auto
      show "n - (r + int (length ?bs)) \<le> int (length (stream_pending ?s1))"
        using less.prems(5) c(1) by (auto simp: stream_pending_def)
    qed (use less.prems c bs in auto)
    then show ?thesis unfolding go by simp
  qed
qed

lemma stream_receive:
  assumes "list_all (\<lambda>c. c \<noteq> []) (pieces s)" "descriptor s \<noteq> - 1"
    "0 < n" "n \<le> int (length (stream_pending s))" "n < 2 ^ 32"
  shows "\<exists>s1. receive stream_os t n Consume s = Some (of_int n, take (nat n) (stream_pending s), s1) \<and>
    stream_pending s1 = drop (nat n) (stream_pending s)"
proof -
  obtain d s1 where r: "receive_loop stream_os t n False 0 [] s = (of_int n, d, s1)"
    using stream_loop_returns [of s 0 n] assms by fastforce
  then have rec: "receive stream_os t n Consume s = Some (of_int n, d, s1)"
    using assms(3) by (simp add: receive_def)
  have "(of_int n :: u32) \<noteq> 0"
    using assms(3,5) by (simp add: word_uint_eq_iff uint_word_of_int)
  then have "stream_pending s = d @ stream_pending s1 \<and> int (length d) = n"
    using piecewise.receive_consumes [OF rec refl] assms(5) by simp
  then show ?thesis using rec by auto
qed

lemma stream_receive_kept:
  assumes "list_all (\<lambda>c. c \<noteq> []) (pieces s)" "descriptor s \<noteq> - 1"
    "0 < n" "n \<le> int (length (stream_pending s))" "n < 2 ^ 32"
  shows "\<exists>s1. receive stream_os t n Consume s = Some (of_int n, take (nat n) (stream_pending s), s1) \<and>
    stream_pending s1 = drop (nat n) (stream_pending s) \<and>
    list_all (\<lambda>c. c \<noteq> []) (pieces s1) \<and> descriptor s1 = descriptor s"
  using stream_receive [OF assms, of t] stream_loop_returns [of s 0 n t "[]"] assms
  by (auto simp: receive_def)

text \<open>
  C9: reading \<open>n\<close> bytes of a stream that still has as many returns them all, in order, however
  the stream is cut into pieces, and leaves exactly the rest.
\<close>

theorem receive_exact:
  assumes "list_all (\<lambda>c. c \<noteq> []) (pieces s)" "descriptor s \<noteq> - 1"
    "0 < n" "n \<le> int (length (stream_pending s))" "n < 2 ^ 32"
  shows "\<exists>s1. receive stream_os t n Consume s = Some (of_int n, take (nat n) (stream_pending s), s1) \<and>
    stream_pending s1 = drop (nat n) (stream_pending s)"
  using assms by (rule stream_receive)

definition sample_stream :: stream where
  "sample_stream = \<lparr>pieces = [[1, 2], [3, 4, 5]], sent = [], connects = 0, descriptor = 3\<rparr>"

theorem receive_exact_witness:
  "\<exists>s1. receive stream_os (make_socket localhost 6317) 3 Consume sample_stream = Some (3, [1, 2, 3], s1) \<and> stream_pending s1 = [4, 5]"
  using receive_exact [of sample_stream 3 "make_socket localhost 6317"] by (simp add: sample_stream_def stream_pending_def numeral_eq_Suc)

lemma peek_loop_repeats:
  assumes "pieces s = c # cs" "c \<noteq> []" "descriptor s \<noteq> - 1" "0 \<le> r" "r \<le> n" "int (length acc) = r"
    "\<forall>i < length acc. acc ! i = c ! (i mod length c)" "r = n \<or> length acc mod length c = 0"
  shows "\<exists>d. receive_loop stream_os t n True r acc s = (of_int n, d, s) \<and> int (length d) = n \<and>
    (\<forall>i < length d. d ! i = c ! (i mod length c))"
  using assms(4-)
proof (induction "nat (n - r)" arbitrary: r acc rule: less_induct)
  case less
  show ?case
  proof (cases "r < n")
    case False
    then show ?thesis using less.prems by (simp add: receive_loop.simps [of _ _ n])
  next
    case True
    let ?bs = "take (nat (n - r)) c"
    have bs: "?bs \<noteq> []" "int (length ?bs) \<le> n - r" using assms(2) True by auto
    have go: "receive_loop stream_os t n True r acc s =
        receive_loop stream_os t n True (r + int (length ?bs)) (acc @ ?bs) s"
      using True assms(1,3) bs(1) by (simp add: receive_loop.simps [of _ _ n _ r] stream_recv_def)
    have r: "length acc mod length c = 0" using less.prems(5) True by simp
    have nth: "\<forall>i < length (acc @ ?bs). (acc @ ?bs) ! i = c ! (i mod length c)"
    proof (intro allI impI)
      fix i assume i: "i < length (acc @ ?bs)"
      show "(acc @ ?bs) ! i = c ! (i mod length c)"
      proof (cases "i < length acc")
        case False
        then have "i - length acc < length c" using i by simp
        moreover have "i mod length c = (i - length acc) mod length c"
          using False r by (metis le_add_diff_inverse mod_add_left_eq add_0 not_less)
        ultimately show ?thesis using False i by (simp add: nth_append)
      qed (use less.prems(4) in \<open>simp add: nth_append\<close>)
    qed
    have "r + int (length ?bs) = n \<or> length (acc @ ?bs) mod length c = 0"
      using r by (cases "nat (n - r) < length c") (use True in auto)
    then show ?thesis
      unfolding go using less.hyps [of "r + int (length ?bs)" "acc @ ?bs"] bs less.prems(1,3) True nth
      by (cases ?bs) auto
  qed
qed

text \<open>
  A peek for more bytes than the piece at the front has does not show what follows on the
  stream: it repeats the piece until it has the number asked for, and reports success.
\<close>

theorem peek_repeats:
  assumes "pieces s = c # cs" "c \<noteq> []" "descriptor s \<noteq> - 1" "0 < n"
  shows "\<exists>d. receive stream_os t n Peek s = Some (of_int n, d, s) \<and> int (length d) = n \<and>
    list_all (\<lambda>i. d ! i = c ! (i mod length c)) [0..<nat n]"
  using peek_loop_repeats [OF assms(1-3), of 0 n "[]" t] assms(4)
  by (auto simp: receive_def list_all_iff)

theorem peek_repeats_witness:
  "\<exists>d. receive stream_os (make_socket localhost 6317) 4 Peek sample_stream = Some (4, d, sample_stream) \<and> int (length d) = 4 \<and>
    list_all (\<lambda>i. d ! i = [1, 2] ! (i mod 2)) [0..<4]"
  using peek_repeats [of sample_stream "[1, 2]" "[[3, 4, 5]]" 4 "make_socket localhost 6317"]
  by (simp add: sample_stream_def numeral_eq_Suc)

end
