(* ===== verification/Timer.thy ===== *)
theory Timer
  imports Threaded_Queue
begin

text \<open>
  \<open>cpp_17/utility/timer.h\<close> and \<open>.cpp\<close>: a thread that waits for a timeout and calls back.  The
  readings of the steady clock (in milliseconds) are an argument of the waiting loop.
\<close>

record timer = thread_state +
  timeout_in_milliseconds :: int
  is_enabled :: bool
  timer_callback :: bool
  fired :: nat

definition timer_of :: "int \<Rightarrow> timer" where
  "timer_of ms = \<lparr>joinable = False, stop_requested = False, timeout_in_milliseconds = ms,
     is_enabled = False, timer_callback = False, fired = 0\<rparr>"

definition timer_default :: timer where
  "timer_default = timer_of 1000"

definition set_timer_callback :: "bool \<Rightarrow> timer \<Rightarrow> timer" where
  "set_timer_callback given t = t\<lparr>timer_callback := given\<rparr>"

definition set_timeout :: "int \<Rightarrow> timer \<Rightarrow> timer" where
  "set_timeout ms t = t\<lparr>timeout_in_milliseconds := ms\<rparr>"

text \<open>
  The loop of \<open>do_work\<close>: each turn reads the clock for the loop test, for the 15-second test and
  for the new base, and then the stop flag.  \<open>False\<close>: still waiting when the readings end.
\<close>

fun wait_loop :: "int \<Rightarrow> int \<Rightarrow> (int \<times> int \<times> int \<times> bool) list \<Rightarrow> bool" where
  "wait_loop timeout now [] = False"
| "wait_loop timeout now ((test, elapsed, base, stop) # turns) =
     (if \<not> test < now + timeout then True
      else (let now' = (if elapsed - now > 15000 then base else now) in
        if stop then True else wait_loop timeout now' turns))"

text \<open>After the wait, under the mutex.\<close>

definition fire :: "timer \<Rightarrow> timer" where
  "fire t = (if is_enabled t \<and> timer_callback t then t\<lparr>fired := fired t + 1\<rparr> else t)"

definition timer_work :: "int \<Rightarrow> (int \<times> int \<times> int \<times> bool) list \<Rightarrow> timer \<Rightarrow> timer option" where
  "timer_work now turns t =
     (if wait_loop (timeout_in_milliseconds t) now turns then Some (fire t) else None)"

definition enable_timer :: "bool \<Rightarrow> timer \<Rightarrow> timer" where
  "enable_timer e t =
     (if is_enabled t \<noteq> e then
        (let t1 = t\<lparr>is_enabled := e\<rparr> in
         if e then start_thread (\<lambda>t. t) t1 else stop_thread (\<lambda>finish t. t) False t1)
      else t)"

lemma enable_timer_enabled [simp]: "is_enabled (enable_timer e t) = e"
  by (auto simp: enable_timer_def Let_def start_thread_def stop_thread_def join_thread_def)

text \<open>Clock readings that advance by at most \<open>d\<close> between two turns, without a stop request.\<close>

fun paced :: "int \<Rightarrow> int \<Rightarrow> (int \<times> int \<times> int \<times> bool) list \<Rightarrow> bool" where
  "paced d previous [] = True"
| "paced d previous ((test, elapsed, base, stop) # turns) \<longleftrightarrow>
     previous \<le> test \<and> test \<le> previous + d \<and> test \<le> elapsed \<and> elapsed \<le> base \<and> base \<le> test + d \<and>
     \<not> stop \<and> paced d base turns"

lemma wait_loop_endless:
  "paced d previous turns \<Longrightarrow> now \<le> previous \<Longrightarrow> previous \<le> now + 15000 + 2 * d \<Longrightarrow> 0 \<le> d \<Longrightarrow>
    15000 + 4 * d < timeout \<Longrightarrow> \<not> wait_loop timeout now turns \<or> (15000 + d < previous - now)"
proof (induction turns arbitrary: previous now)
  case (Cons turn turns)
  obtain a e b st where t: "turn = (a, e, b, st)" by (cases turn)
  show ?case
  proof (cases "15000 < e - now")
    case True
    then have "\<not> wait_loop timeout b turns"
      using Cons.IH [of b b] Cons.prems t by auto
    then show ?thesis using Cons.prems t True by (auto simp: Let_def)
  next
    case False
    then have "b \<le> now + 15000 + d" using Cons.prems t by auto
    then have "\<not> wait_loop timeout now turns"
      using Cons.IH [of b now] Cons.prems t by auto
    then show ?thesis using Cons.prems t False by (auto simp: Let_def)
  qed
qed simp

text \<open>
  A timer whose timeout is longer than 15 seconds (and four times the pace of its clock
  readings) never fires, however long it runs: its waiting loop moves its own starting time
  forward each time 15 seconds have passed.
\<close>

theorem long_timer_never_fires:
  assumes "paced d now turns" "0 \<le> d" "15000 + 4 * d < timeout_in_milliseconds t"
  shows "timer_work now turns t = None"
  using wait_loop_endless [OF assms(1), of now] assms by (simp add: timer_work_def)

definition minute_of_turns :: "(int \<times> int \<times> int \<times> bool) list" where
  "minute_of_turns = [(0, 9000, 9000, False), (9000, 16000, 16000, False), (16000, 25000, 25000, False),
     (25000, 34000, 34000, False), (34000, 43000, 43000, False), (43000, 52000, 52000, False),
     (52000, 61000, 61000, False)]"

theorem long_timer_never_fires_witness:
  "timer_work 0 minute_of_turns (timer_of 60000) = None"
  using long_timer_never_fires [of 9000 0 minute_of_turns "timer_of 60000"]
  by (simp add: minute_of_turns_def timer_of_def)

lemma wait_loop_ends:
  "paced d previous turns \<Longrightarrow> timeout + d \<le> 15000 \<Longrightarrow>
    list_ex (\<lambda>(test, _). now + timeout \<le> test) turns \<Longrightarrow> wait_loop timeout now turns"
  by (induction timeout now turns arbitrary: previous rule: wait_loop.induct) (auto simp: Let_def)

text \<open>
  A timer whose timeout is at most 15 seconds less the pace of its clock readings ends its
  wait at the first reading past the timeout, and then calls back exactly when it is enabled
  and has a callback.
\<close>

theorem short_timer_fires:
  assumes "paced d now turns" "timeout_in_milliseconds t + d \<le> 15000"
    "list_ex (\<lambda>(test, _). now + timeout_in_milliseconds t \<le> test) turns"
  shows "\<exists>t'. timer_work now turns t = Some t' \<and>
    fired t' = (if is_enabled t \<and> timer_callback t then fired t + 1 else fired t)"
  using wait_loop_ends [OF assms] by (simp add: timer_work_def fire_def)

theorem short_timer_fires_witness:
  "\<exists>t'. timer_work 0 minute_of_turns (timer_of 5000) = Some t' \<and> fired t' = 0"
  using short_timer_fires [of 9000 0 minute_of_turns "timer_of 5000"]
  by (simp add: minute_of_turns_def timer_of_def)

end
