(* ===== verification/Tcp_Radar_Client.thy ===== *)
theory Tcp_Radar_Client
  imports Tcp_Socket Colossus_Message Timer
begin

text \<open>
  \<open>cpp_17/network/tcp_radar_client.h\<close> and \<open>.cpp\<close>: the client's connection state machine, the
  framing of the read thread and the delivery of messages to the queue.  Each member function is
  a function of the client's state and of the environment; a thread is the fact that it exists,
  and joining a thread whose loop would go on blocks (\<open>None\<close>).
\<close>

datatype connection_state = Disconnected | Connecting | Connected

record 's client =
  receive_queue :: "byte list threaded_queue"
  ip_addr :: ip_address
  tcp_port :: u16
  tcp :: tcp_socket
  connect_thread :: bool
  read_thread :: bool
  check_timer :: timer
  conn_state :: connection_state
  reading :: bool
  running :: bool
  connect_signals :: nat   \<comment> \<open>notifications of \<open>connect_condition\<close>\<close>
  env :: 's

definition connection_check_timeout :: int where
  "connection_check_timeout = 5000"

definition read_timeout :: u32 where
  "read_timeout = 60"

definition send_timeout :: u32 where
  "send_timeout = 10"

definition make_client :: "ip_address \<Rightarrow> u16 \<Rightarrow> 's \<Rightarrow> 's client" where
  "make_client a p s =
     \<lparr>receive_queue = fresh_queue, ip_addr = a, tcp_port = p, tcp = make_socket a p,
      connect_thread = False, read_thread = False, check_timer = timer_of connection_check_timeout,
      conn_state = Disconnected, reading = False, running = False, connect_signals = 0, env = s\<rparr>"

definition set_receive_data_callback :: "bool \<Rightarrow> 's client \<Rightarrow> 's client" where
  "set_receive_data_callback given c = c\<lparr>receive_queue := set_dequeue_callback given (receive_queue c)\<rparr>"

definition get_connection_state :: "'s client \<Rightarrow> connection_state" where
  "get_connection_state c = (if \<not> running c then Disconnected else conn_state c)"

definition set_connection_state :: "connection_state \<Rightarrow> 's client \<Rightarrow> 's client" where
  "set_connection_state st c =
     (if \<not> running c then c else if conn_state c = st then c else c\<lparr>conn_state := st\<rparr>)"

definition notify_connect :: "'s client \<Rightarrow> 's client" where
  "notify_connect c = c\<lparr>connect_signals := connect_signals c + 1\<rparr>"

definition start_client :: "'s client \<Rightarrow> 's client" where
  "start_client c =
     (if running c then c
      else (let c1 = c\<lparr>receive_queue := start_queue (receive_queue c), running := True, connect_thread := True\<rparr>;
                c2 = notify_connect c1
            in c2\<lparr>check_timer := enable_timer True (set_timer_callback True (check_timer c2))\<rparr>))"

text \<open>
  Both flags are down before the joins, so both threads end; the notification is for the connect thread that
  ends, and none is left when it has.
\<close>

definition stop_client :: "'s os_calls \<Rightarrow> 's client \<Rightarrow> 's client" where
  "stop_client os c =
     (if \<not> running c then c
      else (let c1 = c\<lparr>receive_queue := stop_queue False (receive_queue c),
                       check_timer := set_timer_callback False (enable_timer False (check_timer c)),
                       running := False\<rparr>;
                (ok, t, s) = close_socket os Shutdown (tcp c1) (env c1);
                c2 = notify_connect (c1\<lparr>tcp := t, env := s\<rparr>)
            in c2\<lparr>connect_thread := False, connect_signals := 0, reading := False, read_thread := False\<rparr>))"

definition connection_check_handler :: "'s client \<Rightarrow> 's client" where
  "connection_check_handler c =
     (if get_connection_state c \<noteq> Disconnected then c else notify_connect c)"

definition send_client :: "'s os_calls \<Rightarrow> byte list \<Rightarrow> 's client \<Rightarrow> 's client" where
  "send_client os bytes c =
     (if get_connection_state c \<noteq> Connected then c
      else (let (status, s1) = send_socket os (tcp c) bytes (env c);
                c1 = c\<lparr>env := s1\<rparr>
            in if status \<noteq> 0 then set_connection_state Disconnected c1 else c1))"

definition client_receive :: "'s os_calls \<Rightarrow> int \<Rightarrow> receive_option \<Rightarrow> 's client \<Rightarrow> (int \<times> byte list \<times> 's client) option" where
  "client_receive os n opt c = do {
     (res, d, s1) \<leftarrow> receive os (tcp c) n opt (env c);
     Some (sint res, d, c\<lparr>env := s1\<rparr>) }"

definition enqueue_message :: "message \<Rightarrow> 's client \<Rightarrow> 's client option" where
  "enqueue_message m c = do {
     (bytes, m1) \<leftarrow> relinquish m;
     Some (c\<lparr>receive_queue := enqueue bytes (receive_queue c)\<rparr>) }"

definition handle_data :: "'s os_calls \<Rightarrow> 's client \<Rightarrow> (bool \<times> 's client) option" where
  "handle_data os c = do {
     msg \<leftarrow> message_default;
     (bytes_read, d, c1) \<leftarrow> client_receive os (int header_size) Consume c;
     if bytes_read \<le> 0 \<or> \<not> reading c1 \<or> \<not> running c1
     then Some (False, set_connection_state Disconnected c1)
     else do {
       let msg1 = replace d msg;
       ok \<leftarrow> is_valid msg1;
       n \<leftarrow> payload_size msg1;
       if ok \<and> n \<noteq> 0 then do {
         (bytes_transferred, payload, c2) \<leftarrow> client_receive os (sint (of_int n :: u32)) Consume c1;
         if bytes_transferred \<le> 0 \<or> \<not> reading c2 \<or> \<not> running c2
         then Some (False, set_connection_state Disconnected c2)
         else do {
           msg2 \<leftarrow> append_buffer payload msg1;
           c3 \<leftarrow> enqueue_message msg2 c2;
           Some (True, c3) } }
       else if ok then do { c3 \<leftarrow> enqueue_message msg1 c1; Some (True, c3) }
       else Some (True, c1) } }"

datatype loop_control = Continue | Break

text \<open>One pass of the body of the read thread's loop.\<close>

definition read_pass :: "'s os_calls \<Rightarrow> 's client \<Rightarrow> (loop_control \<times> 's client) option" where
  "read_pass os c = do {
     (bytes_read, sig, c1) \<leftarrow> client_receive os (int (length signature)) Peek c;
     if bytes_read = 0 then Some (Continue, c1)
     else if bytes_read < 0 \<or> \<not> reading c1 \<or> \<not> running c1
     then Some (Break, set_connection_state Disconnected c1)
     else do {
       differs \<leftarrow> signature_neq sig;
       if differs then do {
         (bytes_read2, sig2, c2) \<leftarrow> client_receive os 1 Consume c1;
         if bytes_read2 \<le> 0 \<or> \<not> reading c2 \<or> \<not> running c2
         then Some (Break, set_connection_state Disconnected c2)
         else Some (Continue, c2) }
       else do {
         (ok, c2) \<leftarrow> handle_data os c1;
         if \<not> ok \<or> \<not> reading c2 \<or> \<not> running c2
         then Some (Break, set_connection_state Disconnected c2)
         else Some (Continue, c2) } } }"

text \<open>The read thread, for a number of passes; \<open>reading\<close> is cleared when the loop ends.\<close>

fun read_thread_run :: "'s os_calls \<Rightarrow> nat \<Rightarrow> 's client \<Rightarrow> 's client option" where
  "read_thread_run os 0 c = Some c"
| "read_thread_run os (Suc n) c =
     (if reading c \<and> running c then
        (case read_pass os c of
           None \<Rightarrow> None
         | Some (Continue, c1) \<Rightarrow> read_thread_run os n c1
         | Some (Break, c1) \<Rightarrow> Some (c1\<lparr>reading := False\<rparr>))
      else Some (c\<lparr>reading := False\<rparr>))"

text \<open>
  Joining the read thread from the connect thread, while that thread makes \<open>n\<close> passes: it returns if the loop
  has ended by then, and not (\<open>None\<close>) if the loop goes on.
\<close>

definition join_read_thread :: "'s os_calls \<Rightarrow> nat \<Rightarrow> 's client \<Rightarrow> 's client option" where
  "join_read_thread os n c =
     (if \<not> read_thread c then Some c
      else do { c1 \<leftarrow> read_thread_run os n c; if reading c1 then None else Some (c1\<lparr>read_thread := False\<rparr>) })"

text \<open>\<open>connect\<close>: the new socket, and what follows when it is connected.\<close>

definition open_connection :: "'s os_calls \<Rightarrow> 's client \<Rightarrow> bool \<times> 's client" where
  "open_connection os c =
     (let c1 = set_connection_state Connecting c;
          (closed, t1, s1) = close_socket os Do_not_shutdown (tcp c1) (env c1);
          (created, t2, s2) = create_socket os read_timeout t1 s1;
          s3 = set_send_timeout os send_timeout t2 s2;
          (ok, t3, s4) = connect_socket os t2 s3
      in (ok, c1\<lparr>tcp := t3, env := s4\<rparr>))"

definition connect_client :: "'s os_calls \<Rightarrow> nat \<Rightarrow> 's client \<Rightarrow> 's client option" where
  "connect_client os n c =
     (if get_connection_state c = Connected then Some c
      else (let (ok, c2) = open_connection os c
            in if ok then do {
                 c3 \<leftarrow> join_read_thread os n c2;
                 Some ((set_connection_state Connected c3)\<lparr>reading := True, read_thread := True\<rparr>) }
               else Some (set_connection_state Disconnected c2)))"

text \<open>One turn of the connect thread: it waits for a notification.\<close>

definition connect_thread_turn :: "'s os_calls \<Rightarrow> nat \<Rightarrow> 's client \<Rightarrow> 's client option" where
  "connect_thread_turn os n c =
     (if \<not> running c \<or> connect_signals c = 0 then Some c
      else connect_client os n (c\<lparr>connect_signals := 0\<rparr>))"

section \<open>The connection state\<close>

text \<open>The connection check and the connect thread, one after the other, a number of times.\<close>

fun check_and_connect :: "'s os_calls \<Rightarrow> nat \<Rightarrow> nat \<Rightarrow> 's client \<Rightarrow> 's client option" where
  "check_and_connect os n 0 c = Some c"
| "check_and_connect os n (Suc k) c =
     Option.bind (connect_thread_turn os n (connection_check_handler c)) (check_and_connect os n k)"

definition all_goes_well :: "'s os_calls \<Rightarrow> bool" where
  "all_goes_well os \<longleftrightarrow> (\<forall>s. fst (sys_socket os s) \<noteq> - 1) \<and> (\<forall>f opt s. fst (sys_setsockopt os f opt s)) \<and>
     (\<forall>f h p s. fst (sys_connect os f h p s)) \<and> (\<forall>f s. fst (sys_close os f s))"

lemma open_connection_succeeds:
  assumes "all_goes_well os"
  shows "\<exists>t s. open_connection os c = (True, (set_connection_state Connecting c)\<lparr>tcp := t, env := s\<rparr>)"
proof -
  have "\<exists>t2 s2. create_socket os read_timeout t s = (True, t2, s2) \<and> sock t2 \<noteq> - 1" for t s
  proof -
    obtain f x where f: "sys_socket os s = (f, x)" "f \<noteq> - 1"
      using assms by (cases "sys_socket os s") (metis all_goes_well_def fst_conv)
    obtain y where y: "sys_setsockopt os f Reuse_address x = (True, y)"
      using assms by (cases "sys_setsockopt os f Reuse_address x") (metis all_goes_well_def fst_conv)
    obtain z where z: "sys_setsockopt os f Linger y = (True, z)"
      using assms by (cases "sys_setsockopt os f Linger y") (metis all_goes_well_def fst_conv)
    show ?thesis using f y z by (simp add: create_socket_def socket_valid_def)
  qed
  moreover have "\<exists>t3 s3. connect_socket os t s = (True, t3, s3)" if "sock t \<noteq> - 1" for t s
    using assms that by (simp add: connect_socket_def socket_valid_def case_prod_beta all_goes_well_def)
  ultimately show ?thesis
    unfolding open_connection_def Let_def case_prod_beta by (metis fst_conv snd_conv)
qed

lemma restarted_client:
  assumes "running c" "conn_state c = Connected" "all_goes_well os"
  shows "\<exists>s. start_client (stop_client os c) = c\<lparr>receive_queue := start_queue (stop_queue False (receive_queue c)),
      tcp := (tcp c)\<lparr>sock := - 1\<rparr>, check_timer := enable_timer True (set_timer_callback True
        (set_timer_callback False (enable_timer False (check_timer c)))),
      connect_thread := True, connect_signals := 1, reading := False, read_thread := False, env := s\<rparr>"
proof -
  have "\<exists>ok s. close_socket os Shutdown t x = (ok, t\<lparr>sock := - 1\<rparr>, s)" for t x
    using assms(3) by (cases "sock t = - 1")
      (auto simp: close_socket_def socket_valid_def all_goes_well_def case_prod_beta Let_def)
  then obtain ok s where "close_socket os Shutdown (tcp c) (env c) = (ok, (tcp c)\<lparr>sock := - 1\<rparr>, s)" by blast
  then show ?thesis
    using assms(1) by (intro exI [of _ s]) (simp add: stop_client_def start_client_def notify_connect_def Let_def)
qed

lemma check_and_connect_0: "check_and_connect os n 0 = Some"
  by (simp add: fun_eq_iff)

lemma idle_while_connected:
  "running c \<Longrightarrow> conn_state c = Connected \<Longrightarrow> connect_signals c = 0 \<Longrightarrow> check_and_connect os n k c = Some c"
  by (induction k) (simp_all add: connection_check_handler_def get_connection_state_def connect_thread_turn_def)

lemma connect_while_connected:
  assumes "running c" "conn_state c = Connected"
  shows "check_and_connect os n (Suc k) c = Some (c\<lparr>connect_signals := 0\<rparr>)"
proof -
  have "connection_check_handler c = c" using assms by (simp add: connection_check_handler_def get_connection_state_def)
  moreover have "connect_thread_turn os n c = Some (c\<lparr>connect_signals := 0\<rparr>)"
    using assms by (cases "connect_signals c") (simp_all add: connect_thread_turn_def connect_client_def get_connection_state_def)
  ultimately show ?thesis
    using idle_while_connected [of "c\<lparr>connect_signals := 0\<rparr>" os n k] assms by simp
qed

text \<open>
  C38: a client that is stopped while it is connected, and started again, still says that it is connected,
  although it has neither a socket nor a read thread; the connection check and the connect thread change
  nothing and call nothing, however often they run.  The first command that is sent, to no socket, fails and is
  lost; only then is the client disconnected, and the next check makes the connect thread connect.
\<close>

theorem restart_loses_first_command:
  assumes "running c" "conn_state c = Connected" "all_goes_well os"
    and "\<And>s. \<exists>e s1. sys_send os (- 1) bytes s = (Send_failed e, s1) \<and> e \<noteq> 0"
    and "c1 = start_client (stop_client os c)"
  shows "get_connection_state c1 = Connected \<and> sock (tcp c1) = - 1 \<and> \<not> read_thread c1 \<and>
     check_and_connect os n (Suc k) c1 = Some (c1\<lparr>connect_signals := 0\<rparr>) \<and>
     get_connection_state (send_client os bytes (c1\<lparr>connect_signals := 0\<rparr>)) = Disconnected \<and>
     (\<exists>c2. check_and_connect os n 1 (send_client os bytes (c1\<lparr>connect_signals := 0\<rparr>)) = Some c2 \<and>
        get_connection_state c2 = Connected \<and> reading c2 \<and> read_thread c2)"
proof -
  obtain s where c1: "c1 = c\<lparr>receive_queue := start_queue (stop_queue False (receive_queue c)),
      tcp := (tcp c)\<lparr>sock := - 1\<rparr>, check_timer := enable_timer True (set_timer_callback True
        (set_timer_callback False (enable_timer False (check_timer c)))),
      connect_thread := True, connect_signals := 1, reading := False, read_thread := False, env := s\<rparr>"
    using restarted_client [OF assms(1-3)] assms(5) by blast
  have state: "running c1" "conn_state c1 = Connected" "sock (tcp c1) = - 1" "\<not> read_thread c1"
    using assms(1,2) by (simp_all add: c1)
  obtain e s1 where send: "sys_send os (- 1) bytes (env c1) = (Send_failed e, s1)" "e \<noteq> 0" using assms(4) by blast
  let ?d = "c1\<lparr>conn_state := Disconnected, env := s1, connect_signals := 0\<rparr>"
  have d: "send_client os bytes (c1\<lparr>connect_signals := 0\<rparr>) = ?d"
    using state send by (simp add: send_client_def get_connection_state_def send_socket_def set_connection_state_def)
  obtain t x where o: "open_connection os (?d\<lparr>connect_signals := 0\<rparr>) =
      (True, (set_connection_state Connecting (?d\<lparr>connect_signals := 0\<rparr>))\<lparr>tcp := t, env := x\<rparr>)"
    using open_connection_succeeds [OF assms(3)] by blast
  have "check_and_connect os n 1 ?d = connect_client os n ?d"
    using state(1) by (simp add: connection_check_handler_def get_connection_state_def notify_connect_def connect_thread_turn_def
        check_and_connect_0)
  moreover have "\<exists>c2. connect_client os n ?d = Some c2 \<and> get_connection_state c2 = Connected \<and> reading c2 \<and> read_thread c2"
    using o state by (simp add: connect_client_def get_connection_state_def set_connection_state_def join_read_thread_def)
  ultimately show ?thesis
    using state connect_while_connected [OF state(1,2), of os n k] d by (simp add: get_connection_state_def)
qed

definition connected_client :: "stream client" where
  "connected_client = (make_client (IP 0x7F000001) 6317 sample_stream)
     \<lparr>running := True, conn_state := Connected, reading := True, read_thread := True,
      receive_queue := start_queue (set_dequeue_callback True fresh_queue),
      tcp := (make_socket (IP 0x7F000001) 6317)\<lparr>sock := 3\<rparr>\<rparr>"

text \<open>An operating system that connects whenever it is asked, and on which sending fails.\<close>

definition failing_os :: "stream os_calls" where
  "failing_os = stream_os\<lparr>sys_socket := (\<lambda>s. (3, s)), sys_send := (\<lambda>fd bs s. (Send_failed 32, s))\<rparr>"

lemma failing_os_simps: "all_goes_well failing_os" "sys_send failing_os fd bs s = (Send_failed 32, s)"
  by (simp_all add: all_goes_well_def failing_os_def stream_os_def)

theorem restart_loses_first_command_witness:
  "check_and_connect failing_os 0 3 (start_client (stop_client failing_os connected_client)) =
     Some ((start_client (stop_client failing_os connected_client))\<lparr>connect_signals := 0\<rparr>)"
  using restart_loses_first_command [of connected_client failing_os "[1]" _ 0 2]
  by (simp add: connected_client_def failing_os_simps del: check_and_connect.simps(2))

lemma read_pass_closed:
  "pieces (env c) = [] \<Longrightarrow> read_pass stream_os c = Some (Continue, c)"
  by (simp add: read_pass_def client_receive_def receive_def receive_loop.simps stream_recv_def)

lemma read_run_closed:
  "pieces (env c) = [] \<Longrightarrow> reading c \<Longrightarrow> running c \<Longrightarrow> read_thread_run stream_os n c = Some c"
  by (induction n) (simp_all add: read_pass_closed)

lemma closed_peer_unnoticed_facts:
  assumes "pieces (env c) = []" "reading c" "running c" "conn_state c = Connected"
  shows "read_thread_run stream_os n c = Some c" "connection_check_handler c = c"
  using assms read_run_closed by (simp_all add: connection_check_handler_def get_connection_state_def)

text \<open>
  When the peer has closed the connection the read thread goes round for ever, and the client
  stays as it was: still connected, so the connection check never asks for a new connection.
\<close>

theorem closed_peer_unnoticed:
  assumes "pieces (env c) = []" "reading c" "running c" "conn_state c = Connected"
  shows "read_thread_run stream_os n c = Some c \<and>
     connection_check_handler c = c"
  using closed_peer_unnoticed_facts [OF assms] by blast

theorem closed_peer_unnoticed_witness:
  "read_thread_run stream_os 1000 (connected_client\<lparr>env := sample_stream\<lparr>pieces := []\<rparr>\<rparr>) =
     Some (connected_client\<lparr>env := sample_stream\<lparr>pieces := []\<rparr>\<rparr>)"
  using closed_peer_unnoticed [of "connected_client\<lparr>env := sample_stream\<lparr>pieces := []\<rparr>\<rparr>" 1000]
  by (simp add: connected_client_def)

section \<open>A connection that does not fail\<close>

lemma sint_small: "0 \<le> n \<Longrightarrow> n < 2 ^ 31 \<Longrightarrow> sint (of_int n :: u32) = n"
  by (simp add: sint_uint signed_take_bit_int_eq_self uint_word_of_int)

text \<open>What the peek is compared with: a whole signature.\<close>

lemma signature_neq_16: "length sig = 16 \<Longrightarrow> signature_neq sig = Some (sig \<noteq> signature)"
proof -
  assume l: "length sig = 16"
  have "std_equal xs ys = Some (xs = ys)" if "length xs = length ys" for xs ys :: "byte list"
    using that by (induction xs ys rule: list_induct2) auto
  then show ?thesis using l by (auto simp: signature_neq_def signature_eq_def)
qed

text \<open>
  A connection on which a read that removes bytes never fails (it waits until there are some), while a peek may
  fail or time out.
\<close>

definition patient :: "'s os_calls \<Rightarrow> bool" where
  "patient os \<longleftrightarrow> (\<forall>fd n s. 0 < n \<longrightarrow> (\<exists>bs s1. sys_recv os fd n False s = (Received bs, s1) \<and> bs \<noteq> [] \<and> int (length bs) \<le> n)) \<and>
     (\<forall>fd n s bs s1. 0 < n \<longrightarrow> sys_recv os fd n True s = (Received bs, s1) \<longrightarrow> int (length bs) \<le> n) \<and> (\<forall>s. sock_seen os s \<noteq> - 1)"

lemma patientD:
  assumes "patient os"
  shows "0 < n \<Longrightarrow> \<exists>bs s1. sys_recv os fd n False s = (Received bs, s1) \<and> bs \<noteq> [] \<and> int (length bs) \<le> n"
    and "0 < n \<Longrightarrow> sys_recv os fd n True s = (Received bs, s1) \<Longrightarrow> int (length bs) \<le> n" and "sock_seen os s \<noteq> - 1"
  using assms unfolding patient_def by blast+

lemma patient_consume:
  assumes "patient os" "r \<le> n" "int (length acc) = r"
  shows "\<exists>d s1. receive_loop os t n False r acc s = (of_int n, d, s1) \<and> int (length d) = n"
  using assms(2,3)
proof (induction "nat (n - r)" arbitrary: r acc s rule: less_induct)
  case less
  show ?case
  proof (cases "r < n")
    case True
    then obtain bs s1 where bs: "sys_recv os (sock t) (n - r) False s = (Received bs, s1)" "bs \<noteq> []" "int (length bs) \<le> n - r"
      using patientD(1) [OF assms(1), of "n - r"] by fastforce
    then have "receive_loop os t n False r acc s = receive_loop os t n False (r + int (length bs)) (acc @ bs) s1"
      using True patientD(3) [OF assms(1)] by (simp add: receive_loop.simps [of _ _ n _ r])
    moreover have "nat (n - (r + int (length bs))) < nat (n - r)" using True bs(2) by (cases bs) auto
    ultimately show ?thesis using less.hyps [of "r + int (length bs)" "acc @ bs" s1] bs(3) less.prems(2) by simp
  qed (use less.prems in \<open>simp add: receive_loop.simps [of _ _ n]\<close>)
qed

lemma patient_peek:
  assumes "patient os" "r \<le> n" "int (length acc) = r" "receive_loop os t n True r acc s = (res, d, s1)"
  shows "res = 0 \<or> res = of_int n \<and> int (length d) = n"
  using assms(2-)
proof (induction "nat (n - r)" arbitrary: r acc s rule: less_induct)
  case less
  show ?case
  proof (cases "r < n")
    case True
    obtain x s2 where x: "sys_recv os (sock t) (n - r) True s = (x, s2)" by fastforce
    show ?thesis
    proof (cases x)
      case (Received bs)
      then have bs: "int (length bs) \<le> n - r" using x True patientD(2) [OF assms(1), of "n - r"] by auto
      show ?thesis
      proof (cases "bs = []")
        case False
        then have "nat (n - (r + int (length bs))) < nat (n - r)" using True by (cases bs) auto
        moreover have "receive_loop os t n True (r + int (length bs)) (acc @ bs) s2 = (res, d, s1)"
          using less.prems(3) True x Received False patientD(3) [OF assms(1)] by (simp add: receive_loop.simps [of _ _ n _ r])
        ultimately show ?thesis using less.hyps [of "r + int (length bs)" "acc @ bs" s2] bs less.prems(2) by simp
      qed (use less.prems True x Received in \<open>simp add: receive_loop.simps [of _ _ n _ r]\<close>)
    qed (use less.prems True x in \<open>simp_all add: receive_loop.simps [of _ _ n _ r]\<close>)
  qed (use less.prems in \<open>simp add: receive_loop.simps [of _ _ n]\<close>)
qed

lemma patient_receive:
  assumes "patient os" "0 < n" "n < 2 ^ 31"
  shows "\<exists>d s1. client_receive os n Consume c = Some (n, d, c\<lparr>env := s1\<rparr>) \<and> int (length d) = n"
proof -
  obtain d s1 where d: "receive_loop os (tcp c) n False 0 [] (env c) = (of_int n, d, s1)" "int (length d) = n"
    using patient_consume [OF assms(1), of 0 n "[]" "tcp c" "env c"] assms(2) by auto
  then have "client_receive os n Consume c = Some (n, d, c\<lparr>env := s1\<rparr>)"
    using assms(2,3) sint_small [of n] by (simp add: client_receive_def receive_def)
  then show ?thesis using d(2) by blast
qed

text \<open>On such a connection a pass of the read thread always goes on to the next.\<close>

abbreviation same_connection :: "'s client \<Rightarrow> 's client \<Rightarrow> bool" where
  "same_connection c c1 \<equiv> \<exists>s q. c1 = c\<lparr>env := s, receive_queue := q\<rparr>"

lemma same_env: "same_connection c (c\<lparr>env := s\<rparr>)"
proof -
  have "c\<lparr>env := s\<rparr> = c\<lparr>env := s, receive_queue := receive_queue c\<rparr>" by simp
  then show ?thesis by blast
qed

lemma appended:
  assumes "data m = d" "length d = 22"
  shows "\<exists>bytes m1 m2. append_buffer pl m = Some m1 \<and> relinquish m1 = Some (bytes, m2)"
proof -
  obtain x where x: "poke_at 18 (mem32 (htonl (of_int (int (length (d @ pl)) - int header_size)))) (d @ pl) = Some x"
    "length x = length (d @ pl)"
    using assms(2) by (simp add: poke_at_def)
  then have "append_buffer pl m = Some (m\<lparr>data := x, has_protobuf := True\<rparr>)"
    using assms(1) by (simp add: append_buffer_def update_payload_size_def)
  moreover have "\<exists>bytes m2. relinquish (m\<lparr>data := x, has_protobuf := True\<rparr>) = Some (bytes, m2)"
    using x(2) assms(2) by (simp add: relinquish_def add_signature_def poke_at_def)
  ultimately show ?thesis by blast
qed

lemma patient_handle_data:
  assumes "patient os" "reading c" "running c"
  shows "\<exists>s q. handle_data os c = Some (True, c\<lparr>env := s, receive_queue := q\<rparr>)"
proof -
  have md: "message_default = Some (blank_message\<lparr>data := frame 0 []\<rparr>)"
    by (simp add: message_default_def initialize_framed blank_message_def)
  obtain d s1 where d: "client_receive os 22 Consume c = Some (22, d, c\<lparr>env := s1\<rparr>)" "length d = 22"
    using patient_receive [OF assms(1), of 22 c] by auto
  define m where "m = replace d (blank_message\<lparr>data := frame 0 []\<rparr>)"
  have m: "data m = d" by (simp add: m_def replace_def)
  define k where "k = uint (ntohl (load32 (take 4 (drop 18 d))))"
  have "d \<noteq> []" using d(2) by auto
  then have size: "payload_size m = Some k" using d(2) by (simp add: payload_size_def m peek_at_def k_def)
  obtain v where v: "is_valid m = Some v" "v \<Longrightarrow> k < 1000000"
    using is_valid_iff [of m] m d(2) by (auto simp: k_def)
  obtain bytes0 m0 where plain: "relinquish m = Some (bytes0, m0)"
    using m d(2) by (simp add: relinquish_def add_signature_def poke_at_def)
  show ?thesis
  proof (cases "v \<and> k \<noteq> 0")
    case True
    have "0 \<le> k" by (simp add: k_def)
    then have k: "0 < k" "k < 2 ^ 31" using True v(2) by simp_all
    obtain pl s2 where pl: "client_receive os k Consume (c\<lparr>env := s1\<rparr>) = Some (k, pl, c\<lparr>env := s2\<rparr>)"
      using patient_receive [OF assms(1) k, of "c\<lparr>env := s1\<rparr>"] by auto
    obtain bytes m1 m2 where "append_buffer pl m = Some m1" "relinquish m1 = Some (bytes, m2)"
      using appended [OF m d(2)] by blast
    then show ?thesis
      using assms(2,3) True k
      by (intro exI) (simp add: handle_data_def md header_size_def d(1) m_def [symmetric] v(1) size
          sint_small pl enqueue_message_def)
  next
    case False
    then show ?thesis
      using assms(2,3) plain
      by (cases v) (auto simp: handle_data_def md header_size_def d(1) m_def [symmetric] v(1) size enqueue_message_def
          same_env)
  qed
qed

lemma patient_pass:
  assumes "patient os" "reading c" "running c"
  shows "\<exists>s q. read_pass os c = Some (Continue, c\<lparr>env := s, receive_queue := q\<rparr>)"
proof -
  obtain res d s1 where l: "receive_loop os (tcp c) 16 True 0 [] (env c) = (res, d, s1)"
    by (metis prod_cases3)
  have peek: "client_receive os 16 Peek c = Some (sint res, d, c\<lparr>env := s1\<rparr>)"
    by (simp add: client_receive_def receive_def l)
  show ?thesis
  proof (cases "res = 0")
    case True
    then show ?thesis using peek by (simp add: read_pass_def same_env)
  next
    case False
    then have r: "res = 16" "length d = 16" using patient_peek [OF assms(1) _ _ l] by simp_all
    show ?thesis
    proof (cases "d = signature")
      case True
      obtain s q where "handle_data os (c\<lparr>env := s1\<rparr>) = Some (True, c\<lparr>env := s, receive_queue := q\<rparr>)"
        using patient_handle_data [OF assms(1), of "c\<lparr>env := s1\<rparr>"] assms(2,3) by auto
      then show ?thesis
        using peek r True assms(2,3) by (simp add: read_pass_def signature_neq_16) blast
    next
      case False
      obtain b s2 where "client_receive os 1 Consume (c\<lparr>env := s1\<rparr>) = Some (1, b, c\<lparr>env := s2\<rparr>)"
        using patient_receive [OF assms(1), of 1 "c\<lparr>env := s1\<rparr>"] by auto
      then show ?thesis
        using peek r False assms(2,3) by (simp add: read_pass_def signature_neq_16 same_env)
    qed
  qed
qed

lemma patient_run:
  assumes "patient os" "reading c" "running c"
  shows "\<exists>s q. read_thread_run os n c = Some (c\<lparr>env := s, receive_queue := q\<rparr>)"
  using assms(2,3)
proof (induction n arbitrary: c)
  case 0
  have "c = c\<lparr>env := env c, receive_queue := receive_queue c\<rparr>" by simp
  then show ?case by (metis read_thread_run.simps(1))
next
  case (Suc n)
  obtain s q where "read_pass os c = Some (Continue, c\<lparr>env := s, receive_queue := q\<rparr>)"
    using patient_pass [OF assms(1) Suc.prems] by blast
  then show ?case using Suc.IH [of "c\<lparr>env := s, receive_queue := q\<rparr>"] Suc.prems by auto
qed

text \<open>
  C39: a failed send disconnects the client, and the next connection is opened; but \<open>connect\<close> then joins the
  old read thread without asking it to end, and that thread goes on with the new connection: as long as no
  read in the middle of a message fails it makes any number of passes without ending, the join does not
  return, and the client stays \<open>Connecting\<close>.
\<close>

theorem reconnect_hangs:
  assumes "running c" "conn_state c = Connected" "read_thread c" "reading c" "all_goes_well os" "patient os"
    and "\<And>s. \<exists>e s1. sys_send os (sock (tcp c)) bytes s = (Send_failed e, s1) \<and> e \<noteq> 0"
  shows "get_connection_state (send_client os bytes c) = Disconnected \<and>
     (\<exists>c1. open_connection os (send_client os bytes c) = (True, c1) \<and> get_connection_state c1 = Connecting \<and>
        (\<forall>n. (\<exists>c2. read_thread_run os n c1 = Some c2 \<and> reading c2 \<and> get_connection_state c2 = Connecting) \<and>
           connect_client os n (send_client os bytes c) = None))"
proof -
  obtain e s1 where send: "sys_send os (sock (tcp c)) bytes (env c) = (Send_failed e, s1)" "e \<noteq> 0"
    using assms(7) by blast
  let ?d = "c\<lparr>env := s1, conn_state := Disconnected\<rparr>"
  have d: "send_client os bytes c = ?d"
    using assms(1,2) send by (simp add: send_client_def get_connection_state_def send_socket_def set_connection_state_def)
  obtain t x where "open_connection os ?d = (True, (set_connection_state Connecting ?d)\<lparr>tcp := t, env := x\<rparr>)"
    using open_connection_succeeds [OF assms(5)] by blast
  then obtain c1 where o: "open_connection os ?d = (True, c1)" "running c1" "reading c1" "read_thread c1" "conn_state c1 = Connecting"
    using assms(1,3,4) by (auto simp: set_connection_state_def)
  have run: "\<exists>c2. read_thread_run os n c1 = Some c2 \<and> reading c2 \<and> get_connection_state c2 = Connecting" for n
  proof -
    obtain s q where "read_thread_run os n c1 = Some (c1\<lparr>env := s, receive_queue := q\<rparr>)"
      using patient_run [OF assms(6) o(3,2), of n] by blast
    then show ?thesis using o by (intro exI [of _ "c1\<lparr>env := s, receive_queue := q\<rparr>"]) (simp add: get_connection_state_def)
  qed
  moreover have "connect_client os n ?d = None" for n
    using run [of n] o(1,4) by (auto simp: connect_client_def get_connection_state_def join_read_thread_def)
  ultimately show ?thesis
    using o assms(1) by (auto simp: d get_connection_state_def)
qed

text \<open>A connection on which one byte after another arrives for ever, none of them part of a signature.\<close>

definition chattering_os :: "stream os_calls" where
  "chattering_os = failing_os\<lparr>sys_recv := (\<lambda>fd n peek s. (Received [1], s)), sock_seen := (\<lambda>s. 3)\<rparr>"

theorem reconnect_hangs_witness:
  "\<forall>n. connect_client chattering_os n (send_client chattering_os [1] connected_client) = None"
proof -
  have "all_goes_well chattering_os" "patient chattering_os"
    by (simp_all add: all_goes_well_def chattering_os_def failing_os_def stream_os_def patient_def)
  from reconnect_hangs [of connected_client, OF _ _ _ _ this, of "[1]"] show ?thesis
    by (simp add: connected_client_def chattering_os_def failing_os_simps) metis
qed


text \<open>A reading client on a stream of non-empty pieces.\<close>

definition live :: "stream client \<Rightarrow> bool" where
  "live c \<longleftrightarrow> reading c \<and> running c \<and> descriptor (env c) \<noteq> - 1 \<and> list_all (\<lambda>p. p \<noteq> []) (pieces (env c))"

lemma live_receive:
  assumes "live c" "0 < n" "n < 2 ^ 31" "n \<le> int (length (stream_pending (env c)))"
  shows "\<exists>s1. client_receive stream_os n Consume c =
      Some (n, take (nat n) (stream_pending (env c)), c\<lparr>env := s1\<rparr>) \<and>
    stream_pending s1 = drop (nat n) (stream_pending (env c)) \<and> live (c\<lparr>env := s1\<rparr>)"
  using stream_receive_kept [of "env c" n "tcp c"] assms
  by (auto simp: client_receive_def sint_small live_def)

lemma live_peek:
  assumes "live c" "pieces (env c) = p # ps" "16 \<le> length p"
  shows "client_receive stream_os 16 Peek c = Some (16, take 16 p, c)"
  using assms
  by (simp add: client_receive_def receive_def receive_loop.simps [of _ _ 16] stream_recv_def live_def)

lemma handle_frame:
  assumes "live c" "stream_pending (env c) = frame t pl @ rest" "length pl < 1000000"
  shows "\<exists>s1. handle_data stream_os c =
      Some (True, c\<lparr>env := s1, receive_queue := enqueue (frame t pl) (receive_queue c)\<rparr>) \<and>
    stream_pending s1 = rest \<and> live (c\<lparr>env := s1\<rparr>)"
proof -
  define hd where "hd = signature @ [version, t] @ be32 (int (length pl))"
  have md: "message_default = Some (blank_message\<lparr>data := frame 0 []\<rparr>)"
    by (simp add: message_default_def initialize_framed blank_message_def)
  have hd: "frame t pl = hd @ pl" "length hd = 22" by (simp_all add: frame_def hd_def)
  obtain s1 where s1: "client_receive stream_os 22 Consume c = Some (22, hd, c\<lparr>env := s1\<rparr>)"
      "stream_pending s1 = pl @ rest" "live (c\<lparr>env := s1\<rparr>)"
    using live_receive [of c 22] assms(1,2) hd by auto
  define m where "m = replace hd (blank_message\<lparr>data := frame 0 []\<rparr>)"
  have m: "data m = hd" by (simp add: m_def replace_def)
  have "hd \<noteq> []" using hd(2) by auto
  then have size: "payload_size m = Some (int (length pl))"
    using peek_at_mid [of "signature @ [version, t]" "be32 (int (length pl))" "[]"] assms(3)
    by (simp add: payload_size_def m be32_value hd_def)
  have "std_equal signature hd = Some True" by (simp add: hd_def)
  moreover have "nth_opt hd 16 = Some version" "nth_opt hd 17 = Some t"
    by (simp_all add: nth_opt_def nth_append hd_def)
  moreover have "uint t \<le> 255" using uint_bounds(2) [of t] by simp
  ultimately have valid: "is_valid m = Some True"
    using assms(3) \<open>hd \<noteq> []\<close> by (simp add: is_valid_def m is_signature_valid_def is_version_valid_def
        message_code_def size largest_valid_message_def largest_payload_def)
  have live: "reading c" "running c" using assms(1) by (simp_all add: live_def)
  show ?thesis
  proof (cases "pl = []")
    case True
    then have "framed t [] m" by (simp add: framed_def m frame_def hd_def)
    then have rel: "relinquish m = Some (frame t [], m\<lparr>data := []\<rparr>)" by (rule relinquish_framed)
    show ?thesis
      using s1 True live
      by (intro exI [of _ s1]) (simp add: handle_data_def md header_size_def s1(1) m_def [symmetric] valid size
          enqueue_message_def rel)
  next
    case False
    have n: "int (length pl) < 2 ^ 31" using assms(3) by simp
    have sint_len: "sint (of_nat (length pl) :: u32) = int (length pl)" using sint_small [of "int (length pl)"] n by simp
    obtain s2 where s2: "client_receive stream_os (int (length pl)) Consume (c\<lparr>env := s1\<rparr>) =
        Some (int (length pl), pl, c\<lparr>env := s2\<rparr>)" "stream_pending s2 = rest" "live (c\<lparr>env := s2\<rparr>)"
      using live_receive [OF s1(3), of "int (length pl)"] s1(2) False n by auto
    have app: "append_buffer pl m = Some (m\<lparr>data := frame t pl, has_protobuf := True\<rparr>)"
      using poke_size [of "m\<lparr>data := data m @ pl\<rparr>" t "int (length pl)" pl]
      by (simp add: append_buffer_def m hd_def)
    have rel: "relinquish (m\<lparr>data := frame t pl, has_protobuf := True\<rparr>) =
        Some (frame t pl, m\<lparr>data := frame t pl, has_protobuf := True, data := []\<rparr>)"
      by (rule relinquish_framed) simp
    show ?thesis
      using s2(2,3) False live
      by (intro exI [of _ s2]) (simp add: handle_data_def md header_size_def s1(1) m_def [symmetric] valid size
          s2(1) app enqueue_message_def rel sint_len)
  qed
qed

lemma read_pass_frame:
  assumes "live c" "pieces (env c) = p # ps" "16 \<le> length p" "stream_pending (env c) = frame t pl @ rest"
    "length pl < 1000000"
  shows "\<exists>s1. read_pass stream_os c =
      Some (Continue, c\<lparr>env := s1, receive_queue := enqueue (frame t pl) (receive_queue c)\<rparr>) \<and>
    stream_pending s1 = rest \<and> live (c\<lparr>env := s1\<rparr>)"
proof -
  have "take 16 p = take 16 (stream_pending (env c))"
    using assms(2,3) by (simp add: stream_pending_def)
  also have "\<dots> = signature" using assms(4) by (simp add: frame_def)
  finally have sig: "take 16 p = signature" .
  obtain s1 where "handle_data stream_os c =
      Some (True, c\<lparr>env := s1, receive_queue := enqueue (frame t pl) (receive_queue c)\<rparr>)"
      "stream_pending s1 = rest" "live (c\<lparr>env := s1\<rparr>)"
    using handle_frame [OF assms(1,4,5)] by blast
  then show ?thesis
    using live_peek [OF assms(1-3)] assms(1) sig
    by (intro exI [of _ s1]) (simp add: read_pass_def signature_neq_16 live_def)
qed

lemma read_pass_skip:
  assumes "live c" "pieces (env c) = p # ps" "16 \<le> length p" "take 16 p \<noteq> signature"
  shows "\<exists>s1. read_pass stream_os c = Some (Continue, c\<lparr>env := s1\<rparr>) \<and>
    pieces s1 = drop 1 p # ps \<and> live (c\<lparr>env := s1\<rparr>)"
proof -
  let ?s1 = "(env c)\<lparr>pieces := drop 1 p # ps\<rparr>"
  have "client_receive stream_os 1 Consume c = Some (1, take 1 p, c\<lparr>env := ?s1\<rparr>)"
    using assms(1-3)
    by (simp add: client_receive_def receive_def receive_loop.simps [of _ _ 1] stream_recv_def live_def)
  then show ?thesis
    using live_peek [OF assms(1-3)] assms
    by (intro exI [of _ ?s1]) (auto simp: read_pass_def signature_neq_16 live_def)
qed

text \<open>
  C1: one pass of the read thread over a stream that holds a whole message takes exactly that
  message off the stream, hands its bytes to the queue unchanged, and changes nothing else,
  provided the first piece of the stream has at least a signature's length.
\<close>

theorem read_pass_takes_message:
  assumes "live c" "pieces (env c) = p # ps" "16 \<le> length p" "stream_pending (env c) = frame t pl @ rest"
    "length pl < 1000000"
  shows "\<exists>s1. read_pass stream_os c =
      Some (Continue, c\<lparr>env := s1, receive_queue := enqueue (frame t pl) (receive_queue c)\<rparr>) \<and>
    stream_pending s1 = rest"
  using read_pass_frame [OF assms] by blast

definition on_stream :: "byte list list \<Rightarrow> stream client" where
  "on_stream ps = connected_client\<lparr>env := sample_stream\<lparr>pieces := ps\<rparr>\<rparr>"

lemma live_on_stream: "list_all (\<lambda>p. p \<noteq> []) ps \<Longrightarrow> live (on_stream ps)"
  by (simp add: live_def on_stream_def connected_client_def sample_stream_def)

lemma env_on_stream [simp]: "pieces (env (on_stream ps)) = ps" "stream_pending (env (on_stream ps)) = concat ps"
  by (simp_all add: on_stream_def stream_pending_def)

theorem read_pass_takes_message_witness:
  "\<exists>s1. read_pass stream_os (on_stream [frame 30 [7], [9]]) =
      Some (Continue, (on_stream [frame 30 [7], [9]])\<lparr>env := s1,
        receive_queue := enqueue (frame 30 [7]) (receive_queue (on_stream [frame 30 [7], [9]]))\<rparr>) \<and>
    stream_pending s1 = [9]"
  using read_pass_takes_message [of "on_stream [frame 30 [7], [9]]" "frame 30 [7]" "[[9]]" 30 "[7]" "[9]"]
  by (simp add: live_on_stream)

text \<open>
  What the peek shows of a first piece, whatever its length: a piece shorter than a signature is shown again
  and again, and that never is the signature, whose first byte does not occur in the rest of it.
\<close>

lemma short_piece_differs:
  assumes "length d = 16" "\<forall>i < 16. d ! i = p ! (i mod length p)" "p \<noteq> []" "length p < 16"
  shows "d \<noteq> signature"
proof
  assume d: "d = signature"
  have "d ! length p = d ! 0" using assms(2-4) by simp
  moreover have "d ! 0 = 0" "\<forall>x \<in> set (tl d). x \<noteq> 0" by (simp_all add: d signature_def)
  moreover have "d ! length p = tl d ! (length p - 1)" "length p - 1 < length (tl d)"
    using assms(1,3,4) by (simp_all add: nth_tl)
  ultimately show False using nth_mem by metis
qed

lemma peek_differs:
  assumes "live c" "pieces (env c) = p # ps" "p \<noteq> []" "take 16 p \<noteq> signature"
  shows "\<exists>d. client_receive stream_os 16 Peek c = Some (16, d, c) \<and> signature_neq d = Some True"
proof (cases "16 \<le> length p")
  case True
  then show ?thesis using live_peek [OF assms(1,2)] assms(4) by (simp add: signature_neq_16)
next
  case False
  obtain d where d: "receive_loop stream_os (tcp c) 16 True 0 [] (env c) = (16, d, env c)"
      "length d = 16" "\<forall>i < length d. d ! i = p ! (i mod length p)"
    using peek_loop_repeats [OF assms(2,3), of 0 16 "[]" "tcp c"] assms(1) by (auto simp: live_def)
  then have "d \<noteq> signature" using short_piece_differs [of d p] assms(3) False by simp
  then show ?thesis using d by (simp add: client_receive_def receive_def signature_neq_16)
qed

text \<open>A stream without its first byte.\<close>

fun tail_pieces :: "byte list list \<Rightarrow> byte list list" where
  "tail_pieces [] = []"
| "tail_pieces (p # ps) = (if 1 < length p then tl p # ps else ps)"

lemma concat_tail_pieces: "list_all (\<lambda>p. p \<noteq> []) ps \<Longrightarrow> concat (tail_pieces ps) = tl (concat ps)"
proof (cases ps)
  case (Cons p qs)
  assume "list_all (\<lambda>p. p \<noteq> []) ps"
  then obtain x xs where "p = x # xs" using Cons by (cases p) auto
  then show ?thesis using Cons by (cases xs) simp_all
qed simp

lemma skip_a_byte:
  assumes "live c" "pieces (env c) = p # ps" "take 16 p \<noteq> signature"
  shows "\<exists>s1. read_pass stream_os c = Some (Continue, c\<lparr>env := s1\<rparr>) \<and>
    pieces s1 = tail_pieces (p # ps) \<and> live (c\<lparr>env := s1\<rparr>)"
proof -
  have p: "p \<noteq> []" using assms(1,2) by (simp add: live_def)
  let ?s1 = "(env c)\<lparr>pieces := tail_pieces (p # ps)\<rparr>"
  obtain x xs where x: "p = x # xs" using p by (cases p) auto
  have "client_receive stream_os 1 Consume c = Some (1, take 1 p, c\<lparr>env := ?s1\<rparr>)"
    using assms(1,2) x
    by (cases xs) (simp_all add: client_receive_def receive_def receive_loop.simps [of _ _ 1] stream_recv_def live_def)
  moreover have "list_all (\<lambda>p. p \<noteq> []) (pieces ?s1)"
    using assms(1,2) x by (auto simp: live_def)
  ultimately show ?thesis
    using peek_differs [OF assms(1,2) p assms(3)] assms(1)
    by (intro exI [of _ ?s1]) (auto simp: read_pass_def live_def)
qed

text \<open>
  No piece ends inside of the 16 bytes that follow the first \<open>k\<close> of the stream.
\<close>

definition whole_signature_at :: "nat \<Rightarrow> byte list list \<Rightarrow> bool" where
  "whole_signature_at k ps \<longleftrightarrow> (\<forall>i \<le> length ps. length (concat (take i ps)) \<notin> {k<..<k + 16})"

lemma whole_signature_tail:
  assumes "whole_signature_at (Suc k) ps" "list_all (\<lambda>p. p \<noteq> []) ps"
  shows "whole_signature_at k (tail_pieces ps)"
proof (cases ps)
  case (Cons p qs)
  have cut: "length (concat (take i ps)) \<notin> {Suc k<..<Suc k + 16}" if "i \<le> length ps" for i
    using assms(1) that by (simp add: whole_signature_at_def)
  have "length (concat (take i (tail_pieces ps))) \<notin> {k<..<k + 16}" if "i \<le> length (tail_pieces ps)" for i
  proof (cases "1 < length p")
    case True
    then show ?thesis using cut [of i] that Cons by (cases i) auto
  next
    case False
    then have "length p = 1" using assms(2) Cons by (cases p) auto
    then show ?thesis using cut [of "Suc i"] that Cons by auto
  qed
  then show ?thesis by (simp add: whole_signature_at_def)
qed (simp add: whole_signature_at_def)

lemma first_piece_whole:
  assumes "whole_signature_at 0 (p # ps)" "p \<noteq> []"
  shows "16 \<le> length p"
proof -
  have "length (concat (take 1 (p # ps))) \<notin> {0<..<0 + 16}"
    using assms(1) unfolding whole_signature_at_def by (rule allE [of _ 1]) simp
  then show ?thesis using assms(2) by auto
qed

lemma junk_differs:
  assumes "pieces s = p # ps" "stream_pending s = (b # junk) @ frame t pl @ rest"
    "\<forall>i < length (b # junk). take 16 (drop i ((b # junk) @ frame t pl)) \<noteq> signature"
  shows "take 16 p \<noteq> signature"
proof
  assume sig: "take 16 p = signature"
  then have "16 \<le> length p" by (metis length_signature length_take min.cobounded1)
  then have "take 16 p = take 16 (stream_pending s)" by (simp add: assms(1) stream_pending_def)
  also have "\<dots> = take 16 ((b # junk) @ frame t pl)" using assms(2) by (simp add: frame_def)
  finally show False using sig assms(3) by fastforce
qed

lemma resynchronise:
  assumes "live c" "stream_pending (env c) = junk @ frame t pl @ rest" "whole_signature_at (length junk) (pieces (env c))"
    "length pl < 1000000" "\<forall>i < length junk. take 16 (drop i (junk @ frame t pl)) \<noteq> signature"
  shows "\<exists>s1. read_thread_run stream_os (length junk + 1) c =
      Some (c\<lparr>env := s1, receive_queue := enqueue (frame t pl) (receive_queue c)\<rparr>) \<and> stream_pending s1 = rest"
  using assms
proof (induction junk arbitrary: c)
  case Nil
  have "stream_pending (env c) \<noteq> []" using Nil.prems(2) by (simp add: frame_def)
  then obtain p ps where p: "pieces (env c) = p # ps" by (cases "pieces (env c)") (simp_all add: stream_pending_def)
  then have "16 \<le> length p" using first_piece_whole [of p ps] Nil.prems(1,3) by (simp add: live_def)
  then obtain s1 where s1: "read_pass stream_os c =
      Some (Continue, c\<lparr>env := s1, receive_queue := enqueue (frame t pl) (receive_queue c)\<rparr>)" "stream_pending s1 = rest"
    using read_pass_frame [OF Nil.prems(1) p, of t pl rest] Nil.prems(2,4) by auto
  then show ?case using Nil.prems(1) by (auto simp: live_def)
next
  case (Cons b junk)
  obtain p ps where p: "pieces (env c) = p # ps" using Cons.prems(2) by (cases "pieces (env c)") (simp_all add: stream_pending_def)
  have ok: "list_all (\<lambda>p. p \<noteq> []) (p # ps)" using Cons.prems(1) p by (simp add: live_def)
  have differs: "take 16 p \<noteq> signature" using junk_differs [of "env c" p ps b junk t pl rest] p Cons.prems(2,5) by blast
  obtain s1 where s1: "read_pass stream_os c = Some (Continue, c\<lparr>env := s1\<rparr>)"
      "pieces s1 = tail_pieces (p # ps)" "live (c\<lparr>env := s1\<rparr>)"
    using skip_a_byte [OF Cons.prems(1) p differs] by blast
  have "stream_pending s1 = tl (stream_pending (env c))"
    using concat_tail_pieces [OF ok] s1(2) p by (simp add: stream_pending_def)
  moreover have "whole_signature_at (length junk) (pieces s1)"
    using whole_signature_tail [of "length junk" "p # ps"] Cons.prems(3) ok s1(2) p by simp
  moreover have "\<forall>i < length junk. take 16 (drop i (junk @ frame t pl)) \<noteq> signature"
    using Cons.prems(5) by (metis Suc_less_eq append_Cons drop_Suc_Cons length_Cons)
  ultimately have "\<exists>s2. read_thread_run stream_os (length junk + 1) (c\<lparr>env := s1\<rparr>) =
      Some (c\<lparr>env := s2, receive_queue := enqueue (frame t pl) (receive_queue c)\<rparr>) \<and> stream_pending s2 = rest"
    using Cons.IH [of "c\<lparr>env := s1\<rparr>"] s1(3) Cons.prems(2,4) by simp
  then show ?case using s1(1) Cons.prems(1) by (simp add: live_def)
qed

text \<open>
  C10: after bytes that are not a message the read thread finds its way back: it drops them one
  by one, and then takes the message that follows, as long as no signature starts among the
  dropped bytes.  The stream may arrive in any pieces, as long as none of them ends inside of the
  message's signature; more may follow.
\<close>

theorem read_thread_resynchronises:
  assumes "live c" "stream_pending (env c) = junk @ frame t pl @ rest" "whole_signature_at (length junk) (pieces (env c))"
    "length pl < 1000000" "\<forall>i < length junk. take 16 (drop i (junk @ frame t pl)) \<noteq> signature"
  shows "\<exists>s1. read_thread_run stream_os (length junk + 1) c =
      Some (c\<lparr>env := s1, receive_queue := enqueue (frame t pl) (receive_queue c)\<rparr>) \<and>
    stream_pending s1 = rest"
  using resynchronise [OF assms] .

text \<open>One byte of junk, and a message whose payload arrives later.\<close>

theorem read_thread_resynchronises_witness:
  "\<exists>s1. read_thread_run stream_os 2 (on_stream [[5], frame 30 [], [7]]) =
      Some ((on_stream [[5], frame 30 [], [7]])\<lparr>env := s1,
        receive_queue := enqueue (frame 30 []) (receive_queue (on_stream [[5], frame 30 [], [7]]))\<rparr>) \<and>
    stream_pending s1 = [7]"
proof -
  have "take 16 (5 # frame 30 []) \<noteq> signature"
    by (simp add: take_Cons' signature_def)
  moreover have "whole_signature_at 1 [[5], frame 30 [], [7]]"
    by (auto simp: whole_signature_at_def frame_def take_Cons')
  ultimately show ?thesis
    using read_thread_resynchronises [of "on_stream [[5], frame 30 [], [7]]" "[5]" 30 "[]" "[7]"]
    by (simp add: live_on_stream numeral_2_eq_2 frame_def del: read_thread_run.simps)
qed

text \<open>
  A message whose signature is cut by the arrival of the stream (the first piece is a proper
  part of the signature) is not taken: the peek shows that piece repeated, which is not the
  signature, so its first byte is dropped and the message is lost.
\<close>

theorem cut_signature_loses_message:
  assumes "live c" "pieces (env c) = take k (frame t pl) # drop k (frame t pl) # ps" "0 < k" "k < 16"
  shows "\<exists>s1. read_pass stream_os c = Some (Continue, c\<lparr>env := s1\<rparr>) \<and>
    stream_pending s1 = tl (frame t pl) @ concat ps"
proof -
  let ?p = "take k (frame t pl)"
  have p: "?p \<noteq> []" "length ?p = k" using assms(3,4) by (auto simp: signature_def frame_def)
  have p_stream: "take 16 ?p \<noteq> signature"
  proof
    assume "take 16 ?p = signature"
    then have "length (take 16 ?p) = 16" by simp
    then show False using p(2) assms(4) by simp
  qed
  then obtain d where peek: "client_receive stream_os 16 Peek c = Some (16, d, c)" and neq: "signature_neq d = Some True"
    using peek_differs [OF assms(1,2) p(1)] by blast
  let ?s1 = "(env c)\<lparr>pieces := if 1 < k then drop 1 ?p # drop k (frame t pl) # ps else drop k (frame t pl) # ps\<rparr>"
  have "client_receive stream_os 1 Consume c = Some (1, take 1 ?p, c\<lparr>env := ?s1\<rparr>)"
    using assms p by (simp add: client_receive_def receive_def receive_loop.simps [of _ _ 1] stream_recv_def live_def)
  then have "read_pass stream_os c = Some (Continue, c\<lparr>env := ?s1\<rparr>)"
    using peek neq assms(1) by (simp add: read_pass_def live_def)
  moreover have "stream_pending ?s1 = tl (frame t pl) @ concat ps"
  proof (cases "1 < k")
    case True
    have "frame t pl = ?p @ drop k (frame t pl)" by simp
    then have "tl (frame t pl) = tl ?p @ drop k (frame t pl)" using p(1) by (metis tl_append2)
    then show ?thesis using True by (simp add: stream_pending_def drop_Suc)
  next
    case False
    then have "k = 1" using assms(3) by simp
    then show ?thesis by (simp add: stream_pending_def drop_Suc)
  qed
  ultimately show ?thesis by blast
qed

theorem cut_signature_loses_message_witness:
  "\<exists>s1. read_pass stream_os (on_stream [take 10 (frame 30 []), drop 10 (frame 30 [])]) =
      Some (Continue, (on_stream [take 10 (frame 30 []), drop 10 (frame 30 [])])\<lparr>env := s1\<rparr>) \<and>
    stream_pending s1 = tl (frame 30 [])"
  using cut_signature_loses_message [of "on_stream [take 10 (frame 30 []), drop 10 (frame 30 [])]" 10 30 "[]" "[]"]
  by (simp add: live_on_stream)

end
