(* ===== verification/Radar_Client.thy ===== *)
theory Radar_Client
  imports Tcp_Radar_Client Colossus_Views Sector_Blanking
begin

text \<open>
  \<open>cpp_17/network/radar_client.h\<close> and \<open>.cpp\<close>: the commands a user sends to the radar and the
  handlers of what the radar sends.  A callback that is set is called by appending an event; the
  parsers of the protocol buffers are generated code and so are parameters.
\<close>

section \<open>What the callbacks receive\<close>

record fft_record =
  f_angle :: float64
  f_azimuth :: u16
  f_sweep_counter :: u16
  f_ntp_seconds :: u32
  f_ntp_split_seconds :: u32
  f_data :: "byte list"

record navigation_record =
  n_angle :: float64
  n_azimuth :: u16
  n_ntp_seconds :: u32
  n_ntp_split_seconds :: u32
  n_peaks :: "(float32 \<times> u16) list"

record configuration_record =
  c_azimuth_samples :: u16
  c_encoder_size :: u16
  c_bin_size :: float64
  c_range_in_bins :: u16
  c_expected_rotation_rate :: u16
  c_range_gain :: float32
  c_range_offset :: float32

record navigation_settings =
  s_bins_to_operate_on :: u16
  s_min_bin :: u16
  s_navigation_threshold :: float32
  s_max_peaks_per_azimuth :: u32

datatype ('p, 'h) event =
    Configuration_event configuration_record 'p
  | Raw_configuration_event "byte list"
  | Fft_event fft_record
  | Raw_fft_event "byte list"
  | Navigation_event navigation_record
  | Health_event 'h
  | Navigation_config_event navigation_settings

text \<open>The generated protocol buffer code.\<close>

record ('p, 'h) protobufs =
  parse_configuration :: "byte list \<Rightarrow> 'p"
  range_resolution_metres :: "'p \<Rightarrow> float32"
  parse_health :: "byte list \<Rightarrow> 'h"

record callbacks =
  cb_fft :: bool
  cb_raw_fft :: bool
  cb_navigation :: bool
  cb_configuration :: bool
  cb_raw_configuration :: bool
  cb_health :: bool
  cb_navigation_config :: bool

record ('s, 'p, 'h) radar_client =
  tcp_client :: "'s client"
  rc_running :: bool
  send_radar_data :: bool
  callbacks :: callbacks
  rc_encoder_size :: u16
  rc_bin_size :: float64
  events :: "('p, 'h) event list"

definition no_callbacks :: callbacks where
  "no_callbacks = \<lparr>cb_fft = False, cb_raw_fft = False, cb_navigation = False, cb_configuration = False,
     cb_raw_configuration = False, cb_health = False, cb_navigation_config = False\<rparr>"

definition make_radar_client :: "ip_address \<Rightarrow> u16 \<Rightarrow> 's \<Rightarrow> ('s, 'p, 'h) radar_client" where
  "make_radar_client a p s =
     \<lparr>tcp_client = make_client a p s, rc_running = False, send_radar_data = False,
      callbacks = no_callbacks, rc_encoder_size = 0, rc_bin_size = F64 0, events = []\<rparr>"

definition set_fft_data_callback :: "bool \<Rightarrow> ('s, 'p, 'h) radar_client \<Rightarrow> ('s, 'p, 'h) radar_client" where
  "set_fft_data_callback fn r = r\<lparr>callbacks := (callbacks r)\<lparr>cb_fft := fn\<rparr>\<rparr>"

definition set_raw_fft_data_callback :: "bool \<Rightarrow> ('s, 'p, 'h) radar_client \<Rightarrow> ('s, 'p, 'h) radar_client" where
  "set_raw_fft_data_callback fn r = r\<lparr>callbacks := (callbacks r)\<lparr>cb_raw_fft := fn\<rparr>\<rparr>"

definition set_navigation_data_callback :: "bool \<Rightarrow> ('s, 'p, 'h) radar_client \<Rightarrow> ('s, 'p, 'h) radar_client" where
  "set_navigation_data_callback fn r = r\<lparr>callbacks := (callbacks r)\<lparr>cb_navigation := fn\<rparr>\<rparr>"

definition set_configuration_data_callback :: "bool \<Rightarrow> ('s, 'p, 'h) radar_client \<Rightarrow> ('s, 'p, 'h) radar_client" where
  "set_configuration_data_callback fn r = r\<lparr>callbacks := (callbacks r)\<lparr>cb_configuration := fn\<rparr>\<rparr>"

definition set_raw_configuration_data_callback ::
    "bool \<Rightarrow> ('s, 'p, 'h) radar_client \<Rightarrow> ('s, 'p, 'h) radar_client" where
  "set_raw_configuration_data_callback fn r = r\<lparr>callbacks := (callbacks r)\<lparr>cb_raw_configuration := fn\<rparr>\<rparr>"

definition set_health_data_callback :: "bool \<Rightarrow> ('s, 'p, 'h) radar_client \<Rightarrow> ('s, 'p, 'h) radar_client" where
  "set_health_data_callback fn r = r\<lparr>callbacks := (callbacks r)\<lparr>cb_health := fn\<rparr>\<rparr>"

definition set_navigation_config_callback :: "bool \<Rightarrow> ('s, 'p, 'h) radar_client \<Rightarrow> ('s, 'p, 'h) radar_client" where
  "set_navigation_config_callback fn r = r\<lparr>callbacks := (callbacks r)\<lparr>cb_navigation_config := fn\<rparr>\<rparr>"

definition emit :: "('p, 'h) event \<Rightarrow> ('s, 'p, 'h) radar_client \<Rightarrow> ('s, 'p, 'h) radar_client" where
  "emit e r = r\<lparr>events := events r @ [e]\<rparr>"

section \<open>Commands\<close>

definition start_radar_client :: "('s, 'p, 'h) radar_client \<Rightarrow> ('s, 'p, 'h) radar_client" where
  "start_radar_client r =
     (if rc_running r then r
      else r\<lparr>tcp_client := start_client (set_receive_data_callback True (tcp_client r)), rc_running := True\<rparr>)"

definition stop_radar_client :: "'s os_calls \<Rightarrow> ('s, 'p, 'h) radar_client \<Rightarrow> ('s, 'p, 'h) radar_client" where
  "stop_radar_client os r =
     (if \<not> rc_running r then r
      else r\<lparr>rc_running := False, tcp_client := stop_client os (tcp_client r)\<rparr>)"

text \<open>\<open>radar_client.send(msg.relinquish())\<close>.\<close>

definition send_message :: "'s os_calls \<Rightarrow> message \<Rightarrow> ('s, 'p, 'h) radar_client \<Rightarrow> ('s, 'p, 'h) radar_client option" where
  "send_message os m r = do {
     (bytes, m1) \<leftarrow> relinquish m;
     Some (r\<lparr>tcp_client := send_client os bytes (tcp_client r)\<rparr>) }"

definition is_connected :: "('s, 'p, 'h) radar_client \<Rightarrow> bool" where
  "is_connected r \<longleftrightarrow> get_connection_state (tcp_client r) = Connected"

definition send_simple_network_message ::
    "'s os_calls \<Rightarrow> message_type \<Rightarrow> ('s, 'p, 'h) radar_client \<Rightarrow> ('s, 'p, 'h) radar_client option" where
  "send_simple_network_message os t r =
     (if \<not> is_connected r then Some r
      else do { m0 \<leftarrow> message_default; m1 \<leftarrow> set_type t m0; send_message os m1 r })"

definition start_fft_stream :: "'s os_calls \<Rightarrow> ('s, 'p, 'h) radar_client \<Rightarrow> ('s, 'p, 'h) radar_client option" where
  "start_fft_stream os r = do {
     r1 \<leftarrow> send_simple_network_message os start_fft_data r; Some (r1\<lparr>send_radar_data := True\<rparr>) }"

definition start_non_contour_fft_stream :: "'s os_calls \<Rightarrow> ('s, 'p, 'h) radar_client \<Rightarrow> ('s, 'p, 'h) radar_client option" where
  "start_non_contour_fft_stream os r = do {
     r1 \<leftarrow> send_simple_network_message os start_non_contour_fft_data r; Some (r1\<lparr>send_radar_data := True\<rparr>) }"

definition stop_fft_stream :: "'s os_calls \<Rightarrow> ('s, 'p, 'h) radar_client \<Rightarrow> ('s, 'p, 'h) radar_client option" where
  "stop_fft_stream os r = do {
     r1 \<leftarrow> send_simple_network_message os stop_fft_data r; Some (r1\<lparr>send_radar_data := False\<rparr>) }"

definition start_health_data :: "'s os_calls \<Rightarrow> ('s, 'p, 'h) radar_client \<Rightarrow> ('s, 'p, 'h) radar_client option" where
  "start_health_data os r = send_simple_network_message os start_health_msgs r"

definition stop_health_data :: "'s os_calls \<Rightarrow> ('s, 'p, 'h) radar_client \<Rightarrow> ('s, 'p, 'h) radar_client option" where
  "stop_health_data os r = send_simple_network_message os stop_health_msgs r"

definition start_navigation_data :: "'s os_calls \<Rightarrow> ('s, 'p, 'h) radar_client \<Rightarrow> ('s, 'p, 'h) radar_client option" where
  "start_navigation_data os r = send_simple_network_message os start_nav_data r"

definition stop_navigation_data :: "'s os_calls \<Rightarrow> ('s, 'p, 'h) radar_client \<Rightarrow> ('s, 'p, 'h) radar_client option" where
  "stop_navigation_data os r = send_simple_network_message os stop_nav_data r"

definition request_navigation_configuration ::
    "'s os_calls \<Rightarrow> ('s, 'p, 'h) radar_client \<Rightarrow> ('s, 'p, 'h) radar_client option" where
  "request_navigation_configuration os r = send_simple_network_message os navigation_config_request r"

text \<open>A message of one type with a protocol buffer, sent.\<close>

definition send_with_buffer ::
    "'s os_calls \<Rightarrow> message_type \<Rightarrow> byte list \<Rightarrow> ('s, 'p, 'h) radar_client \<Rightarrow> ('s, 'p, 'h) radar_client option" where
  "send_with_buffer os t buf r = do {
     m0 \<leftarrow> message_default; m1 \<leftarrow> set_type t m0; m2 \<leftarrow> append_buffer buf m1; send_message os m2 r }"

definition send_navigation_threshold ::
    "'s os_calls \<Rightarrow> u16 \<Rightarrow> ('s, 'p, 'h) radar_client \<Rightarrow> ('s, 'p, 'h) radar_client option" where
  "send_navigation_threshold os thr r =
     (if \<not> is_connected r then Some r
      else send_with_buffer os set_nav_threshold (mem16 (ntohs thr)) r)"

definition range_multiplier :: float32 where
  "range_multiplier = f32_of_int 1000000"

text \<open>A negative product is outside the range of the cast: undefined behaviour.\<close>

definition gain_word :: "float32 \<Rightarrow> u32 option" where
  "gain_word x = map_option htonl (f32_to_u32 (f32_mul x range_multiplier))"

definition set_navigation_gain_and_offset ::
    "'s os_calls \<Rightarrow> float32 \<Rightarrow> float32 \<Rightarrow> ('s, 'p, 'h) radar_client \<Rightarrow> ('s, 'p, 'h) radar_client option" where
  "set_navigation_gain_and_offset os g o' r =
     (if \<not> is_connected r then Some r
      else do {
        net_gain \<leftarrow> gain_word g;
        net_offset \<leftarrow> gain_word o';
        send_with_buffer os set_nav_range_offset_and_gain (mem32 net_gain @ mem32 net_offset) r })"

definition blank_nav_config :: nav_config_hdr where
  "blank_nav_config = \<lparr>operating_bins = 0, min_bin = 0, threshold = 0, max_peaks = 0\<rparr>"

definition nav_config_of :: "navigation_settings \<Rightarrow> nav_config_hdr" where
  "nav_config_of cfg =
     set_max_peaks_per_azimuth (s_max_peaks_per_azimuth cfg)
       (set_navigation_threshold (s_navigation_threshold cfg)
         (set_min_bin_to_operate_on (s_min_bin cfg)
           (set_bins_to_operate_on (s_bins_to_operate_on cfg) blank_nav_config)))"

definition send_navigation_configuration ::
    "'s os_calls \<Rightarrow> navigation_settings \<Rightarrow> ('s, 'p, 'h) radar_client \<Rightarrow> ('s, 'p, 'h) radar_client option" where
  "send_navigation_configuration os cfg r = do {
     m0 \<leftarrow> message_default; m1 \<leftarrow> set_type set_navigation_configuration m0;
     m2 \<leftarrow> append_header (nav_config_image (nav_config_of cfg)) m1; send_message os m2 r }"

definition set_blanking_sectors ::
    "'s os_calls \<Rightarrow> blanking_sector_list \<Rightarrow> ('s, 'p, 'h) radar_client \<Rightarrow> ('s, 'p, 'h) radar_client option" where
  "set_blanking_sectors os l r = send_with_buffer os sector_blanking_update (sectors_to_vector l) r"

text \<open>
  The scaling of one contour entry: an \<open>int\<close> divided by the \<open>double\<close> bin size, rounded up and cast
  to 16 bits (undefined outside 0 to 65535).
\<close>

definition contour_entry :: "float64 \<Rightarrow> byte \<Rightarrow> byte \<Rightarrow> (byte \<times> byte) option" where
  "contour_entry bin hi lo = do {
     let q = fp_ceil (fp_div b64 (Fin (of_int (uint hi * 256 + uint lo))) (val64 bin));
     res \<leftarrow> fp_to_int 0 65535 q;
     Some (of_int (res div 256), of_int (res mod 256)) }"

fun contour_scale :: "float64 \<Rightarrow> byte list \<Rightarrow> byte list option" where
  "contour_scale bin (hi # lo # rest) = do {
     (hi', lo') \<leftarrow> contour_entry bin hi lo;
     rest' \<leftarrow> contour_scale bin rest;
     Some (hi' # lo' # rest') }"
| "contour_scale bin xs = Some []"

definition update_contour_map ::
    "'s os_calls \<Rightarrow> byte list \<Rightarrow> ('s, 'p, 'h) radar_client \<Rightarrow> ('s, 'p, 'h) radar_client option" where
  "update_contour_map os contour_data r =
     (if \<not> is_connected r then Some r
      else do {
        contour \<leftarrow> (if length contour_data = 720 then contour_scale (rc_bin_size r) contour_data else Some []);
        send_with_buffer os contour_update contour r })"

section \<open>Handlers\<close>

text \<open>\<open>(azimuth * 360.0f) / encoder_size\<close>, in \<open>float\<close>, stored as a \<open>double\<close>.\<close>

definition azimuth_angle :: "u16 \<Rightarrow> u16 \<Rightarrow> float64" where
  "azimuth_angle az esz =
     f64_of_f32 (f32_div (f32_mul (f32_of_int (uint az)) (f32_of_int 360)) (f32_of_int (uint esz)))"

definition raw_callback ::
    "bool \<Rightarrow> (byte list \<Rightarrow> ('p, 'h) event) \<Rightarrow> message \<Rightarrow> ('s, 'p, 'h) radar_client \<Rightarrow> ('s, 'p, 'h) radar_client option" where
  "raw_callback given mk m r =
     (if \<not> given then Some r else do { (bytes, m1) \<leftarrow> relinquish m; Some (emit (mk bytes) r) })"

definition handle_configuration_message ::
    "'s os_calls \<Rightarrow> ('p, 'h) protobufs \<Rightarrow> message \<Rightarrow> ('s, 'p, 'h) radar_client \<Rightarrow> ('s, 'p, 'h) radar_client option" where
  "handle_configuration_message os pb m r = do {
     r' \<leftarrow> (if cb_configuration (callbacks r) then do {
         config \<leftarrow> view_configuration m;
         text \<leftarrow> protobuf_vector configuration_size m;
         let proto = parse_configuration pb text;
         r1 \<leftarrow> (if send_radar_data r then send_simple_network_message os start_fft_data r else Some r);
         let r2 = r1\<lparr>rc_encoder_size := encoder_size config,
                     rc_bin_size := f64_of_f32 (range_resolution_metres pb proto)\<rparr>;
         Some (emit (Configuration_event
           \<lparr>c_azimuth_samples = azimuth_samples config, c_encoder_size = rc_encoder_size r2,
            c_bin_size = rc_bin_size r2, c_range_in_bins = range_in_bins config,
            c_expected_rotation_rate = rotation_speed config div 1000,
            c_range_gain = range_gain config, c_range_offset = range_offset config\<rparr> proto) r2) }
       else Some r);
     raw_callback (cb_raw_configuration (callbacks r')) Raw_configuration_event m r' }"

definition handle_health_message ::
    "('p, 'h) protobufs \<Rightarrow> message \<Rightarrow> ('s, 'p, 'h) radar_client \<Rightarrow> ('s, 'p, 'h) radar_client option" where
  "handle_health_message pb m r =
     (if \<not> cb_health (callbacks r) then Some r
      else do { text \<leftarrow> protobuf_vector 0 m; Some (emit (Health_event (parse_health pb text)) r) })"

definition handle_fft_data_message ::
    "message \<Rightarrow> ('s, 'p, 'h) radar_client \<Rightarrow> ('s, 'p, 'h) radar_client option" where
  "handle_fft_data_message m r = do {
     r' \<leftarrow> (if cb_fft (callbacks r) then do {
         fft \<leftarrow> view_fft m;
         bytes \<leftarrow> protobuf_vector fft_size m;
         Some (emit (Fft_event
           \<lparr>f_angle = azimuth_angle (fft_azimuth fft) (rc_encoder_size r), f_azimuth = fft_azimuth fft,
            f_sweep_counter = sweep_counter fft, f_ntp_seconds = fft_ntp_seconds fft,
            f_ntp_split_seconds = fft_ntp_split_seconds fft, f_data = bytes\<rparr>) r) }
       else Some r);
     raw_callback (cb_raw_fft (callbacks r')) Raw_fft_event m r' }"

text \<open>The records of a navigation message: range in micrometres and power, in network order.\<close>

fun read_peaks :: "nat \<Rightarrow> byte list \<Rightarrow> (float32 \<times> u16) list" where
  "read_peaks 0 targets = []"
| "read_peaks (Suc n) targets =
     (f32_div (f32_of_int (uint (htonl (load32 (take 4 targets))))) range_multiplier,
      htons (load16 (take 2 (drop 4 targets)))) # read_peaks n (drop 6 targets)"

definition handle_navigation_data_message ::
    "message \<Rightarrow> ('s, 'p, 'h) radar_client \<Rightarrow> ('s, 'p, 'h) radar_client option" where
  "handle_navigation_data_message m r =
     (if \<not> cb_navigation (callbacks r) then Some r
      else do {
        nav \<leftarrow> view_navigation m;
        targets \<leftarrow> protobuf_vector navigation_size m;
        Some (emit (Navigation_event
          \<lparr>n_angle = azimuth_angle (nav_azimuth nav) (rc_encoder_size r), n_azimuth = nav_azimuth nav,
           n_ntp_seconds = nav_ntp_seconds nav, n_ntp_split_seconds = nav_ntp_split_seconds nav,
           n_peaks = read_peaks (length targets div 6) targets\<rparr>) r) })"

definition handle_navigation_config_message ::
    "message \<Rightarrow> ('s, 'p, 'h) radar_client \<Rightarrow> ('s, 'p, 'h) radar_client option" where
  "handle_navigation_config_message m r =
     (if \<not> cb_navigation_config (callbacks r) then Some r
      else do {
        view \<leftarrow> view_nav_config m;
        Some (emit (Navigation_config_event
          \<lparr>s_bins_to_operate_on = bins_to_operate_on view, s_min_bin = min_bin_to_operate_on view,
           s_navigation_threshold = navigation_threshold view,
           s_max_peaks_per_azimuth = max_peaks_per_azimuth view\<rparr>) r) })"

definition handle_message ::
    "'s os_calls \<Rightarrow> ('p, 'h) protobufs \<Rightarrow> byte list \<Rightarrow> ('s, 'p, 'h) radar_client \<Rightarrow> ('s, 'p, 'h) radar_client option" where
  "handle_message os pb bytes r = do {
     let m = message_of bytes;
     code \<leftarrow> message_code m;
     if code = type_code configuration then handle_configuration_message os pb m r
     else if code = type_code fft_data then handle_fft_data_message m r
     else if code = type_code navigation_data then handle_navigation_data_message m r
     else if code = type_code navigation_alarm_data then Some r
     else if code = type_code health then handle_health_message pb m r
     else if code = type_code navigation_configuration then handle_navigation_config_message m r
     else Some r }"

section \<open>Angles\<close>

lemma rep_b32_b64: "rep b64 (val32 v)"
proof (cases "val32 v")
  case (Fin q)
  show ?thesis
  proof (cases "q = 0")
    case False
    define u where "u = ulp_exp b32 \<bar>q\<bar>"
    define m where "m = \<lfloor>\<bar>q\<bar> / 2 powi u\<rfloor>"
    have q: "\<bar>q\<bar> = of_int m * 2 powi u" "\<bar>q\<bar> < 2 powi (bias b32 + 1)"
      using rep_val32 [of v] Fin False by (simp_all add: rep_def u_def m_def)
    have "\<bar>q\<bar> < 2 powi (ilog2 \<bar>q\<bar> + 1)" using False by (intro ilog2_bounds) simp
    also have "\<dots> \<le> 2 powi (u + 24)" by (intro pow2_mono) (simp add: u_def ulp_exp_def b32_def)
    also have "\<dots> = of_int (2 ^ 24) * 2 powi u" by (simp add: power_int_add)
    finally have "m < 2 ^ 24"
      unfolding q(1) by (simp only: mult_less_cancel_right_pos [OF pow2_pos] of_int_less_iff)
    moreover have "0 \<le> m" by (simp add: m_def)
    ultimately have "\<bar>m\<bar> < 2 ^ (frac_bits b64 + 1)" by (simp add: b64_def)
    moreover have "ulp_min b64 \<le> u"
      by (simp add: u_def ulp_exp_def ulp_min_def bias_def b32_def b64_def)
    moreover have "\<bar>of_int m * 2 powi u :: rat\<bar> < 2 powi (bias b64 + 1)"
    proof -
      have "\<bar>of_int m * 2 powi u :: rat\<bar> = \<bar>q\<bar>" unfolding q(1) [symmetric] by simp
      also have "\<dots> < 2 powi (bias b32 + 1)" by (rule q(2))
      also have "\<dots> \<le> 2 powi (bias b64 + 1)" by (rule pow2_mono) (simp add: bias_def b32_def b64_def)
      finally show ?thesis .
    qed
    ultimately have "rep b64 (Fin (of_int m * 2 powi u))" by (rule rep_grid)
    then show ?thesis using Fin rep_abs [of b64 q] by (simp only: q(1) [symmetric])
  qed (simp add: Fin rep_def)
qed (simp_all add: rep_def)

lemma val64_of_f32: "val64 (f64_of_f32 v) = val32 v"
  by (simp add: f64_of_f32_def val64_mk64 rep_b32_b64)

text \<open>\<open>azimuth * 360.0f\<close> is exact: it is at most \<open>45 * 65535\<close> eighths of a turn unit.\<close>

lemma azimuth_scaled:
  assumes "0 \<le> a" "a < 65536"
  shows "rnd b32 (of_int a * 360) = of_int a * 360"
proof -
  have "(of_int a :: rat) * 360 = of_int (45 * a) * 2 powi 3" by simp
  then show ?thesis using single.grid [of "45 * a" 3] assms by (simp add: mult.commute)
qed

lemma azimuth_times_360:
  assumes "0 \<le> a" "a < 65536"
  shows "val32 (f32_mul (f32_of_int a) (f32_of_int 360)) = Fin (of_int a * 360)"
proof -
  have v: "val32 (f32_of_int a) = Fin (of_int a)" "val32 (f32_of_int 360) = Fin 360"
    using val32_of_int [of a] val32_of_int [of 360] assms by simp_all
  have "fp_mul b32 (Fin (of_int a)) (Fin 360) = Fin (of_int a * 360)"
  proof (cases "a = 0")
    case False
    have "\<bar>of_int a * 360 :: rat\<bar> < of_int (65536 * 360)"
      using assms by (simp add: abs_mult flip: of_int_less_iff)
    also have "of_int (65536 * 360) < (2 :: rat) powi (bias b32 + 1)" by (simp add: bias_def b32_def)
    finally have "to_fp b32 (of_int a * 360) = Fin (of_int a * 360)"
      using azimuth_scaled [OF assms] False by (simp add: to_fp_def)
    then show ?thesis using False assms by (simp add: fp_mul_def Let_def)
  qed (simp add: fp_mul_def Let_def signed_zero_def)
  moreover have "rep b32 (fp_mul b32 (Fin (of_int a)) (Fin 360))"
    unfolding fp_mul_def Let_def signed_zero_def signed_inf_def
    using rep_to_fp by (auto simp: rep_def)
  ultimately show ?thesis by (simp add: f32_mul_def v val32_mk32)
qed

lemma azimuth_quotient:
  assumes "0 \<le> a" "a < e" "e < 65536"
  shows "\<exists>x. val32 (f32_div (f32_mul (f32_of_int a) (f32_of_int 360)) (f32_of_int e)) = x \<and>
    has_val x (rnd b32 (of_int a * 360 / of_int e))"
proof -
  let ?q = "of_int a * 360 / of_int e :: rat"
  have v: "val32 (f32_mul (f32_of_int a) (f32_of_int 360)) = Fin (of_int a * 360)"
    using azimuth_times_360 assms by simp
  have w: "val32 (f32_of_int e) = Fin (of_int e)" using val32_of_int [of e] assms by simp
  have q: "of_int 0 \<le> ?q" "?q \<le> of_int 360"
  proof -
    show "?q \<le> of_int 360"
      using assms by (simp add: divide_le_eq)
  qed (use assms in simp)
  have "rep b32 (fp_div b32 (Fin (of_int a * 360)) (Fin (of_int e)))"
    unfolding fp_div_def Let_def signed_zero_def signed_inf_def
    using rep_to_fp by (auto simp: rep_def)
  moreover have "has_val (fp_div b32 (Fin (of_int a * 360)) (Fin (of_int e))) (rnd b32 ?q)"
  proof (cases "a = 0")
    case True
    then show ?thesis using assms by (simp add: fp_div_def Let_def signed_zero_def)
  next
    case False
    have "of_int 0 \<le> rnd b32 ?q \<and> rnd b32 ?q \<le> of_int 360" using q by (intro single.between_int) simp_all
    then have "has_val (to_fp b32 ?q) (rnd b32 ?q)"
      by (intro has_val_to_fp b32_limit) simp
    then show ?thesis using False assms by (simp add: fp_div_def Let_def)
  qed
  ultimately show ?thesis by (simp add: f32_div_def v w val32_mk32)
qed

lemma quotient_accurate:
  assumes "0 \<le> a" "a < e" "e < 65536"
  shows "0 \<le> rnd b32 (of_int a * 360 / of_int e) \<and> rnd b32 (of_int a * 360 / of_int e) < 360 \<and>
    \<bar>rnd b32 (of_int a * 360 / of_int e) - of_int a * 360 / of_int e\<bar> \<le> 1 / 2 ^ 15"
proof -
  let ?q = "of_int a * 360 / of_int e :: rat" and ?x = "rnd b32 (of_int a * 360 / of_int e)"
  have e: "(0 :: rat) < of_int e" "(of_int e :: rat) \<le> 65536" using assms by simp_all
  have "(of_int a :: rat) \<le> of_int (e - 1)" using assms by (simp only: of_int_le_iff)
  then have "?q \<le> 360 * (of_int e - 1) / of_int e" using e by (intro divide_right_mono) simp_all
  also have "\<dots> = 360 - 360 / of_int e" using e by (simp add: diff_divide_distrib algebra_simps)
  also have "\<dots> \<le> 360 - 360 / 65536" using divide_left_mono [OF e(2), of 360] e by simp
  finally have q: "0 \<le> ?q" "?q \<le> 360 - 360 / 65536" using assms by simp_all
  have "\<bar>?x - ?q\<bar> \<le> \<bar>?q\<bar> * 2 powi (- int 23 - 1) + 2 powi (- 149 - 1)" by (rule single.error)
  also have "\<dots> = ?q * (1 / 2 ^ 24) + 1 / 2 ^ 150"
    using abs_of_nonneg [OF q(1)] by (simp only:) (simp add: powi_numerals)
  also have "\<dots> \<le> 360 * (1 / 2 ^ 24) + 1 / 2 ^ 150" using q(2) by (intro add_mono mult_right_mono) simp_all
  also have "\<dots> \<le> 1 / 2 ^ 15" by simp
  finally have err: "\<bar>?x - ?q\<bar> \<le> 1 / 2 ^ 15" .
  then have "?x \<le> ?q + 1 / 2 ^ 15" by (simp only: abs_le_iff) linarith
  also have "\<dots> \<le> (360 - 360 / 65536) + 1 / 2 ^ 15" by (intro add_right_mono q(2))
  also have "\<dots> < 360" by simp
  finally show ?thesis using err single.nonneg [OF q(1)] by simp
qed

text \<open>
  C36: the angle the client reports for an azimuth below the encoder size is finite, at least 0
  and below 360, and within \<open>2\<^sup>-\<^sup>1\<^sup>5\<close> degrees of the exact angle.
\<close>

theorem azimuth_angle_accurate:
  assumes "az < esz"
  shows "\<exists>x. has_val (val64 (azimuth_angle az esz)) x \<and> 0 \<le> x \<and> x < 360 \<and>
    \<bar>x - of_int (uint az) * 360 / of_int (uint esz)\<bar> \<le> 1 / 2 ^ 15"
proof -
  have ae: "0 \<le> uint az" "uint az < uint esz" "uint esz < 65536"
    using assms uint_bounds(2) [of esz] by (simp_all add: word_less_def)
  have "has_val (val64 (azimuth_angle az esz)) (rnd b32 (of_int (uint az) * 360 / of_int (uint esz)))"
    using azimuth_quotient [OF ae] unfolding azimuth_angle_def val64_of_f32 by blast
  then show ?thesis using quotient_accurate [OF ae] by blast
qed

theorem azimuth_angle_accurate_witness:
  "\<exists>x. has_val (val64 (azimuth_angle 2800 5600)) x \<and> 0 \<le> x \<and> x < 360 \<and>
    \<bar>x - of_int (uint (2800 :: u16)) * 360 / of_int (uint (5600 :: u16))\<bar> \<le> 1 / 2 ^ 15"
  by (rule azimuth_angle_accurate) simp

section \<open>Commands on the wire\<close>

abbreviation via_tcp ::
    "('s client \<Rightarrow> 's client) \<Rightarrow> ('s, 'p, 'h) radar_client \<Rightarrow> ('s, 'p, 'h) radar_client" where
  "via_tcp f r \<equiv> r\<lparr>tcp_client := f (tcp_client r)\<rparr>"

lemma typed_message:
  "Option.bind message_default (set_type t) = Some (blank_message\<lparr>data := frame (type_code t) []\<rparr>)"
proof -
  have md: "message_default = Some (blank_message\<lparr>data := frame 0 []\<rparr>)"
    by (simp add: message_default_def initialize_framed blank_message_def)
  show ?thesis by (simp add: md set_type_framed [where c = 0 and pl = "[]"])
qed

lemma send_framed: "framed c pl m \<Longrightarrow> send_message os m r = Some (via_tcp (send_client os (frame c pl)) r)"
  by (simp add: send_message_def relinquish_framed)

lemma bind_typed: "do { m0 \<leftarrow> message_default; m1 \<leftarrow> set_type t m0; f m1 } =
    f (blank_message\<lparr>data := frame (type_code t) []\<rparr>)"
proof -
  have "do { m0 \<leftarrow> message_default; m1 \<leftarrow> set_type t m0; f m1 } =
      Option.bind (Option.bind message_default (set_type t)) f" by simp
  then show ?thesis by (simp only: typed_message bind.bind_lunit)
qed

lemma send_simple: "send_simple_network_message os t r =
    Some (if is_connected r then via_tcp (send_client os (frame (type_code t) [])) r else r)"
  by (simp add: send_simple_network_message_def bind_typed send_framed [where c = "type_code t" and pl = "[]"])

lemma send_with_buffer: "send_with_buffer os t buf r =
    Some (via_tcp (send_client os (frame (type_code t) buf)) r)"
proof -
  have "append_buffer buf (blank_message\<lparr>data := frame (type_code t) []\<rparr>) =
      Some (blank_message\<lparr>data := frame (type_code t) buf, has_protobuf := True\<rparr>)"
    by (subst append_buffer_framed [where c = "type_code t" and pl = "[]"]) simp_all
  then show ?thesis
    by (simp add: send_with_buffer_def bind_typed send_framed [where c = "type_code t" and pl = buf])
qed

lemma send_navigation_configuration: "send_navigation_configuration os cfg r =
    Some (via_tcp (send_client os
      (frame (type_code set_navigation_configuration) (nav_config_image (nav_config_of cfg)))) r)"
proof -
  let ?t = "type_code set_navigation_configuration" and ?h = "nav_config_image (nav_config_of cfg)"
  have "append_header ?h (blank_message\<lparr>data := frame ?t []\<rparr>) = Some (blank_message\<lparr>data := frame ?t ?h\<rparr>)"
    by (subst append_header_plain [where c = ?t and pl = "[]"]) (simp_all add: blank_message_def framed_def)
  then show ?thesis
    by (simp add: send_navigation_configuration_def bind_typed send_framed [where c = ?t and pl = ?h]
        del: type_code.simps)
qed

lemma send_client_stream:
  "get_connection_state c = Connected \<Longrightarrow>
    send_client stream_os bytes c = c\<lparr>env := (env c)\<lparr>sent := sent (env c) @ bytes\<rparr>\<rparr>"
  by (simp add: send_client_def send_socket_def stream_os_def)

lemma send_client_disconnected: "get_connection_state c \<noteq> Connected \<Longrightarrow> send_client os bytes c = c"
  by (simp add: send_client_def)

lemmas radar_commands = start_fft_stream_def start_non_contour_fft_stream_def stop_fft_stream_def
  start_health_data_def stop_health_data_def start_navigation_data_def stop_navigation_data_def
  request_navigation_configuration_def send_simple send_with_buffer send_navigation_threshold_def
  set_navigation_gain_and_offset_def send_navigation_configuration set_blanking_sectors_def
  update_contour_map_def

text \<open>What a command wrote, for a client whose environment is a stream.\<close>

definition wrote :: "(stream, 'p, 'h) radar_client \<Rightarrow> (stream, 'p, 'h) radar_client option \<Rightarrow> byte list \<Rightarrow> bool" where
  "wrote r res bytes \<longleftrightarrow>
     (case res of None \<Rightarrow> False
      | Some r' \<Rightarrow> sent (env (tcp_client r')) = sent (env (tcp_client r)) @ bytes \<and> events r' = events r)"

text \<open>
  On a client that is not connected no command writes anything or fails; the FFT commands
  still note that FFT data is wanted, so that it is asked for when a configuration arrives.
\<close>

theorem commands_disconnected:
  assumes "\<not> is_connected r"
  shows "send_simple_network_message os t r = Some r \<and>
    start_fft_stream os r = Some (r\<lparr>send_radar_data := True\<rparr>) \<and>
    stop_fft_stream os r = Some (r\<lparr>send_radar_data := False\<rparr>) \<and>
    send_navigation_threshold os thr r = Some r \<and>
    set_navigation_gain_and_offset os g ofs r = Some r \<and>
    send_navigation_configuration os cfg r = Some r \<and>
    set_blanking_sectors os l r = Some r \<and>
    update_contour_map os cd r = Some r"
  using assms by (simp add: radar_commands is_connected_def send_client_disconnected)

definition idle_radar :: "(stream, nat, nat) radar_client" where
  "idle_radar = (make_radar_client (IP 0x7F000001) 6317 sample_stream)"

definition connected_radar :: "(stream, nat, nat) radar_client" where
  "connected_radar = idle_radar\<lparr>tcp_client := connected_client\<rparr>"

theorem commands_disconnected_witness:
  "send_simple_network_message stream_os keep_alive idle_radar = Some idle_radar"
  using commands_disconnected [of idle_radar stream_os keep_alive]
  by (simp add: idle_radar_def make_radar_client_def make_client_def is_connected_def get_connection_state_def)

section \<open>Messages become events\<close>

lemma view_at:
  assumes "overlay img lay hs" "bytes = frame c (img h @ pl)" "length (img h @ pl) < 2 ^ 32"
  shows "map_option lay (view_header hs (message_of bytes)) = Some h"
    and "protobuf_vector hs (message_of bytes) = Some pl"
    and "message_code (message_of bytes) = Some c"
    and "relinquish (message_of bytes) = Some (bytes, (message_of bytes)\<lparr>data := []\<rparr>)"
proof -
  have f: "framed c (img h @ pl) (message_of bytes)"
    using assms(2) by (simp add: framed_def message_of_def replace_def)
  show "map_option lay (view_header hs (message_of bytes)) = Some h"
    using overlay.view_frame [OF assms(1) f] .
  show "protobuf_vector hs (message_of bytes) = Some pl"
    using overlay.payload_frame [OF assms(1) f assms(3)] .
  show "message_code (message_of bytes) = Some c"
    using assms(2) by (simp add: message_code_def message_of_def replace_def frame_code)
  show "relinquish (message_of bytes) = Some (bytes, (message_of bytes)\<lparr>data := []\<rparr>)"
    using relinquish_framed [OF f] assms(2) by simp
qed

definition fft_event :: "u16 \<Rightarrow> fft_hdr \<Rightarrow> byte list \<Rightarrow> fft_record" where
  "fft_event esz h bytes =
     \<lparr>f_angle = azimuth_angle (fft_azimuth h) esz, f_azimuth = fft_azimuth h,
      f_sweep_counter = sweep_counter h, f_ntp_seconds = seconds h,
      f_ntp_split_seconds = split_seconds h, f_data = bytes\<rparr>"

lemma fft_message_handled:
  assumes "length bytes < 1000000"
  shows "handle_message os pb (frame 30 (fft_image h @ bytes)) r =
    Some (r\<lparr>events := events r @
      (if cb_fft (callbacks r) then [Fft_event (fft_event (rc_encoder_size r) h bytes)] else []) @
      (if cb_raw_fft (callbacks r) then [Raw_fft_event (frame 30 (fft_image h @ bytes))] else [])\<rparr>)"
proof -
  let ?b = "frame 30 (fft_image h @ bytes)"
  have n: "length (fft_image h @ bytes) < 2 ^ 32"
    using assms by (simp add: fft_view.image_size fft_size_def)
  note v = view_at [OF fft_view.overlay_axioms refl n]
  have "view_fft (message_of ?b) = Some h" using v(1) by (simp only: view_fft_def)
  then have "handle_fft_data_message (message_of ?b) r =
    Some (r\<lparr>events := events r @
      (if cb_fft (callbacks r) then [Fft_event (fft_event (rc_encoder_size r) h bytes)] else []) @
      (if cb_raw_fft (callbacks r) then [Raw_fft_event ?b] else [])\<rparr>)"
    by (simp add: handle_fft_data_message_def raw_callback_def v emit_def fft_event_def
        fft_ntp_seconds_def fft_ntp_split_seconds_def)
  then show ?thesis by (simp add: handle_message_def v(3))
qed

text \<open>The bytes of navigation peaks as a radar sends them, and what the client makes of them.\<close>

definition peak_bytes :: "u32 \<times> u16 \<Rightarrow> byte list" where
  "peak_bytes = (\<lambda>(rng, power). rev (mem32 rng) @ rev (mem16 power))"

lemma load_rev: "load32 (rev (mem32 w)) = htonl w" "load16 (rev (mem16 v)) = htons v"
  by (simp_all add: htonl_def htons_def)

lemma read_peaks_bytes:
  "read_peaks (length ps) (concat (map peak_bytes ps) @ junk) =
    map (\<lambda>(rng, power). (f32_div (f32_of_int (uint rng)) range_multiplier, power)) ps"
  by (induction ps) (auto simp: peak_bytes_def load_rev)

text \<open>
  C31: a navigation message with the bytes of a list of peaks (and fewer than six bytes after
  them) is reported with exactly these peaks, in order: the range divided by a million, the
  power as it was sent.
\<close>

theorem navigation_peaks_reported:
  assumes "cb_navigation (callbacks r)" "length junk < 6" "6 * length ps < 900000"
  shows "handle_message os pb (frame 123 (navigation_image h @ concat (map peak_bytes ps) @ junk)) r =
    Some (r\<lparr>events := events r @ [Navigation_event
      \<lparr>n_angle = azimuth_angle (nav_azimuth h) (rc_encoder_size r), n_azimuth = nav_azimuth h,
       n_ntp_seconds = nav_ntp_seconds h, n_ntp_split_seconds = nav_ntp_split_seconds h,
       n_peaks = map (\<lambda>(rng, power). (f32_div (f32_of_int (uint rng)) range_multiplier, power)) ps\<rparr>]\<rparr>)"
proof -
  let ?t = "concat (map peak_bytes ps) @ junk"
  let ?b = "frame 123 (navigation_image h @ ?t)"
  have "length (concat (map peak_bytes ps)) = 6 * length ps"
    by (induction ps) (auto simp: peak_bytes_def)
  then have l: "length ?t = 6 * length ps + length junk" by simp
  then have n: "length (navigation_image h @ ?t) < 2 ^ 32"
    using assms by (simp add: navigation_view.image_size navigation_size_def)
  note v = view_at [OF navigation_view.overlay_axioms refl n]
  have w: "view_navigation (message_of ?b) = Some h" using v(1) by (simp only: view_navigation_def)
  have "length ?t div 6 = length ps" using l assms(2) by presburger
  then have "read_peaks (length ?t div 6) ?t =
      map (\<lambda>(rng, power). (f32_div (f32_of_int (uint rng)) range_multiplier, power)) ps"
    using read_peaks_bytes [of ps junk] by simp
  then have "handle_navigation_data_message (message_of ?b) r = Some (r\<lparr>events := events r @ [Navigation_event
      \<lparr>n_angle = azimuth_angle (nav_azimuth h) (rc_encoder_size r), n_azimuth = nav_azimuth h,
       n_ntp_seconds = nav_ntp_seconds h, n_ntp_split_seconds = nav_ntp_split_seconds h,
       n_peaks = map (\<lambda>(rng, power). (f32_div (f32_of_int (uint rng)) range_multiplier, power)) ps\<rparr>]\<rparr>)"
    using assms(1) w v(2) by (simp add: handle_navigation_data_message_def emit_def)
  then show ?thesis by (simp add: handle_message_def v(3))
qed

definition sample_navigation :: navigation_hdr where
  "sample_navigation = \<lparr>net_azimuth = 0, nav_seconds = 0, nav_split_seconds = 0\<rparr>"

definition sample_protobufs :: "(nat, nat) protobufs" where
  "sample_protobufs =
     \<lparr>parse_configuration = length, range_resolution_metres = (\<lambda>n. F32 0), parse_health = length\<rparr>"

theorem navigation_peaks_reported_witness:
  "\<exists>r'. handle_message stream_os sample_protobufs
      (frame 123 (navigation_image sample_navigation @ concat (map peak_bytes [(5000000, 90)]) @ [1]))
      (set_navigation_data_callback True idle_radar) = Some r' \<and> length (events r') = 1"
  using navigation_peaks_reported [of "set_navigation_data_callback True idle_radar" "[1]" "[(5000000, 90)]"
      stream_os sample_protobufs sample_navigation]
  by (simp add: set_navigation_data_callback_def idle_radar_def make_radar_client_def)

section \<open>The contour map\<close>

lemma to_fp_nonneg:
  assumes "of_int 0 \<le> q" "q \<le> of_int 65535"
  shows "to_fp b64 q = Fin (rnd b64 q)" "0 \<le> rnd b64 q" "rnd b64 q \<le> 65535"
proof -
  have b: "of_int 0 \<le> rnd b64 q \<and> rnd b64 q \<le> of_int 65535" using assms by (intro double.between_int) simp_all
  then show "0 \<le> rnd b64 q" "rnd b64 q \<le> 65535" by simp_all
  have "\<bar>rnd b64 q\<bar> < 2 powi (bias b64 + 1)" using b by (intro b64_limit) simp
  then show "to_fp b64 q = Fin (rnd b64 q)" using assms(1) by (auto simp: to_fp_def Let_def)
qed

lemma byte_split:
  "0 \<le> n \<Longrightarrow> n \<le> 65535 \<Longrightarrow> uint (of_int (n div 256) :: byte) * 256 + uint (of_int (n mod 256) :: byte) = n"
proof -
  assume "0 \<le> n" "n \<le> 65535"
  then have "0 \<le> n div 256" "n div 256 \<le> 65535 div 256" by (simp_all only: zdiv_mono1 pos_imp_zdiv_nonneg_iff)
  then have "n div 256 mod 256 = n div 256" by (intro mod_pos_pos_trivial) simp_all
  then show ?thesis unfolding uint_of_int_byte by (simp only: mod_mod_trivial) simp
qed

lemma contour_entry_value:
  assumes "val64 bin = Fin q" "0 < q" "of_int (uint hi * 256 + uint lo) \<le> 65535 * q"
  shows "\<exists>hi' lo'. contour_entry bin hi lo = Some (hi', lo') \<and>
    uint hi' * 256 + uint lo' = \<lceil>rnd b64 (of_int (uint hi * 256 + uint lo) / q)\<rceil>"
proof -
  define v where "v = uint hi * 256 + uint lo"
  have v: "0 \<le> v" "v \<le> 65535"
    using uint_bounds [of hi] uint_bounds [of lo] by (simp_all add: v_def)
  have d: "of_int 0 \<le> of_int v / q" "of_int v / q \<le> of_int 65535"
    using v assms(2,3) by (simp_all add: pos_divide_le_eq v_def [symmetric])
  define r where "r = rnd b64 (of_int v / q)"
  have r: "0 \<le> r" "r \<le> 65535" "to_fp b64 (of_int v / q) = Fin r"
    using to_fp_nonneg [OF d] by (simp_all add: r_def)
  have "fp_div b64 (Fin (of_int v)) (val64 bin) = Fin r"
    using assms v r(3) by (cases "v = 0") (simp_all add: fp_div_def Let_def signed_zero_def r_def)
  moreover have "fp_ceil (Fin r) = Fin (of_int \<lceil>r\<rceil>)" using r(1) by (simp add: fp_ceil_def)
  moreover have n: "0 \<le> \<lceil>r\<rceil>" "\<lceil>r\<rceil> \<le> 65535" using r by (simp_all add: ceiling_le_iff)
  ultimately have "contour_entry bin hi lo = Some (of_int (\<lceil>r\<rceil> div 256), of_int (\<lceil>r\<rceil> mod 256))"
    by (simp add: contour_entry_def v_def [symmetric] fp_to_int_def rat_trunc_def Let_def)
  moreover have "uint (of_int (\<lceil>r\<rceil> div 256) :: byte) * 256 + uint (of_int (\<lceil>r\<rceil> mod 256) :: byte) = \<lceil>r\<rceil>"
    using n by (rule byte_split)
  ultimately show ?thesis by (simp add: r_def v_def)
qed

lemma contour_scale_values:
  "val64 bin = Fin q \<Longrightarrow> 0 < q \<Longrightarrow> even (length xs) \<Longrightarrow>
    \<forall>i < length xs div 2. of_int (uint (xs ! (2 * i)) * 256 + uint (xs ! (2 * i + 1))) \<le> 65535 * q \<Longrightarrow>
    \<exists>ys. contour_scale bin xs = Some ys \<and> length ys = length xs \<and>
    (\<forall>i < length xs div 2. uint (ys ! (2 * i)) * 256 + uint (ys ! (2 * i + 1)) =
      \<lceil>rnd b64 (of_int (uint (xs ! (2 * i)) * 256 + uint (xs ! (2 * i + 1))) / q)\<rceil>)"
proof (induction bin xs rule: contour_scale.induct)
  case (1 bin hi lo rest)
  have fit: "of_int (uint hi * 256 + uint lo) \<le> 65535 * q"
      "\<forall>i < length rest div 2. of_int (uint (rest ! (2 * i)) * 256 + uint (rest ! (2 * i + 1))) \<le> 65535 * q"
    using "1.prems"(4) by (simp_all add: All_less_Suc2)
  obtain h l where hl: "contour_entry bin hi lo = Some (h, l)"
      "uint h * 256 + uint l = \<lceil>rnd b64 (of_int (uint hi * 256 + uint lo) / q)\<rceil>"
    using contour_entry_value [OF "1.prems"(1,2) fit(1)] by blast
  then obtain ys where "contour_scale bin rest = Some ys" "length ys = length rest"
      "\<forall>i < length rest div 2. uint (ys ! (2 * i)) * 256 + uint (ys ! (2 * i + 1)) =
        \<lceil>rnd b64 (of_int (uint (rest ! (2 * i)) * 256 + uint (rest ! (2 * i + 1))) / q)\<rceil>"
    using "1.IH" [OF hl(1) refl] "1.prems"(1-3) fit(2) by auto
  then show ?case using hl by (simp add: All_less_Suc2)
qed auto

lemma contour_scale_length: "contour_scale bin xs = Some ys \<Longrightarrow> length ys \<le> length xs"
  by (induction bin xs arbitrary: ys rule: contour_scale.induct) (auto split: bind_splits)

lemma contour_entry_zero:
  "contour_entry (F64 0) hi lo = None"
proof -
  have "val64 (F64 0) = Fin 0"
    by (simp add: val64_def dec_def b64_def signed_zero_def)
  then show ?thesis
    by (simp add: contour_entry_def fp_div_def Let_def fp_ceil_def fp_to_int_def signed_inf_def)
qed

text \<open>
  A contour map of the right size, sent once a configuration with a bin size has arrived, is
  sent whole, each entry divided by the bin size and rounded up, when the quotients fit 16 bits;
  before any configuration has arrived its division by zero is undefined.
\<close>

lemma contour_map_sent:
  assumes "is_connected r" "length cd = 720"
  shows "val64 (rc_bin_size r) = Fin q \<Longrightarrow> 0 < q \<Longrightarrow>
      \<forall>i < 360. of_int (uint (cd ! (2 * i)) * 256 + uint (cd ! (2 * i + 1))) \<le> 65535 * q \<Longrightarrow> \<exists>out. length out = 720 \<and>
      (\<forall>i < 360. uint (out ! (2 * i)) * 256 + uint (out ! (2 * i + 1)) =
        \<lceil>rnd b64 (of_int (uint (cd ! (2 * i)) * 256 + uint (cd ! (2 * i + 1))) / q)\<rceil>) \<and>
      wrote r (update_contour_map stream_os cd r) (frame 50 out)"
    and "rc_bin_size r = F64 0 \<Longrightarrow> update_contour_map stream_os cd r = None"
proof -
  assume "val64 (rc_bin_size r) = Fin q" "0 < q" "\<forall>i < 360. of_int (uint (cd ! (2 * i)) * 256 + uint (cd ! (2 * i + 1))) \<le> 65535 * q"
  with contour_scale_values [OF this(1,2), of cd] assms(2)
  obtain out where "contour_scale (rc_bin_size r) cd = Some out" "length out = 720"
      "\<forall>i < 360. uint (out ! (2 * i)) * 256 + uint (out ! (2 * i + 1)) =
        \<lceil>rnd b64 (of_int (uint (cd ! (2 * i)) * 256 + uint (cd ! (2 * i + 1))) / q)\<rceil>" by auto
  then show "\<exists>out. length out = 720 \<and>
      (\<forall>i < 360. uint (out ! (2 * i)) * 256 + uint (out ! (2 * i + 1)) =
        \<lceil>rnd b64 (of_int (uint (cd ! (2 * i)) * 256 + uint (cd ! (2 * i + 1))) / q)\<rceil>) \<and>
      wrote r (update_contour_map stream_os cd r) (frame 50 out)"
    using assms by (intro exI [of _ out]) (simp add: wrote_def radar_commands is_connected_def send_client_stream)
next
  assume "rc_bin_size r = F64 0"
  obtain hi lo rest where "cd = hi # lo # rest"
    using assms(2) by (cases cd; cases "tl cd") auto
  then have "contour_scale (F64 0) cd = None" by (simp add: contour_entry_zero)
  then show "update_contour_map stream_os cd r = None"
    using assms \<open>rc_bin_size r = F64 0\<close> by (simp add: update_contour_map_def is_connected_def)
qed

text \<open>
  C30: on a connected client each of the thirteen commands writes exactly one message: the frame
  of its type with its payload: none for the eight plain commands; the threshold in network order;
  the image of the navigation configuration; the sector list; the gain and the offset, each
  multiplied by 1000000 and cast to 32 bits, in network order; and the contour map. The cast and
  the contour map can be undefined: when the gain or the offset is out of the range of the cast
  (negative, say) the command has no defined result. A contour map of 720 bytes, with a
  positive bin size for which the quotients fit 16 bits, is sent with each 16-bit entry divided by
  the bin size, rounded to \<open>double\<close> and then up; before any configuration has arrived it is undefined (a division by zero);
  one of another length is sent empty.
\<close>

theorem commands_on_the_wire:
  assumes "is_connected r"
  shows "wrote r (start_fft_stream stream_os r) (frame 21 []) \<and>
    wrote r (start_non_contour_fft_stream stream_os r) (frame 140 []) \<and>
    wrote r (stop_fft_stream stream_os r) (frame 22 []) \<and>
    wrote r (start_health_data stream_os r) (frame 23 []) \<and>
    wrote r (stop_health_data stream_os r) (frame 24 []) \<and>
    wrote r (start_navigation_data stream_os r) (frame 120 []) \<and>
    wrote r (stop_navigation_data stream_os r) (frame 121 []) \<and>
    wrote r (request_navigation_configuration stream_os r) (frame 203 []) \<and>
    wrote r (send_navigation_threshold stream_os thr r) (frame 122 (rev (mem16 thr))) \<and>
    wrote r (send_navigation_configuration stream_os cfg r) (frame 205 (nav_config_image (nav_config_of cfg))) \<and>
    wrote r (set_blanking_sectors stream_os l r) (frame 51 (sectors_to_vector l)) \<and>
    (case (f32_to_u32 (f32_mul gn range_multiplier), f32_to_u32 (f32_mul ofs range_multiplier)) of
       (Some g, Some d) \<Rightarrow>
         wrote r (set_navigation_gain_and_offset stream_os gn ofs r) (frame 124 (rev (mem32 g) @ rev (mem32 d)))
     | _ \<Rightarrow> set_navigation_gain_and_offset stream_os gn ofs r = None) \<and>
    (length cd \<noteq> 720 \<longrightarrow> wrote r (update_contour_map stream_os cd r) (frame 50 [])) \<and>
    (length cd = 720 \<and> val64 (rc_bin_size r) = Fin q \<and> 0 < q \<and>
      (\<forall>i < 360. of_int (uint (cd ! (2 * i)) * 256 + uint (cd ! (2 * i + 1))) \<le> 65535 * q) \<longrightarrow> (\<exists>out. length out = 720 \<and>
      (\<forall>i < 360. uint (out ! (2 * i)) * 256 + uint (out ! (2 * i + 1)) =
        \<lceil>rnd b64 (of_int (uint (cd ! (2 * i)) * 256 + uint (cd ! (2 * i + 1))) / q)\<rceil>) \<and>
      wrote r (update_contour_map stream_os cd r) (frame 50 out))) \<and>
    (length cd = 720 \<and> rc_bin_size r = F64 0 \<longrightarrow> update_contour_map stream_os cd r = None)"
proof -
  have "mem16 (ntohs thr) = rev (mem16 thr)" by (simp add: ntohs_def mem_load16)
  moreover have "case (f32_to_u32 (f32_mul gn range_multiplier), f32_to_u32 (f32_mul ofs range_multiplier)) of
       (Some g, Some d) \<Rightarrow>
         wrote r (set_navigation_gain_and_offset stream_os gn ofs r) (frame 124 (rev (mem32 g) @ rev (mem32 d)))
     | _ \<Rightarrow> set_navigation_gain_and_offset stream_os gn ofs r = None"
    using assms by (auto simp: wrote_def radar_commands is_connected_def send_client_stream gain_word_def mem_htonl
        split: option.split)
  moreover have "length cd \<noteq> 720 \<longrightarrow> wrote r (update_contour_map stream_os cd r) (frame 50 [])"
    using assms by (simp add: wrote_def radar_commands is_connected_def send_client_stream)
  moreover note contour_map_sent(1) [OF assms, of cd q] contour_map_sent(2) [OF assms, of cd]
  ultimately show ?thesis
    using assms by (simp add: wrote_def radar_commands is_connected_def send_client_stream)
qed

theorem commands_on_the_wire_witness:
  "wrote (connected_radar\<lparr>rc_bin_size := F64 0x3FF0000000000000\<rparr>)
     (update_contour_map stream_os [1] (connected_radar\<lparr>rc_bin_size := F64 0x3FF0000000000000\<rparr>)) (frame 50 [])"
  using commands_on_the_wire [where r = "connected_radar\<lparr>rc_bin_size := F64 0x3FF0000000000000\<rparr>" and cd = "[1]"]
  by (simp add: connected_radar_def is_connected_def get_connection_state_def connected_client_def)

section \<open>From the wire to the callback\<close>

text \<open>
  The worker of the receive queue hands the item at the front to \<open>handle_data\<close>, the callback that
  \<open>start\<close> installs.
\<close>

definition dispatch_next ::
    "'s os_calls \<Rightarrow> ('p, 'h) protobufs \<Rightarrow> ('s, 'p, 'h) radar_client \<Rightarrow> ('s, 'p, 'h) radar_client option" where
  "dispatch_next os pb r =
     (case items (receive_queue (tcp_client r)) of
        [] \<Rightarrow> Some r
      | bytes # _ \<Rightarrow>
          handle_message os pb bytes
            (via_tcp (\<lambda>c. c\<lparr>receive_queue := work_once (receive_queue c)\<rparr>) r))"

end
