(* ===== verification/Peak_Finder.thy ===== *)
theory Peak_Finder
  imports Radar_Client
begin

text \<open>
  \<open>cpp_17/navigation/vector_maths.h\<close>, \<open>peak_finder.h\<close> and \<open>.cpp\<close>: finding the peaks of an azimuth
  and resolving each to a fraction of a bin by fitting a parabola.  A \<open>double\<close> is its value; the
  fit is written over a record of arithmetic operations, of which \<open>double_arith\<close> is what the
  code uses and \<open>exact_arith\<close> the reference it approximates.  \<open>std::pow\<close> and \<open>std::log10\<close> are
  not prescribed to the last bit, and so are parameters.
\<close>

section \<open>Vector mathematics\<close>

record 'a arith =
  ar_add :: "'a \<Rightarrow> 'a \<Rightarrow> 'a"
  ar_sub :: "'a \<Rightarrow> 'a \<Rightarrow> 'a"
  ar_mul :: "'a \<Rightarrow> 'a \<Rightarrow> 'a"
  ar_div :: "'a \<Rightarrow> 'a \<Rightarrow> 'a"
  ar_neg :: "'a \<Rightarrow> 'a"
  ar_int :: "int \<Rightarrow> 'a"

definition double_arith :: "fp arith" where
  "double_arith =
     \<lparr>ar_add = fp_add b64, ar_sub = fp_sub b64, ar_mul = fp_mul b64, ar_div = fp_div b64,
      ar_neg = fp_neg, ar_int = (\<lambda>i. to_fp b64 (of_int i))\<rparr>"

definition exact_arith :: "rat arith" where
  "exact_arith =
     \<lparr>ar_add = (+), ar_sub = (-), ar_mul = (*), ar_div = (/), ar_neg = uminus, ar_int = of_int\<rparr>"

text \<open>Each loop adds to a result that the caller passes in; the arrays have the given length.\<close>

fun scalar_sum :: "'a arith \<Rightarrow> 'a list \<Rightarrow> 'a \<Rightarrow> 'a" where
  "scalar_sum ar [] res = res"
| "scalar_sum ar (d # ds) res = scalar_sum ar ds (ar_add ar res d)"

fun scalar_square :: "'a arith \<Rightarrow> 'a list \<Rightarrow> 'a \<Rightarrow> 'a" where
  "scalar_square ar [] res = res"
| "scalar_square ar (d # ds) res = scalar_square ar ds (ar_add ar res (ar_mul ar d d))"

definition vector_square :: "'a arith \<Rightarrow> 'a list \<Rightarrow> 'a list \<Rightarrow> 'a list" where
  "vector_square ar ds res = map2 (\<lambda>d r. ar_add ar r (ar_mul ar d d)) ds res"

definition vector_cube :: "'a arith \<Rightarrow> 'a list \<Rightarrow> 'a list \<Rightarrow> 'a list" where
  "vector_cube ar ds res = map2 (\<lambda>d r. ar_add ar r (ar_mul ar (ar_mul ar d d) d)) ds res"

definition vector_multiply :: "'a arith \<Rightarrow> 'a list \<Rightarrow> 'a list \<Rightarrow> 'a list \<Rightarrow> 'a list" where
  "vector_multiply ar ds es res = map2 (\<lambda>(d, e) r. ar_add ar r (ar_mul ar d e)) (zip ds es) res"

section \<open>Resolving a peak\<close>

text \<open>One elimination step: \<open>row - f * pivot\<close>, from the given column on.\<close>

definition eliminate :: "'a arith \<Rightarrow> 'a \<Rightarrow> 'a list \<Rightarrow> 'a list \<Rightarrow> 'a list" where
  "eliminate ar f pivot row = map2 (\<lambda>r p. ar_sub ar r (ar_mul ar f p)) row pivot"

definition fit_vertex :: "'a arith \<Rightarrow> 'a list \<Rightarrow> 'a list \<Rightarrow> 'a" where
  "fit_vertex ar x y =
     (let zero = ar_int ar 0;
          zeros = replicate (length x) zero;
          Sx = scalar_sum ar x zero;
          Sx2 = scalar_square ar x zero;
          x3 = vector_cube ar x zeros;
          Sx3 = scalar_sum ar x3 zero;
          x2 = vector_square ar x zeros;
          x4 = vector_multiply ar x2 x2 zeros;
          Sx4 = scalar_sum ar x4 zero;
          Sy = scalar_sum ar y zero;
          Sxy = scalar_sum ar (vector_multiply ar x y zeros) zero;
          Sx2y = scalar_sum ar (vector_multiply ar x2 y zeros) zero;
          A = [Sx2, Sx3, Sx4, Sx2y];
          B = [Sx, Sx2, Sx3, Sxy];
          C = [ar_int ar (int (length x)), Sx, Sx2, Sy];
          C1 = eliminate ar (ar_div ar (C ! 0) (A ! 0)) A C;
          B1 = eliminate ar (ar_div ar (B ! 0) (A ! 0)) A B;
          F = ar_div ar (C1 ! 1) (B1 ! 1);
          C2 = take 1 C1 @ eliminate ar F (drop 1 B1) (drop 1 C1);
          b2 = ar_div ar (C2 ! 3) (C2 ! 2);
          b1 = ar_div ar (ar_sub ar (B1 ! 3) (ar_mul ar (B1 ! 2) b2)) (B1 ! 1)
      in ar_div ar (ar_neg ar b1) (ar_mul ar (ar_int ar 2) b2))"

definition bins_to_offset :: "nat \<Rightarrow> nat" where
  "bins_to_offset bins = (bins - 1) div 2"

text \<open>An index below 0 or past the end of the data is undefined behaviour.\<close>

definition peak_resolve :: "'a arith \<Rightarrow> 'a list \<Rightarrow> nat \<Rightarrow> nat \<Rightarrow> 'a option" where
  "peak_resolve ar bin_data peak_bin bins =
     (let off = int (bins_to_offset bins);
          x = map (\<lambda>i. ar_int ar (int i - off)) [0..<bins];
          start_bin = int peak_bin - off
      in if start_bin < 0 then None
      else do {
        y \<leftarrow> peek_at (nat start_bin) bins bin_data;
        Some (ar_sub ar (ar_add ar (fit_vertex ar x y) (ar_int ar start_bin)) (ar_int ar (0 - off))) })"

section \<open>The peaks of an azimuth\<close>

definition min_bins_to_operate_on :: nat where
  "min_bins_to_operate_on = 5"

definition max_bins_to_operate_on :: nat where
  "max_bins_to_operate_on = 15"

datatype buffer_modes = Off | Average | Maximum

record azimuth_target =
  t_azimuth :: u16
  t_angle :: float64
  t_ntp_seconds :: u32
  t_ntp_split_seconds :: u32
  targets :: "(fp \<times> fp) list"

record peak_finder =
  pf_threshold :: fp
  pf_bins :: nat
  min_bin_to_use :: nat
  awaiting_rise :: bool
  data_buffer :: "fp list list"
  buffer_mode :: buffer_modes
  buffer_length :: nat
  pf_max_peaks :: nat
  pf_configuration :: "(configuration_record \<times> float32) option"
  target_callback :: bool

definition new_peak_finder :: peak_finder where
  "new_peak_finder = \<lparr>pf_threshold = Fin 0, pf_bins = 4, min_bin_to_use = 50,
     awaiting_rise = False, data_buffer = [], buffer_mode = Off, buffer_length = 10,
     pf_max_peaks = 10, pf_configuration = None, target_callback = False\<rparr>"

definition set_target_callback :: "bool \<Rightarrow> peak_finder \<Rightarrow> peak_finder" where
  "set_target_callback given pf = pf\<lparr>target_callback := given\<rparr>"

definition set_threshold :: "fp \<Rightarrow> peak_finder \<Rightarrow> peak_finder" where
  "set_threshold thresh pf = pf\<lparr>pf_threshold := thresh\<rparr>"

definition configure ::
    "configuration_record \<Rightarrow> float32 \<Rightarrow> fp \<Rightarrow> nat \<Rightarrow> nat \<Rightarrow> buffer_modes \<Rightarrow> nat \<Rightarrow> nat \<Rightarrow> peak_finder \<Rightarrow> peak_finder" where
  "configure config metres thresh bins min_bin' mode buf_length peaks pf =
     pf\<lparr>pf_configuration := Some (config, metres), pf_threshold := thresh,
        pf_bins := max (min bins max_bins_to_operate_on) min_bins_to_operate_on,
        min_bin_to_use := min_bin', buffer_mode := mode, buffer_length := buf_length,
        pf_max_peaks := peaks\<rparr>"

text \<open>
  The loop of \<open>find_peak_bin\<close>, which reads and sets \<open>awaiting_rise\<close>; a bin is looked at together
  with its successor.
\<close>

function find_peak_loop :: "fp \<Rightarrow> fp list \<Rightarrow> int \<Rightarrow> nat \<Rightarrow> bool \<Rightarrow> nat \<Rightarrow> (bool \<times> nat) option" where
  "find_peak_loop thr ds final end_bin awaiting p =
     (if int p \<le> final then do {
        d0 \<leftarrow> nth_opt ds p;
        d1 \<leftarrow> nth_opt ds (p + 1);
        if awaiting \<and> fp_less d1 d0 then find_peak_loop thr ds final end_bin awaiting (p + 1)
        else if fp_less thr d0 \<and> fp_less d1 d0 then Some (True, p)
        else find_peak_loop thr ds final end_bin False (p + 1) }
      else Some (awaiting, end_bin))"
  by pat_completeness auto

termination
  by (relation "measure (\<lambda>(thr, ds, final, e, a, p). nat (final + 1 - int p))") auto

declare find_peak_loop.simps [simp del]

definition find_peak_bin :: "fp \<Rightarrow> fp list \<Rightarrow> nat \<Rightarrow> nat \<Rightarrow> nat \<Rightarrow> bool \<Rightarrow> (bool \<times> nat) option" where
  "find_peak_bin thr ds start_bin end_bin bins awaiting =
     (if int start_bin > int end_bin - int bins then Some (awaiting, end_bin)
      else find_peak_loop thr ds (int end_bin - int bins) end_bin awaiting start_bin)"

text \<open>The distance of a resolved bin, in \<open>double\<close> with the \<open>float\<close> factors widened.\<close>

definition peak_range :: "configuration_record \<Rightarrow> float32 \<Rightarrow> fp \<Rightarrow> fp" where
  "peak_range config metres resolved =
     fp_add b64 (fp_mul b64 (fp_mul b64 resolved (val32 (c_range_gain config))) (val32 metres))
       (val32 (c_range_offset config))"

definition range_limit :: "nat \<Rightarrow> float32 \<Rightarrow> fp" where
  "range_limit bins metres = val32 (f32_mul (f32_of_int (int bins)) metres)"

definition range_rejected :: "nat \<Rightarrow> nat \<Rightarrow> float32 \<Rightarrow> fp \<Rightarrow> bool" where
  "range_rejected bins all_bins metres r \<longleftrightarrow>
     is_inf r \<or> fp_less r (range_limit bins metres) \<or> fp_less (range_limit all_bins metres) r"

definition all_bins :: "configuration_record \<Rightarrow> nat" where
  "all_bins config = unat (c_range_in_bins config)"

text \<open>
  The loop of \<open>find_peaks\<close>: the last peak bin, where the search goes on (a 16-bit sum), whether a
  rise is awaited, the targets and their number.
\<close>

partial_function (option) find_peaks_loop ::
    "peak_finder \<Rightarrow> configuration_record \<Rightarrow> float32 \<Rightarrow> fp list \<Rightarrow> nat \<Rightarrow> nat \<Rightarrow> bool \<Rightarrow> (fp \<times> fp) list \<Rightarrow> nat \<Rightarrow>
      (bool \<times> (fp \<times> fp) list) option" where
  "find_peaks_loop pf config metres ds peak_bin min_bin' awaiting ts peaks_found =
     (if peak_bin = all_bins config then Some (awaiting, ts)
      else do {
        (awaiting', peak) \<leftarrow>
          find_peak_bin (pf_threshold pf) ds min_bin' (all_bins config) (pf_bins pf) awaiting;
        let next_bin = (peak + pf_bins pf) mod 65536;
        if peak < all_bins config then do {
          resolved \<leftarrow> peak_resolve double_arith ds peak (pf_bins pf);
          let r = peak_range config metres resolved;
          if range_rejected (pf_bins pf) (all_bins config) metres r
          then find_peaks_loop pf config metres ds peak next_bin awaiting' ts peaks_found
          else do {
            power \<leftarrow> nth_opt ds peak;
            if peaks_found + 1 \<ge> pf_max_peaks pf then Some (awaiting', ts @ [(r, power)])
            else find_peaks_loop pf config metres ds peak next_bin awaiting' (ts @ [(r, power)]) (peaks_found + 1) } }
        else if peaks_found \<ge> pf_max_peaks pf then Some (awaiting', ts)
        else find_peaks_loop pf config metres ds peak next_bin awaiting' ts peaks_found })"

definition find_peaks ::
    "u16 \<Rightarrow> float64 \<Rightarrow> u32 \<Rightarrow> u32 \<Rightarrow> fp list \<Rightarrow> peak_finder \<Rightarrow> (peak_finder \<times> azimuth_target option) option" where
  "find_peaks az ang ntp split ds pf =
     (case pf_configuration pf of
        None \<Rightarrow> None
      | Some (config, metres) \<Rightarrow> do {
          (awaiting, ts) \<leftarrow> find_peaks_loop pf config metres ds 0 (min_bin_to_use pf) False [] 0;
          Some (pf\<lparr>awaiting_rise := awaiting\<rparr>,
            if ts \<noteq> [] \<and> target_callback pf
            then Some \<lparr>t_azimuth = az, t_angle = ang, t_ntp_seconds = ntp, t_ntp_split_seconds = split, targets = ts\<rparr>
            else None) })"

section \<open>The FFT data handler\<close>

record libm =
  lib_pow10 :: "fp \<Rightarrow> fp"     \<comment> \<open>\<open>std::pow(10.0f, x)\<close> on \<open>double\<close>\<close>
  lib_log10f :: "fp \<Rightarrow> fp"    \<comment> \<open>\<open>std::log10\<close> on \<open>float\<close>\<close>

definition as_doubles :: "byte list \<Rightarrow> fp list" where
  "as_doubles = map (\<lambda>b. Fin (of_int (uint b)))"

definition half_db :: "fp \<Rightarrow> fp" where
  "half_db d = fp_div b64 d (Fin 2)"

text \<open>A column of the buffer; a vector that is too short is read past its end.\<close>

fun column :: "fp list list \<Rightarrow> nat \<Rightarrow> fp list option" where
  "column [] bin = Some []"
| "column (v # vs) bin = do { d \<leftarrow> nth_opt v bin; ds \<leftarrow> column vs bin; Some (d # ds) }"

fun average_total :: "libm \<Rightarrow> fp list \<Rightarrow> fp \<Rightarrow> fp" where
  "average_total lib [] acc = acc"
| "average_total lib (d # ds) acc =
     average_total lib ds
       (fp_cast b32 (fp_add b64 acc (lib_pow10 lib (fp_div b64 (half_db d) (Fin 10)))))"

definition average_bin :: "libm \<Rightarrow> fp list list \<Rightarrow> nat \<Rightarrow> fp option" where
  "average_bin lib buf bin = do {
     ds \<leftarrow> column buf bin;
     let mean = fp_div b32 (average_total lib ds (Fin 0)) (to_fp b32 (of_int (int (length buf))));
     Some (fp_mul b32 (lib_log10f lib mean) (Fin 10)) }"

text \<open>The running maximum, which the code declares outside the loop over the bins.\<close>

fun running_max :: "fp list \<Rightarrow> fp \<Rightarrow> fp" where
  "running_max [] m = m"
| "running_max (d # ds) m = running_max ds (if fp_less m (half_db d) then half_db d else m)"

fun max_bins :: "fp list list \<Rightarrow> nat list \<Rightarrow> fp \<Rightarrow> fp list option" where
  "max_bins buf [] m = Some []"
| "max_bins buf (bin # bins) m = do {
     ds \<leftarrow> column buf bin;
     let m' = running_max ds m;
     rest \<leftarrow> max_bins buf bins m';
     Some (m' # rest) }"

fun average_bins :: "libm \<Rightarrow> fp list list \<Rightarrow> nat list \<Rightarrow> fp list option" where
  "average_bins lib buf [] = Some []"
| "average_bins lib buf (bin # bins) = do {
     a \<leftarrow> average_bin lib buf bin; rest \<leftarrow> average_bins lib buf bins; Some (a # rest) }"

definition fft_data_handler ::
    "libm \<Rightarrow> fft_record \<Rightarrow> peak_finder \<Rightarrow> (peak_finder \<times> azimuth_target option) option" where
  "fft_data_handler lib fft pf =
     (case pf_configuration pf of
        None \<Rightarrow> None
      | Some (config, metres) \<Rightarrow>
          (let run = find_peaks (f_azimuth fft) (f_angle fft) (f_ntp_seconds fft) (f_ntp_split_seconds fft) in
           if length (f_data fft) \<noteq> all_bins config then Some (pf, None)
           else if buffer_mode pf = Off then run (as_doubles (f_data fft)) pf
           else (let buf = data_buffer pf @ [as_doubles (f_data fft)];
                     pf1 = pf\<lparr>data_buffer := buf\<rparr> in
             if length buf < buffer_length pf then Some (pf1, None)
             else do {
               ds \<leftarrow> (if buffer_mode pf = Average then average_bins lib buf [0..<all_bins config]
                     else max_bins buf [0..<all_bins config] (Fin 0));
               run ds (pf1\<lparr>data_buffer := []\<rparr>) })))"

section \<open>The reference finds the vertex\<close>

text \<open>The sums of the exact reference, over a window and its powers.\<close>

lemma exact_simps [simp]:
  "ar_add exact_arith = (+)" "ar_sub exact_arith = (-)" "ar_mul exact_arith = (*)"
  "ar_div exact_arith = (/)" "ar_neg exact_arith = uminus" "ar_int exact_arith = of_int"
  by (simp_all add: exact_arith_def)

lemma exact_sum: "scalar_sum exact_arith ds r = r + sum_list ds"
  by (induction ds arbitrary: r) simp_all

lemma exact_square: "scalar_square exact_arith ds r = r + sum_list (map (\<lambda>d. d * d) ds)"
  by (induction ds arbitrary: r) simp_all

lemma exact_vector_square: "vector_square exact_arith ds (replicate (length ds) 0) = map (\<lambda>d. d * d) ds"
  by (induction ds) (simp_all add: vector_square_def)

lemma exact_vector_cube: "vector_cube exact_arith ds (replicate (length ds) 0) = map (\<lambda>d. d * d * d) ds"
  by (induction ds) (simp_all add: vector_cube_def)

lemma exact_vector_multiply:
  "length es = length ds \<Longrightarrow>
    vector_multiply exact_arith ds es (replicate (length ds) 0) = map2 (*) ds es"
  by (induction ds es rule: list_induct2') (simp_all add: vector_multiply_def)

text \<open>Moments of a window.\<close>

definition moment :: "nat \<Rightarrow> rat list \<Rightarrow> rat" where
  "moment k x = sum_list (map (\<lambda>d. d ^ k) x)"

definition parabola :: "rat \<Rightarrow> rat \<Rightarrow> rat \<Rightarrow> rat \<Rightarrow> rat" where
  "parabola a b c d = a * d\<^sup>2 + b * d + c"

lemma moment_parabola:
  "sum_list (map2 (*) (map (\<lambda>d. d ^ k) x) (map (parabola a b c) x)) =
    a * moment (k + 2) x + b * moment (k + 1) x + c * moment k x"
  by (induction x) (simp_all add: moment_def parabola_def algebra_simps power2_eq_square power_add)

lemma elimination_exact:
  fixes a b c s0 s1 s2 s3 s4 :: rat
  assumes "s2 \<noteq> 0" "p = s2 - s1 * s3 / s2" "p \<noteq> 0"
    "q1 = s1 - s0 * s3 / s2" "q2 = s2 - s0 * s4 / s2" "r2 = s3 - s1 * s4 / s2"
    "w = q2 - q1 * r2 / p" "w \<noteq> 0"
    "t2 = a * s4 + b * s3 + c * s2" "t1 = a * s3 + b * s2 + c * s1" "t0 = a * s2 + b * s1 + c * s0"
    "q3 = t0 - s0 * t2 / s2" "r3 = t1 - s1 * t2 / s2"
  shows "(q3 - q1 * r3 / p) / w = a" "(r3 - r2 * a) / p = b"
proof -
  have q3: "q3 = a * q2 + b * q1" using assms(1) by (simp add: assms field_simps)
  have r3: "r3 = a * r2 + b * p" using assms(1) by (simp add: assms field_simps)
  have "q3 - q1 * r3 / p = a * (q2 - q1 * r2 / p)" using assms(3) by (simp add: q3 r3 field_simps)
  then show "(q3 - q1 * r3 / p) / w = a" using assms(7,8) by simp
  show "(r3 - r2 * a) / p = b" using assms(3) by (simp add: r3)
qed

lemma fit_vertex_exact:
  fixes x :: "rat list"
  defines "s0 \<equiv> rat_of_nat (length x)" and "s1 \<equiv> moment 1 x" and "s2 \<equiv> moment 2 x"
    and "s3 \<equiv> moment 3 x" and "s4 \<equiv> moment 4 x"
  assumes "s2 \<noteq> 0" "s2 - s1 * s3 / s2 \<noteq> 0"
    "s2 - s0 * s4 / s2 - (s1 - s0 * s3 / s2) * (s3 - s1 * s4 / s2) / (s2 - s1 * s3 / s2) \<noteq> 0"
  shows "fit_vertex exact_arith x (map (parabola a b c) x) = - b / (2 * a)"
proof -
  let ?y = "map (parabola a b c) x"
  have sx: "sum_list x = s1" "sum_list (map (\<lambda>d. d * d) x) = s2" "sum_list (map (\<lambda>d. d * d * d) x) = s3"
    by (simp_all add: s1_def s2_def s3_def moment_def power2_eq_square power3_eq_cube)
  have sq: "map (\<lambda>d. d * d) x = map (\<lambda>d. d ^ 2) x" by (simp add: power2_eq_square)
  have "map2 (*) (map (\<lambda>d. d * d) x) (map (\<lambda>d. d * d) x) = map (\<lambda>d. d ^ 4) x"
    by (induction x) (simp_all add: power4_eq_xxxx)
  then have s4: "sum_list (map2 (*) (map (\<lambda>d. d * d) x) (map (\<lambda>d. d * d) x)) = s4"
    by (simp add: s4_def moment_def)
  have s0: "moment 0 x = s0" by (simp add: moment_def s0_def sum_list_triv)
  have one: "map (\<lambda>d. d ^ 1) x = x" "map2 (*) (map (\<lambda>d. d ^ 0) x) ?y = ?y"
    by simp (induction x, simp_all)
  have t0: "sum_list ?y = a * s2 + b * s1 + c * s0"
    using moment_parabola [of 0 x a b c] unfolding one(2) s0 by (simp add: s1_def s2_def numeral_2_eq_2)
  have t1: "sum_list (map2 (*) x ?y) = a * s3 + b * s2 + c * s1"
    using moment_parabola [of 1 x a b c] unfolding one(1) by (simp add: s1_def s2_def s3_def numeral_2_eq_2 numeral_3_eq_3)
  have t2: "sum_list (map2 (*) (map (\<lambda>d. d * d) x) ?y) = a * s4 + b * s3 + c * s2"
    using moment_parabola [of 2 x a b c] unfolding sq by (simp add: s2_def s3_def s4_def)
  define p where "p = s2 - s1 * s3 / s2"
  define q1 where "q1 = s1 - s0 * s3 / s2"
  define q2 where "q2 = s2 - s0 * s4 / s2"
  define r2 where "r2 = s3 - s1 * s4 / s2"
  define q3 where "q3 = (a * s2 + b * s1 + c * s0) - s0 * (a * s4 + b * s3 + c * s2) / s2"
  define r3 where "r3 = (a * s3 + b * s2 + c * s1) - s1 * (a * s4 + b * s3 + c * s2) / s2"
  have e: "(q3 - q1 * r3 / p) / (q2 - q1 * r2 / p) = a" "(r3 - r2 * a) / p = b"
    using elimination_exact [OF assms(6) p_def _ q1_def q2_def r2_def refl _ refl refl refl q3_def r3_def]
      assms(7,8) by (simp_all add: p_def q1_def q2_def r2_def)
  have vm: "vector_multiply exact_arith (map (\<lambda>d. d * d) x) ys (replicate (length x) 0) = map2 (*) (map (\<lambda>d. d * d) x) ys"
    if "length ys = length x" for ys
    using exact_vector_multiply [of ys "map (\<lambda>d. d * d) x"] that by simp
  have fit: "fit_vertex exact_arith x ?y = - ((r3 - r2 * ((q3 - q1 * r3 / p) / (q2 - q1 * r2 / p))) / p)
      / (2 * ((q3 - q1 * r3 / p) / (q2 - q1 * r2 / p)))"
    by (simp add: fit_vertex_def Let_def exact_sum exact_square exact_vector_square exact_vector_cube
        exact_vector_multiply vm sx s4 t0 t1 t2 eliminate_def p_def q1_def q2_def r2_def q3_def r3_def
        s0_def [symmetric] flip: of_nat_def)
  show ?thesis unfolding fit e ..
qed

definition window :: "nat \<Rightarrow> rat list" where
  "window bins = map (\<lambda>i. of_int (int i - int (bins_to_offset bins))) [0..<bins]"

definition regular :: "rat list \<Rightarrow> bool" where
  "regular x \<longleftrightarrow>
     (let s0 = rat_of_nat (length x); s1 = moment 1 x; s2 = moment 2 x; s3 = moment 3 x; s4 = moment 4 x;
          p = s2 - s1 * s3 / s2
      in s2 \<noteq> 0 \<and> p \<noteq> 0 \<and> s2 - s0 * s4 / s2 - (s1 - s0 * s3 / s2) * (s3 - s1 * s4 / s2) / p \<noteq> 0)"

lemma window_5: "window 5 = [- 2, - 1, 0, 1, 2]"
  by (simp add: window_def bins_to_offset_def upt_rec)

lemma window_6: "window 6 = [- 2, - 1, 0, 1, 2, 3]"
  by (simp add: window_def bins_to_offset_def upt_rec)

lemma window_7: "window 7 = [- 3, - 2, - 1, 0, 1, 2, 3]"
  by (simp add: window_def bins_to_offset_def upt_rec)

lemma window_8: "window 8 = [- 3, - 2, - 1, 0, 1, 2, 3, 4]"
  by (simp add: window_def bins_to_offset_def upt_rec)

lemma window_9: "window 9 = [- 4, - 3, - 2, - 1, 0, 1, 2, 3, 4]"
  by (simp add: window_def bins_to_offset_def upt_rec)

lemma window_10: "window 10 = [- 4, - 3, - 2, - 1, 0, 1, 2, 3, 4, 5]"
  by (simp add: window_def bins_to_offset_def upt_rec)

lemma window_11: "window 11 = [- 5, - 4, - 3, - 2, - 1, 0, 1, 2, 3, 4, 5]"
  by (simp add: window_def bins_to_offset_def upt_rec)

lemma window_12: "window 12 = [- 5, - 4, - 3, - 2, - 1, 0, 1, 2, 3, 4, 5, 6]"
  by (simp add: window_def bins_to_offset_def upt_rec)

lemma window_13: "window 13 = [- 6, - 5, - 4, - 3, - 2, - 1, 0, 1, 2, 3, 4, 5, 6]"
  by (simp add: window_def bins_to_offset_def upt_rec)

lemma window_14: "window 14 = [- 6, - 5, - 4, - 3, - 2, - 1, 0, 1, 2, 3, 4, 5, 6, 7]"
  by (simp add: window_def bins_to_offset_def upt_rec)

lemma window_15: "window 15 = [- 7, - 6, - 5, - 4, - 3, - 2, - 1, 0, 1, 2, 3, 4, 5, 6, 7]"
  by (simp add: window_def bins_to_offset_def upt_rec)

lemmas windows = window_5 window_6 window_7 window_8 window_9 window_10 window_11 window_12 window_13
  window_14 window_15

lemma windows_regular:
  "regular (window 5)" "regular (window 6)" "regular (window 7)" "regular (window 8)"
  "regular (window 9)" "regular (window 10)" "regular (window 11)" "regular (window 12)"
  "regular (window 13)" "regular (window 14)" "regular (window 15)"
  by (simp_all add: regular_def moment_def windows)

lemma window_regular:
  assumes "bins \<in> {5, 6, 7, 8, 9, 10, 11, 12, 13, 14, 15}"
  shows "regular (window bins)"
  using assms windows_regular by auto

text \<open>
  C13: the reference of the peak resolution, the same code in exact arithmetic, finds the vertex:
  on a window of 5 to 15 bins that lies on a parabola it returns the place where the parabola has
  its extremum, relative to the data.
\<close>

theorem resolve_reference_vertex:
  assumes "bins \<in> {5, 6, 7, 8, 9, 10, 11, 12, 13, 14, 15}" "a \<noteq> 0"
    "take bins (drop (p - bins_to_offset bins) ds) = map (parabola a b c) (window bins)"
    "bins_to_offset bins \<le> p" "p - bins_to_offset bins + bins \<le> length ds"
  shows "peak_resolve exact_arith ds p bins = Some (of_nat p - b / (2 * a))"
proof -
  let ?off = "bins_to_offset bins"
  have fit: "fit_vertex exact_arith (window bins) (map (parabola a b c) (window bins)) = - b / (2 * a)"
    using window_regular [OF assms(1)] by (intro fit_vertex_exact) (simp_all add: regular_def Let_def)
  have "map (\<lambda>i. of_int (int i - int ?off)) [0..<bins] = window bins" by (simp add: window_def)
  moreover have "nat (int p - int ?off) = p - ?off" by simp
  moreover have "peek_at (p - ?off) bins ds = Some (map (parabola a b c) (window bins))"
    using assms(3,5) by (simp add: peek_at_def)
  ultimately show ?thesis
    using assms(4) fit by (simp add: peak_resolve_def Let_def)
qed

definition sample_window :: "rat list" where
  "sample_window = [0, 0, 4, 7, 8, 7, 4, 0]"

theorem resolve_reference_vertex_witness:
  "peak_resolve exact_arith sample_window 4 5 = Some 4"
  using resolve_reference_vertex [of 5 "-1" 4 sample_window 0 8]
  by (simp add: sample_window_def bins_to_offset_def parabola_def window_5)

section \<open>What the search finds\<close>

text \<open>A bin that is above the threshold and higher than the next.\<close>

definition is_peak :: "fp \<Rightarrow> fp list \<Rightarrow> nat \<Rightarrow> bool" where
  "is_peak thr ds p \<longleftrightarrow> fp_less thr (ds ! p) \<and> fp_less (ds ! (p + 1)) (ds ! p)"

lemma find_peak_loop_result:
  assumes "final + 1 < int (length ds)"
  shows "\<exists>aw q. find_peak_loop thr ds final e a p = Some (aw, q) \<and>
    (q = e \<or> (p \<le> q \<and> int q \<le> final \<and> is_peak thr ds q))"
  using assms
proof (induction thr ds final e a p rule: find_peak_loop.induct)
  case (1 thr ds final e a p)
  show ?case
  proof (cases "int p \<le> final")
    case True
    have n: "nth_opt ds p = Some (ds ! p)" "nth_opt ds (Suc p) = Some (ds ! Suc p)"
      using True "1.prems" by (simp_all add: nth_opt_def)
    have ih: "a \<and> fp_less (ds ! Suc p) (ds ! p) \<Longrightarrow>
        \<exists>aw q. find_peak_loop thr ds final e a (Suc p) = Some (aw, q) \<and>
          (q = e \<or> (Suc p \<le> q \<and> int q \<le> final \<and> is_peak thr ds q))"
      "\<not> (a \<and> fp_less (ds ! Suc p) (ds ! p)) \<Longrightarrow> \<not> (fp_less thr (ds ! p) \<and> fp_less (ds ! Suc p) (ds ! p)) \<Longrightarrow>
        \<exists>aw q. find_peak_loop thr ds final e False (Suc p) = Some (aw, q) \<and>
          (q = e \<or> (Suc p \<le> q \<and> int q \<le> final \<and> is_peak thr ds q))"
      using "1.IH" [OF True, of "ds ! p" "ds ! Suc p"] "1.prems" n by simp_all
    show ?thesis
    proof (cases "a \<and> fp_less (ds ! Suc p) (ds ! p)")
      case skip: True
      then show ?thesis
        using ih(1) True n by (subst find_peak_loop.simps) (auto dest: Suc_leD)
    next
      case no_skip: False
      show ?thesis
      proof (cases "fp_less thr (ds ! p) \<and> fp_less (ds ! Suc p) (ds ! p)")
        case True
        then show ?thesis
          using no_skip \<open>int p \<le> final\<close> n by (subst find_peak_loop.simps) (auto simp: is_peak_def)
      next
        case False
        then show ?thesis
          using ih(2) no_skip True n by (subst find_peak_loop.simps) (auto dest: Suc_leD)
      qed
    qed
  next
    case False
    then show ?thesis by (subst find_peak_loop.simps) simp
  qed
qed

lemma find_peak_bin_result:
  assumes "length ds = e" "2 \<le> bins"
  shows "\<exists>aw q. find_peak_bin thr ds s e bins a = Some (aw, q) \<and>
    (q = e \<or> (s \<le> q \<and> q + bins \<le> e \<and> is_peak thr ds q))"
proof (cases "int s > int e - int bins")
  case True
  then show ?thesis by (simp add: find_peak_bin_def)
next
  case False
  have "int e - int bins + 1 < int (length ds)" using assms by simp
  from find_peak_loop_result [OF this, of thr e a s] show ?thesis
    using False by (auto simp: find_peak_bin_def)
qed

lemma peak_resolve_defined:
  assumes "bins_to_offset bins \<le> p" "p + bins \<le> length ds"
  shows "\<exists>r. peak_resolve ar ds p bins = Some r"
proof -
  have "nat (int p - int (bins_to_offset bins)) + bins \<le> length ds" using assms by simp
  then show ?thesis using assms(1) by (simp add: peak_resolve_def Let_def peek_at_def)
qed

text \<open>A target stands for a peak at or after the first bin of the search.\<close>

definition stands_for_peak :: "peak_finder \<Rightarrow> configuration_record \<Rightarrow> float32 \<Rightarrow> fp list \<Rightarrow> nat \<Rightarrow> fp \<times> fp \<Rightarrow> bool" where
  "stands_for_peak pf config metres ds first target \<longleftrightarrow>
     (\<exists>p resolved. first \<le> p \<and> p + pf_bins pf \<le> length ds \<and>
        is_peak (pf_threshold pf) ds p \<and>
        peak_resolve double_arith ds p (pf_bins pf) = Some resolved \<and>
        target = (peak_range config metres resolved, ds ! p) \<and>
        \<not> range_rejected (pf_bins pf) (all_bins config) metres (fst target))"

lemma find_peaks_loop_result:
  assumes "length ds = all_bins config" "2 \<le> pf_bins pf"
    "bins_to_offset (pf_bins pf) \<le> mn" "length ts = found" "found < max 1 (pf_max_peaks pf)"
    "\<forall>t \<in> set ts. stands_for_peak pf config metres ds first t" "first \<le> mn"
  shows "\<exists>aw us. find_peaks_loop pf config metres ds pk mn a ts found = Some (aw, us) \<and>
    length us \<le> max 1 (pf_max_peaks pf) \<and> (\<forall>t \<in> set us. stands_for_peak pf config metres ds first t)"
  using assms
proof (induction "all_bins config - mn" arbitrary: pk mn a ts found rule: less_induct)
  case less
  let ?e = "all_bins config" and ?n = "pf_bins pf" and ?thr = "pf_threshold pf"
  have e: "?e < 65536" using unat_bound [of "c_range_in_bins config"] by (simp add: all_bins_def)
  show ?case
  proof (cases "pk = ?e")
    case True
    then show ?thesis using less.prems by (subst find_peaks_loop.simps) auto
  next
    case not_end: False
    obtain aw q where f: "find_peak_bin ?thr ds mn ?e ?n a = Some (aw, q)"
        and q: "q = ?e \<or> (mn \<le> q \<and> q + ?n \<le> ?e \<and> is_peak ?thr ds q)"
      using find_peak_bin_result [OF less.prems(1,2)] by blast
    show ?thesis
    proof (cases "q = ?e")
      case True
      have "find_peaks_loop pf config metres ds q ((q + ?n) mod 65536) aw ts found = Some (aw, ts)"
        using True by (subst find_peaks_loop.simps) simp
      then have "find_peaks_loop pf config metres ds pk mn a ts found = Some (aw, ts)"
        using not_end f True by (subst find_peaks_loop.simps) simp
      then show ?thesis using less.prems by auto
    next
      case False
      then have q: "mn \<le> q" "q + ?n \<le> ?e" "is_peak ?thr ds q" using q by auto
      then have next_bin: "(q + ?n) mod 65536 = q + ?n" "q < ?e" using e less.prems(2) by simp_all
      obtain res where res: "peak_resolve double_arith ds q ?n = Some res"
        using peak_resolve_defined [of ?n q ds double_arith] q less.prems(1,3) by auto
      have power: "nth_opt ds q = Some (ds ! q)" using next_bin(2) less.prems(1) by (simp add: nth_opt_def)
      have smaller: "?e - (q + ?n) < ?e - mn" using q less.prems(2) by simp
      let ?r = "peak_range config metres res"
      note unfold = find_peaks_loop.simps [of pf config metres ds pk mn a ts found]
      show ?thesis
      proof (cases "range_rejected ?n ?e metres ?r")
        case True
        have "find_peaks_loop pf config metres ds pk mn a ts found =
            find_peaks_loop pf config metres ds q (q + ?n) aw ts found"
          using not_end f next_bin res True by (simp add: unfold)
        then show ?thesis
          using less.hyps [OF smaller, of ts found] less.prems q(1) by auto
      next
        case accept: False
        have new: "\<forall>t \<in> set (ts @ [(?r, ds ! q)]). stands_for_peak pf config metres ds first t"
        proof -
          have "stands_for_peak pf config metres ds first (?r, ds ! q)"
            unfolding stands_for_peak_def
            using less.prems(1,7) q res accept by (intro exI [of _ q] exI [of _ res]) simp
          then show ?thesis using less.prems(6) by simp
        qed
        show ?thesis
        proof (cases "pf_max_peaks pf \<le> found + 1")
          case True
          have "find_peaks_loop pf config metres ds pk mn a ts found = Some (aw, ts @ [(?r, ds ! q)])"
            using not_end f next_bin res accept power True by (simp add: unfold)
          then show ?thesis using new less.prems(4,5) by auto
        next
          case False
          have "find_peaks_loop pf config metres ds pk mn a ts found =
              find_peaks_loop pf config metres ds q (q + ?n) aw (ts @ [(?r, ds ! q)]) (found + 1)"
            using not_end f next_bin res accept power False by (simp add: unfold)
          then show ?thesis
            using less.hyps [OF smaller, of "ts @ [(?r, ds ! q)]" "found + 1"] less.prems q(1) new False by auto
        qed
      qed
    qed
  qed
qed

lemma configured_bins:
  "5 \<le> pf_bins (configure config metres thr bins mn mode len peaks pf)"
  "pf_bins (configure config metres thr bins mn mode len peaks pf) \<le> 15"
  by (simp_all add: configure_def max_bins_to_operate_on_def min_bins_to_operate_on_def)

lemma find_peaks_result:
  assumes "length ds = all_bins config" "pf = configure config metres thr bins mn mode len peaks pf0"
    "bins_to_offset (pf_bins pf) \<le> mn"
  shows "pf_bins pf \<in> {5..15} \<and> (\<exists>pf' target. find_peaks az ang ntp split ds pf = Some (pf', target) \<and>
    (case target of None \<Rightarrow> True | Some t \<Rightarrow>
       targets t \<noteq> [] \<and> length (targets t) \<le> max 1 peaks \<and>
       \<not> (\<exists>x \<in> set (targets t). \<not> stands_for_peak pf config metres ds mn x)))"
proof -
  have bins: "5 \<le> pf_bins pf" "pf_bins pf \<le> 15" using configured_bins by (simp_all add: assms(2))
  have pf: "pf_configuration pf = Some (config, metres)" "min_bin_to_use pf = mn" "pf_max_peaks pf = peaks"
    by (simp_all add: assms(2) configure_def)
  obtain aw us where "find_peaks_loop pf config metres ds 0 mn False [] 0 = Some (aw, us)"
      "length us \<le> max 1 peaks" "\<forall>t \<in> set us. stands_for_peak pf config metres ds mn t"
    using find_peaks_loop_result [of ds config pf mn "[]" 0 metres mn 0 False] assms(1,3) bins pf(3)
    by (auto simp: less_max_iff_disj)
  then show ?thesis using bins pf by (auto simp: find_peaks_def)
qed

text \<open>
  C11: configuring clamps the window to 5 to 15 bins, and an azimuth of full length with a first
  bin that leaves room for half a window is searched without reading outside the data and to the
  end: the callback gets at least one target and at most the configured number (one, if that is
  0), each of them a bin above the threshold, higher than its successor, resolved to a distance
  inside the limits.
\<close>

theorem find_peaks_reports:
  assumes "length ds = all_bins config" "pf = configure config metres thr bins mn mode len peaks pf0"
    "bins_to_offset (pf_bins pf) \<le> mn"
  shows "pf_bins pf \<in> {5..15} \<and> (\<exists>pf' target. find_peaks az ang ntp split ds pf = Some (pf', target) \<and>
    (case target of None \<Rightarrow> True | Some t \<Rightarrow>
       targets t \<noteq> [] \<and> length (targets t) \<le> max 1 peaks \<and>
       \<not> (\<exists>x \<in> set (targets t). \<not> stands_for_peak pf config metres ds mn x)))"
  using assms by (rule find_peaks_result)

definition sample_config :: configuration_record where
  "sample_config = \<lparr>c_azimuth_samples = 400, c_encoder_size = 5600, c_bin_size = mk64 (Fin 1),
     c_range_in_bins = 16, c_expected_rotation_rate = 4, c_range_gain = mk32 (Fin 1),
     c_range_offset = mk32 (Fin 0)\<rparr>"

theorem find_peaks_reports_witness:
  "\<exists>pf' target. find_peaks 0 (mk64 (Fin 0)) 0 0 (replicate 16 (Fin 90))
     (configure sample_config (mk32 (Fin 1)) (Fin 80) 5 2 Off 10 3 new_peak_finder) = Some (pf', target)"
  using find_peaks_reports [of "replicate 16 (Fin 90)" sample_config _ "mk32 (Fin 1)" "Fin 80" 5 2 Off 10 3 new_peak_finder,
      OF _ refl, of 0 "mk64 (Fin 0)" 0 0]
  by (auto simp: all_bins_def sample_config_def configure_def max_bins_to_operate_on_def
      min_bins_to_operate_on_def bins_to_offset_def)

text \<open>A peak between two higher shoulders, on which the fitted parabola is flat.\<close>

definition notched :: "byte list" where
  "notched = [0, 0, 0, 0, 0, 0, 100, 80, 120, 80, 100, 0, 0, 0, 0, 0]"

lemma flat_fit:
  "fit_vertex double_arith [Fin (- 2), Fin (- 1), Fin 0, Fin 1, Fin 2]
     [Fin 100, Fin 80, Fin 120, Fin 80, Fin 100] = NaN"
  by (simp add: fit_vertex_def double_arith_def eliminate_def vector_multiply_def vector_square_def
      vector_cube_def exact_eval Let_def cong: let_weak_cong)

lemma nan_arith [simp]:
  "fp_add f NaN x = NaN" "fp_sub f NaN x = NaN" "fp_mul f NaN x = NaN" "fp_less NaN x = False" "fp_less x NaN = False"
  by (simp_all add: fp_add_def fp_sub_def fp_mul_def fp_less_def)

lemma flat_resolve: "peak_resolve double_arith (as_doubles notched) 8 5 = Some NaN"
proof -
  have "map (\<lambda>i. ar_int double_arith (int i - 2)) [0..<5] = [Fin (- 2), Fin (- 1), Fin 0, Fin 1, Fin 2]"
    by (simp add: double_arith_def upt_rec exact_eval)
  moreover have "peek_at 6 5 (as_doubles notched) = Some [Fin 100, Fin 80, Fin 120, Fin 80, Fin 100]"
    by (simp add: peek_at_def as_doubles_def notched_def)
  ultimately show ?thesis
    by (simp add: peak_resolve_def bins_to_offset_def flat_fit Let_def) (simp add: double_arith_def)
qed

lemma notched_peak:
  "find_peak_bin (Fin 110) (as_doubles notched) 5 16 5 False = Some (True, 8)"
  by (simp add: find_peak_bin_def find_peak_loop.simps as_doubles_def notched_def nth_opt_def fp_less_def)

lemma flat_window_handled:
  "fft_data_handler lib (fft\<lparr>f_data := notched\<rparr>)
     (configure (config\<lparr>c_range_in_bins := 16\<rparr>) metres (Fin 110) 5 5 Off 10 10
       (set_target_callback True new_peak_finder)) =
   Some ((configure (config\<lparr>c_range_in_bins := 16\<rparr>) metres (Fin 110) 5 5 Off 10 10
       (set_target_callback True new_peak_finder))\<lparr>awaiting_rise := True\<rparr>,
     Some \<lparr>t_azimuth = f_azimuth fft, t_angle = f_angle fft, t_ntp_seconds = f_ntp_seconds fft,
           t_ntp_split_seconds = f_ntp_split_seconds fft, targets = [(NaN, Fin 120)]\<rparr>)"
proof -
  let ?c = "config\<lparr>c_range_in_bins := 16\<rparr>"
  let ?pf = "configure ?c metres (Fin 110) 5 5 Off 10 10 (set_target_callback True new_peak_finder)"
  have pf: "pf_configuration ?pf = Some (?c, metres)" "pf_threshold ?pf = Fin 110" "pf_bins ?pf = 5"
      "min_bin_to_use ?pf = 5" "pf_max_peaks ?pf = 10" "target_callback ?pf" "buffer_mode ?pf = Off"
    by (simp_all add: configure_def max_bins_to_operate_on_def min_bins_to_operate_on_def set_target_callback_def)
  have all: "all_bins ?c = 16" by (simp add: all_bins_def)
  have nan: "peak_range ?c metres NaN = NaN" "\<not> range_rejected 5 16 metres NaN"
    by (simp_all add: peak_range_def range_rejected_def)
  have power: "nth_opt (as_doubles notched) 8 = Some (Fin 120)"
    by (simp add: nth_opt_def as_doubles_def notched_def)
  have stop: "find_peak_bin (Fin 110) (as_doubles notched) 13 16 5 True = Some (True, 16)"
    by (simp add: find_peak_bin_def)
  have "find_peaks_loop ?pf ?c metres (as_doubles notched) 16 21 True [(NaN, Fin 120)] 1 =
      Some (True, [(NaN, Fin 120)])"
    by (subst find_peaks_loop.simps) (simp add: all)
  then have "find_peaks_loop ?pf ?c metres (as_doubles notched) 8 13 True [(NaN, Fin 120)] 1 =
      Some (True, [(NaN, Fin 120)])"
    by (subst find_peaks_loop.simps) (simp add: all pf stop)
  then have "find_peaks_loop ?pf ?c metres (as_doubles notched) 0 5 False [] 0 = Some (True, [(NaN, Fin 120)])"
    by (subst find_peaks_loop.simps) (simp add: all pf notched_peak flat_resolve nan power)
  then have "find_peaks az ang ntp split (as_doubles notched) ?pf =
      Some (?pf\<lparr>awaiting_rise := True\<rparr>, Some \<lparr>t_azimuth = az, t_angle = ang, t_ntp_seconds = ntp,
        t_ntp_split_seconds = split, targets = [(NaN, Fin 120)]\<rparr>)" for az ang ntp split
    by (simp add: find_peaks_def pf)
  moreover have "length notched = 16" by (simp add: notched_def)
  ultimately show ?thesis by (simp add: fft_data_handler_def pf all Let_def)
qed

text \<open>
  On such a window the fit divides zero by zero, and the limits on the distance, which a
  NaN passes, do not hold the result back: the callback gets a target whose distance is no number.
\<close>

theorem flat_window_reports_nan:
  "fft_data_handler lib (fft\<lparr>f_data := notched\<rparr>)
     (configure (config\<lparr>c_range_in_bins := 16\<rparr>) metres (Fin 110) 5 5 Off 10 10
       (set_target_callback True new_peak_finder)) =
   Some ((configure (config\<lparr>c_range_in_bins := 16\<rparr>) metres (Fin 110) 5 5 Off 10 10
       (set_target_callback True new_peak_finder))\<lparr>awaiting_rise := True\<rparr>,
     Some \<lparr>t_azimuth = f_azimuth fft, t_angle = f_angle fft, t_ntp_seconds = f_ntp_seconds fft,
           t_ntp_split_seconds = f_ntp_split_seconds fft, targets = [(NaN, Fin 120)]\<rparr>)"
  by (rule flat_window_handled)

end
