(* ===== verification/Ros_Node.thy ===== *)
theory Ros_Node
  imports Peak_Finder
begin

text \<open>
  What the ROS 2 publishers of \<open>ros2/src/nav_ros/src\<close> share: the parameters they read, the
  messages they publish, the count of rotations, the sector of interest and the check of the
  parameters after four rotations.  A call that leaves the node (a message published, a
  parameter set, a command to the radar) is an action in a list, in the order of the calls; a
  parameter is read from an argument, since its value belongs to \<open>rclcpp\<close>.  Log lines are left out.
\<close>

section \<open>Parameters, messages and actions\<close>

record ros_params =
  int_param :: "string \<Rightarrow> int"
  double_param :: "string \<Rightarrow> float64"
  bool_param :: "string \<Rightarrow> bool"
  string_param :: "string \<Rightarrow> string"

datatype ros_value = Ros_int int | Ros_double float64 | Ros_bool bool | Ros_string string

record radar_configuration_message =
  m_azimuth_samples :: "byte list"
  m_encoder_size :: "byte list"
  m_bin_size :: "byte list"
  m_range_in_bins :: "byte list"
  m_expected_rotation_rate :: "byte list"

definition empty_configuration_message :: radar_configuration_message where
  "empty_configuration_message =
     \<lparr>m_azimuth_samples = [], m_encoder_size = [], m_bin_size = [], m_range_in_bins = [],
      m_expected_rotation_rate = []\<rparr>"

record radar_fft_data_message =
  m_angle :: "byte list"
  m_azimuth :: "byte list"
  m_sweep_counter :: "byte list"
  m_ntp_seconds :: "byte list"
  m_ntp_split_seconds :: "byte list"
  m_data :: "byte list"
  m_data_length :: "byte list"

record point_field =
  field_name :: string
  field_offset :: u32
  field_datatype :: byte
  field_count :: u32

record msg_header =
  stamp_sec :: u32
  stamp_nanosec :: u32
  frame_id :: string

record point_cloud =
  cloud_header :: msg_header
  cloud_height :: u32
  cloud_width :: u32
  cloud_fields :: "point_field list"
  cloud_is_bigendian :: bool
  cloud_point_step :: u32
  cloud_row_step :: u32
  cloud_data :: "byte list"
  cloud_is_dense :: bool

record laser_scan =
  scan_header :: msg_header
  angle_min :: float32
  angle_max :: float32
  angle_increment :: float32
  time_increment :: float32
  scan_time :: float32
  range_min :: float32
  range_max :: float32
  ranges :: "float32 list"
  intensities :: "float32 list"

record ros_image =
  image_header :: msg_header
  image_height :: u32
  image_width :: u32
  image_encoding :: string
  image_is_bigendian :: bool
  image_step :: u32
  image_data :: "byte list"

record camera_configuration_message =
  cc_width :: u32
  cc_height :: u32
  cc_channels :: u32
  cc_fps :: u32

datatype ros_action =
    Declare_parameter string ros_value
  | Set_parameter string ros_value
  | Create_publisher string nat
  | Publish_configuration radar_configuration_message
  | Publish_fft radar_fft_data_message
  | Publish_cloud point_cloud
  | Publish_scan laser_scan
  | Publish_image ros_image
  | Publish_camera_configuration camera_configuration_message
  | Publish_camera_image ros_image
  | Radar_start_fft_data
  | Radar_stop_fft_data
  | Radar_clear_configuration_callback
  | Radar_clear_fft_callback
  | Radar_stop
  | Ros_shutdown
  | Radar_start_non_contour_fft_data
  | Radar_start_navigation_data
  | Radar_set_navigation_configuration navigation_settings
  | Radar_request_navigation_configuration

text \<open>\<open>get_parameter(\<dots>).as_int()\<close> is a 64-bit value that is stored in an \<open>int\<close> or a \<open>uint16_t\<close>.\<close>

definition to_int32 :: "int \<Rightarrow> int" where
  "to_int32 v = sint (word_of_int v :: u32)"

definition int_of_param :: "ros_params \<Rightarrow> string \<Rightarrow> int" where
  "int_of_param ps name = to_int32 (int_param ps name)"

definition u16_of_param :: "ros_params \<Rightarrow> string \<Rightarrow> u16" where
  "u16_of_param ps name = word_of_int (int_param ps name)"

definition u32_of_param :: "ros_params \<Rightarrow> string \<Rightarrow> u32" where
  "u32_of_param ps name = word_of_int (int_param ps name)"

section \<open>Configuration and FFT data messages\<close>

definition configuration_message_of :: "configuration_record \<Rightarrow> radar_configuration_message" where
  "configuration_message_of cfg =
     \<lparr>m_azimuth_samples = to_vector16 (to_uint16_network (c_azimuth_samples cfg)),
      m_encoder_size = to_vector16 (to_uint16_network (c_encoder_size cfg)),
      m_bin_size = to_vector64 (to_uint64_host (c_bin_size cfg)),
      m_range_in_bins = to_vector16 (to_uint16_network (c_range_in_bins cfg)),
      m_expected_rotation_rate = to_vector16 (to_uint16_network (c_expected_rotation_rate cfg))\<rparr>"

definition fft_message_of :: "fft_record \<Rightarrow> radar_fft_data_message" where
  "fft_message_of fft =
     \<lparr>m_angle = to_vector64 (to_uint64_host (f_angle fft)),
      m_azimuth = to_vector16 (to_uint16_network (f_azimuth fft)),
      m_sweep_counter = to_vector16 (to_uint16_network (f_sweep_counter fft)),
      m_ntp_seconds = to_vector32 (to_uint32_network (f_ntp_seconds fft)),
      m_ntp_split_seconds = to_vector32 (to_uint32_network (f_ntp_split_seconds fft)),
      m_data = f_data fft,
      m_data_length = to_vector16 (to_uint16_network (of_nat (length (f_data fft))))\<rparr>"

text \<open>
  The subscriber: each field is read by itself and may be absent; what it logs is the result.
  (The configuration callbacks of \<open>Colossus_subscriber\<close> and \<open>Laser_scan_subscriber\<close> are the same.)
\<close>

record configuration_view =
  v_azimuth_samples :: "u16 option"
  v_encoder_size :: "u16 option"
  v_bin_size :: "float64 option"
  v_range_in_bins :: "u16 option"
  v_expected_rotation_rate :: "u16 option"

definition configuration_data_callback :: "radar_configuration_message \<Rightarrow> configuration_view" where
  "configuration_data_callback msg =
     \<lparr>v_azimuth_samples = map_option to_uint16_host (from_vector_to16 (m_azimuth_samples msg)),
      v_encoder_size = map_option to_uint16_host (from_vector_to16 (m_encoder_size msg)),
      v_bin_size = map_option from_uint64_host (from_vector_to64 (m_bin_size msg)),
      v_range_in_bins = map_option to_uint16_host (from_vector_to16 (m_range_in_bins msg)),
      v_expected_rotation_rate = map_option to_uint16_host (from_vector_to16 (m_expected_rotation_rate msg))\<rparr>"

definition scan_configuration_data_callback :: "radar_configuration_message \<Rightarrow> configuration_view" where
  "scan_configuration_data_callback msg = configuration_data_callback msg"

record fft_view =
  v_angle :: "float64 option"
  v_azimuth :: "u16 option"
  v_sweep_counter :: "u16 option"
  v_ntp_seconds :: "u32 option"
  v_ntp_split_seconds :: "u32 option"
  v_data_length :: "u16 option"

definition fft_data_callback :: "radar_fft_data_message \<Rightarrow> fft_view" where
  "fft_data_callback msg =
     \<lparr>v_angle = map_option from_uint64_host (from_vector_to64 (m_angle msg)),
      v_azimuth = map_option to_uint16_host (from_vector_to16 (m_azimuth msg)),
      v_sweep_counter = map_option to_uint16_host (from_vector_to16 (m_sweep_counter msg)),
      v_ntp_seconds = map_option to_uint32_host (from_vector_to32 (m_ntp_seconds msg)),
      v_ntp_split_seconds = map_option to_uint32_host (from_vector_to32 (m_ntp_split_seconds msg)),
      v_data_length = map_option to_uint16_host (from_vector_to16 (m_data_length msg))\<rparr>"

section \<open>Rotations and sectors\<close>

record rotation_node =
  radar_ip :: string
  radar_port :: u16
  node_azimuth_samples :: int
  node_last_azimuth :: int
  node_rotated_once :: bool
  node_rotation_count :: int
  node_config_publish_count :: int
  node_config_message :: radar_configuration_message

record sector_node = rotation_node +
  node_start_azimuth :: u16
  node_end_azimuth :: u16
  node_start_bin :: u16
  node_end_bin :: u16
  node_azimuth_offset :: u16
  node_range_in_bins :: int

definition wrapped :: "u16 \<Rightarrow> 'a rotation_node_scheme \<Rightarrow> bool" where
  "wrapped az n \<longleftrightarrow> uint az < node_last_azimuth n"

definition turned :: "'a rotation_node_scheme \<Rightarrow> 'a rotation_node_scheme" where
  "turned n = n\<lparr>node_rotation_count := node_rotation_count n + 1, node_rotated_once := True\<rparr>"

definition parameters_due :: "'a rotation_node_scheme \<Rightarrow> bool" where
  "parameters_due n \<longleftrightarrow> node_rotation_count n \<ge> node_config_publish_count n"

text \<open>\<open>static_cast<int>(angle / (360.0 / azimuth_samples))\<close>; outside the range of \<open>int\<close> undefined.\<close>

definition azimuth_index :: "float64 \<Rightarrow> int \<Rightarrow> int option" where
  "azimuth_index ang samples = f64_to_int32 (f64_div ang (f64_div (f64_of_int 360) (f64_of_int samples)))"

definition adjusted_azimuth_index :: "int \<Rightarrow> ('a sector_node_scheme) \<Rightarrow> int" where
  "adjusted_azimuth_index idx n =
     (let adjusted = idx + uint (node_azimuth_offset n) in
      if adjusted \<ge> node_azimuth_samples n then adjusted - node_azimuth_samples n else adjusted)"

definition in_sector :: "int \<Rightarrow> 'a sector_node_scheme \<Rightarrow> bool" where
  "in_sector idx n \<longleftrightarrow> uint (node_start_azimuth n) \<le> idx \<and> idx < uint (node_end_azimuth n)"

section \<open>The check of the parameters\<close>

type_synonym 'n acted = "'n \<times> ros_action list"

definition check_azimuth_offset :: "ros_params \<Rightarrow> ('a sector_node_scheme) acted \<Rightarrow> ('a sector_node_scheme) acted" where
  "check_azimuth_offset ps = (\<lambda>(n, acts).
     let t = int_of_param ps ''azimuth_offset'' in
     if t > node_azimuth_samples n
     then (n, acts @ [Set_parameter ''azimuth_offset'' (Ros_int (node_azimuth_samples n))])
     else (n\<lparr>node_azimuth_offset := word_of_int t\<rparr>, acts))"

definition check_start_azimuth :: "ros_params \<Rightarrow> ('a sector_node_scheme) acted \<Rightarrow> ('a sector_node_scheme) acted" where
  "check_start_azimuth ps = (\<lambda>(n, acts).
     let t = int_of_param ps ''start_azimuth'' in
     if t < 0 \<or> t > node_azimuth_samples n then (n, acts @ [Set_parameter ''start_azimuth'' (Ros_int 0)])
     else (n\<lparr>node_start_azimuth := word_of_int t\<rparr>, acts))"

definition check_end_azimuth :: "ros_params \<Rightarrow> ('a sector_node_scheme) acted \<Rightarrow> ('a sector_node_scheme) acted" where
  "check_end_azimuth ps = (\<lambda>(n, acts).
     let t = int_of_param ps ''end_azimuth'' in
     if t < 0 \<or> t > node_azimuth_samples n
     then (n, acts @ [Set_parameter ''end_azimuth'' (Ros_int (node_azimuth_samples n))])
     else (n\<lparr>node_end_azimuth := word_of_int t\<rparr>, acts))"

definition check_start_bin :: "ros_params \<Rightarrow> ('a sector_node_scheme) acted \<Rightarrow> ('a sector_node_scheme) acted" where
  "check_start_bin ps = (\<lambda>(n, acts).
     let t = int_of_param ps ''start_bin'' in
     if t < 0 \<or> t > node_range_in_bins n then (n, acts @ [Set_parameter ''start_bin'' (Ros_int 0)])
     else (n\<lparr>node_start_bin := word_of_int t\<rparr>, acts))"

definition check_end_bin :: "ros_params \<Rightarrow> ('a sector_node_scheme) acted \<Rightarrow> ('a sector_node_scheme) acted" where
  "check_end_bin ps = (\<lambda>(n, acts).
     let t = int_of_param ps ''end_bin'' in
     if t < 0 \<or> t > node_range_in_bins n
     then (n, acts @ [Set_parameter ''end_bin'' (Ros_int (node_range_in_bins n))])
     else (n\<lparr>node_end_bin := word_of_int t\<rparr>, acts))"

definition check_sector :: "ros_params \<Rightarrow> ('a sector_node_scheme) acted \<Rightarrow> ('a sector_node_scheme) acted" where
  "check_sector ps x =
     check_end_bin ps (check_start_bin ps (check_end_azimuth ps (check_start_azimuth ps (check_azimuth_offset ps x))))"

text \<open>The fields every constructor reads from the parameters.\<close>

definition new_rotation_node :: "ros_params \<Rightarrow> rotation_node" where
  "new_rotation_node ps =
     \<lparr>radar_ip = string_param ps ''radar_ip'', radar_port = u16_of_param ps ''radar_port'',
      node_azimuth_samples = 0, node_last_azimuth = 0, node_rotated_once = False,
      node_rotation_count = 0, node_config_publish_count = 4,
      node_config_message = empty_configuration_message\<rparr>"

definition new_sector_node :: "ros_params \<Rightarrow> sector_node" where
  "new_sector_node ps = rotation_node.extend (new_rotation_node ps)
     \<lparr>node_start_azimuth = u16_of_param ps ''start_azimuth'', node_end_azimuth = u16_of_param ps ''end_azimuth'',
      node_start_bin = u16_of_param ps ''start_bin'', node_end_bin = u16_of_param ps ''end_bin'',
      node_azimuth_offset = u16_of_param ps ''azimuth_offset'', node_range_in_bins = 0\<rparr>"

text \<open>A callback called for one item after another.\<close>

fun feed :: "('m \<Rightarrow> 'n \<Rightarrow> 'n acted option) \<Rightarrow> 'm list \<Rightarrow> 'n \<Rightarrow> 'n acted option" where
  "feed h [] n = Some (n, [])"
| "feed h (m # ms) n = do {
     (n1, acts) \<leftarrow> h m n;
     (n2, acts') \<leftarrow> feed h ms n1;
     Some (n2, acts @ acts') }"

definition declared :: "string list \<Rightarrow> ros_action list" where
  "declared names = Declare_parameter ''radar_ip'' (Ros_string '''') # map (\<lambda>p. Declare_parameter p (Ros_int 0)) names"

definition sector_parameters :: "string list" where
  "sector_parameters = [''radar_port'', ''start_azimuth'', ''end_azimuth'', ''start_bin'', ''end_bin'']"

section \<open>Properties\<close>

lemma double_host [simp]: "from_uint64_host (to_uint64_host x) = x"
  by (cases x) (simp add: from_uint64_host_def to_uint64_host_def)

text \<open>
  What the publisher encodes the subscribers decode: every field of a configuration message
  and of an FFT data message arrives with its value (the length of the data as 16 bits).
\<close>

theorem ros_messages_round_trip:
  "configuration_data_callback (configuration_message_of cfg) =
     \<lparr>v_azimuth_samples = Some (c_azimuth_samples cfg), v_encoder_size = Some (c_encoder_size cfg),
      v_bin_size = Some (c_bin_size cfg), v_range_in_bins = Some (c_range_in_bins cfg),
      v_expected_rotation_rate = Some (c_expected_rotation_rate cfg)\<rparr> \<and>
   fft_data_callback (fft_message_of fft) =
     \<lparr>v_angle = Some (f_angle fft), v_azimuth = Some (f_azimuth fft), v_sweep_counter = Some (f_sweep_counter fft),
      v_ntp_seconds = Some (f_ntp_seconds fft), v_ntp_split_seconds = Some (f_ntp_split_seconds fft),
      v_data_length = Some (of_nat (length (f_data fft)))\<rparr> \<and>
   m_data (fft_message_of fft) = f_data fft"
  by (simp add: configuration_data_callback_def configuration_message_of_def fft_data_callback_def
      fft_message_of_def)

text \<open>The limits that the checks keep.\<close>

definition sector_ok :: "'a sector_node_scheme \<Rightarrow> bool" where
  "sector_ok n \<longleftrightarrow>
     uint (node_azimuth_offset n) \<le> node_azimuth_samples n \<and>
     uint (node_start_azimuth n) \<le> node_azimuth_samples n \<and> uint (node_end_azimuth n) \<le> node_azimuth_samples n \<and>
     uint (node_start_bin n) \<le> node_range_in_bins n \<and> uint (node_end_bin n) \<le> node_range_in_bins n"

lemma uint_u16: "0 \<le> t \<Longrightarrow> t < 65536 \<Longrightarrow> uint (word_of_int t :: u16) = t"
  by (simp add: uint_word_of_int)

lemmas check_defs = check_azimuth_offset_def check_start_azimuth_def check_end_azimuth_def
  check_start_bin_def check_end_bin_def

definition within_limits :: "'a sector_node_scheme \<Rightarrow> bool" where
  "within_limits n \<longleftrightarrow> node_azimuth_samples n < 65536 \<and> node_range_in_bins n < 65536 \<and> sector_ok n"

lemma check_limits:
  "within_limits (fst x) \<Longrightarrow> 0 \<le> int_of_param ps ''azimuth_offset'' \<Longrightarrow> within_limits (fst (check_azimuth_offset ps x))"
  "within_limits (fst x) \<Longrightarrow> within_limits (fst (check_start_azimuth ps x))"
  "within_limits (fst x) \<Longrightarrow> within_limits (fst (check_end_azimuth ps x))"
  "within_limits (fst x) \<Longrightarrow> within_limits (fst (check_start_bin ps x))"
  "within_limits (fst x) \<Longrightarrow> within_limits (fst (check_end_bin ps x))"
  by (cases x; auto simp: check_defs Let_def sector_ok_def within_limits_def uint_u16)+

lemma check_sector_limits:
  "within_limits (fst x) \<Longrightarrow> 0 \<le> int_of_param ps ''azimuth_offset'' \<Longrightarrow> within_limits (fst (check_sector ps x))"
  by (simp add: check_sector_def check_limits)

lemma check_actions:
  "\<exists>r. snd (check_azimuth_offset ps x) = snd x @ r" "\<exists>r. snd (check_start_azimuth ps x) = snd x @ r"
  "\<exists>r. snd (check_end_azimuth ps x) = snd x @ r" "\<exists>r. snd (check_start_bin ps x) = snd x @ r"
  "\<exists>r. snd (check_end_bin ps x) = snd x @ r"
  by (cases x; simp add: check_defs Let_def)+

lemma check_sector_actions: "\<exists>r. snd (check_sector ps x) = snd x @ r"
  unfolding check_sector_def by (metis check_actions append.assoc)

lemma check_frame [simp]:
  "rotation_node.truncate (fst (check_azimuth_offset ps x)) = rotation_node.truncate (fst x)"
  "rotation_node.truncate (fst (check_start_azimuth ps x)) = rotation_node.truncate (fst x)"
  "rotation_node.truncate (fst (check_end_azimuth ps x)) = rotation_node.truncate (fst x)"
  "rotation_node.truncate (fst (check_start_bin ps x)) = rotation_node.truncate (fst x)"
  "rotation_node.truncate (fst (check_end_bin ps x)) = rotation_node.truncate (fst x)"
  by (cases x, simp add: check_defs Let_def rotation_node.defs)+

lemma check_sector_frame: "rotation_node.truncate (fst (check_sector ps x)) = rotation_node.truncate (fst x)"
  by (simp add: check_sector_def)

lemma adjusted_range:
  assumes "0 \<le> idx" "idx < node_azimuth_samples n" "uint (node_azimuth_offset n) \<le> node_azimuth_samples n"
  shows "0 \<le> adjusted_azimuth_index idx n" "adjusted_azimuth_index idx n < node_azimuth_samples n"
  using assms by (auto simp: adjusted_azimuth_index_def Let_def)

text \<open>Where the azimuths of a radar with 400 azimuths of 14 encoder steps fall.\<close>

lemma ceiling_numerals: "\<lceil>numeral a / numeral b :: rat\<rceil> = - (- numeral a div numeral b)"
  by (simp add: ceiling_def)

lemma azimuth_width_400: "val64 (f64_div (f64_of_int 360) (f64_of_int 400)) = Fin (8106479329266893 / 9007199254740992)"
proof -
  have v: "val64 (f64_of_int 360) = Fin 360" "val64 (f64_of_int 400) = Fin 400"
    using rep_to_fp [of b64 "of_int 360"] rep_to_fp [of b64 "of_int 400"]
    by (simp_all add: f64_of_int_def to_fp_int64 [of 360, simplified] to_fp_int64 [of 400, simplified] val64_mk64)
  have d: "to_fp b64 (9 / 10) = Fin (8106479329266893 / 9007199254740992)"
    by (simp add: fp_eval rne_def ceiling_numerals cong: let_weak_cong)
  have "fp_div b64 (Fin 360) (Fin 400) = to_fp b64 (9 / 10)" by (simp add: fp_div_def Let_def)
  then show ?thesis
    using rep_to_fp [of b64 "9 / 10"] by (simp add: f64_div_def v val64_mk64 d)
qed

lemma azimuth_index_between:
  assumes "has_val (val64 ang) x" "val64 (f64_div (f64_of_int 360) (f64_of_int samples)) = Fin y"
    "0 < x" "0 < y" "of_int k * y \<le> x" "x \<le> (of_int k + 1073741823 / 1073741824) * y" "0 \<le> k" "k < 4096"
  shows "azimuth_index ang samples = Some k"
proof -
  let ?q = "x / y"
  have q: "of_int k \<le> ?q" "?q \<le> of_int k + 1073741823 / 1073741824" "0 < ?q" using assms by (simp_all add: field_simps)
  have ang: "val64 ang = Fin x" using assms(1,3) has_val_cases by fastforce
  have grid: "of_int k + 1073741823 / 1073741824 = (of_int (1073741824 * k + 1073741823) * 2 powi (- 30) :: rat)"
    by (simp add: power_int_def field_simps)
  have "rnd b64 (of_int (1073741824 * k + 1073741823) * 2 powi (- 30)) = of_int (1073741824 * k + 1073741823) * 2 powi (- 30)"
    using assms(7,8) by (intro rnd_grid) (simp_all add: b64_def ulp_min_def bias_def)
  then have up: "rnd b64 ?q \<le> of_int k + 1073741823 / 1073741824"
    using rnd_mono [OF q(2), of b64] unfolding grid by (simp only:)
  have low: "of_int k \<le> rnd b64 ?q"
    using rnd_mono [OF q(1), of b64] double.of_int_exact [of k] assms(7,8) by simp
  have lim: "\<bar>rnd b64 ?q\<bar> < 2 powi (bias b64 + 1)"
    using up low assms(7,8) by (intro b64_limit) auto
  have to: "has_val (to_fp b64 ?q) (rnd b64 ?q)" using has_val_to_fp lim by blast
  have "val64 (f64_div ang w) = to_fp b64 ?q" if "val64 w = Fin y" for w
    using rep_to_fp [of b64 ?q] assms(3,4) that by (simp add: f64_div_def ang fp_div_def val64_mk64)
  then have "val64 (f64_div ang (f64_div (f64_of_int 360) (f64_of_int samples))) = to_fp b64 ?q"
    using assms(2) by blast
  moreover have "is_fin (to_fp b64 ?q)" "fp_val (to_fp b64 ?q) = rnd b64 ?q"
    using has_val_cases [OF to] by auto
  moreover have "rat_trunc (rnd b64 ?q) = k"
    using low up assms(7) by (auto simp: rat_trunc_def floor_eq_iff)
  ultimately show ?thesis
    using assms(7,8) by (simp add: azimuth_index_def f64_to_int32_def fp_to_int_def)
qed

lemma azimuth_angles_14:
  "has_val (val64 (azimuth_angle 0 5600)) 0"
  "has_val (val64 (azimuth_angle 14 5600)) (7549747 / 8388608)"
  "has_val (val64 (azimuth_angle 28 5600)) (7549747 / 4194304)"
  "has_val (val64 (azimuth_angle 42 5600)) (11324621 / 4194304)"
proof -
  have r: "rnd b32 (9 / 10) = 7549747 / 8388608" "rnd b32 (9 / 5) = 7549747 / 4194304"
    "rnd b32 (27 / 10) = 11324621 / 4194304"
    by (simp_all add: fp_eval rne_def ceiling_numerals cong: let_weak_cong)
  note q = azimuth_quotient [of 0 5600] azimuth_quotient [of 14 5600] azimuth_quotient [of 28 5600]
    azimuth_quotient [of 42 5600]
  show "has_val (val64 (azimuth_angle 0 5600)) 0" "has_val (val64 (azimuth_angle 14 5600)) (7549747 / 8388608)"
    "has_val (val64 (azimuth_angle 28 5600)) (7549747 / 4194304)"
    "has_val (val64 (azimuth_angle 42 5600)) (11324621 / 4194304)"
    using q by (simp_all add: azimuth_angle_def val64_of_f32 r)
qed

lemma azimuth_indices_14:
  "azimuth_index (azimuth_angle 0 5600) 400 = Some 0" "azimuth_index (azimuth_angle 14 5600) 400 = Some 0"
  "azimuth_index (azimuth_angle 28 5600) 400 = Some 1" "azimuth_index (azimuth_angle 42 5600) 400 = Some 3"
proof -
  have "azimuth_index a 400 = Some 0" if "val64 a = Fin 0 \<or> val64 a = NZero" for a
  proof -
    have "val64 (f64_div a w) \<in> {Fin 0, NZero}" if "val64 w = Fin y" "0 < y" for w y
      using that \<open>val64 a = Fin 0 \<or> val64 a = NZero\<close>
      by (auto simp: f64_div_def fp_div_def signed_zero_def val64_mk64 rep_def)
    from this [OF azimuth_width_400] show ?thesis
      by (auto simp: azimuth_index_def f64_to_int32_def fp_to_int_def rat_trunc_def)
  qed
  then show "azimuth_index (azimuth_angle 0 5600) 400 = Some 0"
    using has_val_cases [OF azimuth_angles_14(1)] by blast
  show "azimuth_index (azimuth_angle 14 5600) 400 = Some 0"
    "azimuth_index (azimuth_angle 28 5600) 400 = Some 1" "azimuth_index (azimuth_angle 42 5600) 400 = Some 3"
    using azimuth_index_between [OF azimuth_angles_14(2) azimuth_width_400, of 0]
      azimuth_index_between [OF azimuth_angles_14(3) azimuth_width_400, of 1]
      azimuth_index_between [OF azimuth_angles_14(4) azimuth_width_400, of 3] by simp_all
qed

text \<open>
  The index of an azimuth is taken from the rounded angle by truncation, so that azimuths are
  confused: of the first four of a radar with 400 azimuths on an encoder of 5600 steps the second
  gets the index of the first, the third that of the second, and no azimuth the index 2.
\<close>

theorem azimuth_index_collides:
  "azimuth_index (azimuth_angle 0 5600) 400 = Some 0 \<and> azimuth_index (azimuth_angle 14 5600) 400 = Some 0 \<and>
   azimuth_index (azimuth_angle 28 5600) 400 = Some 1 \<and> azimuth_index (azimuth_angle 42 5600) 400 = Some 3"
  by (simp add: azimuth_indices_14)

end
