(* ===== verification/Laser_Scan.thy ===== *)
theory Laser_Scan
  imports Ros_Node
begin

text \<open>
  \<open>ros2/src/nav_ros/src/laser_scan_publisher.h\<close> and \<open>.cpp\<close>: the distance of the first bin above a
  threshold for every azimuth, published as a laser scan once a rotation.
\<close>

section \<open>State\<close>

record laser_scan_publisher = sector_node +
  range_values :: "float32 list"
  scan_intensity_values :: "float32 list"
  scan_bin_size :: float32
  scan_rotation_rate :: int
  scan_power_threshold :: u16

definition new_laser_scan_publisher :: "ros_params \<Rightarrow> laser_scan_publisher acted" where
  "new_laser_scan_publisher ps =
     (sector_node.extend (new_sector_node ps)
        \<lparr>range_values = [], scan_intensity_values = [], scan_bin_size = f32_of_int 0, scan_rotation_rate = 0,
         scan_power_threshold = u16_of_param ps ''power_threshold''\<rparr>,
      declared (sector_parameters @ [''power_threshold'', ''azimuth_offset'']) @
      [Create_publisher ''radar_data/configuration_data'' 1, Create_publisher ''radar_data/laser_scan'' 4])"

section \<open>Operations\<close>

definition pi_64 :: float64 where
  "pi_64 = f64_of_rat (314159265358979323846 / 100000000000000000000)"

text \<open>\<open>M_PI / 180 * 360 / azimuth_samples\<close>\<close>

definition angle_step :: "int \<Rightarrow> float64" where
  "angle_step samples = f64_div (f64_mul (f64_div pi_64 (f64_of_int 180)) (f64_of_int 360)) (f64_of_int samples)"

definition publish_laser_scan :: "fft_record \<Rightarrow> laser_scan_publisher \<Rightarrow> ros_action" where
  "publish_laser_scan fft n =
     (let step = angle_step (node_azimuth_samples n);
          period = f64_div (f64_of_int 1) (f64_of_int (scan_rotation_rate n)) in
      Publish_scan
       \<lparr>scan_header = \<lparr>stamp_sec = f_ntp_seconds fft, stamp_nanosec = f_ntp_split_seconds fft, frame_id = ''laser_frame''\<rparr>,
        angle_min = f32_of_f64 (f64_mul step (f64_of_int (uint (node_start_azimuth n)))),
        angle_max = f32_of_f64 (f64_mul step (f64_of_int (uint (node_end_azimuth n)))),
        angle_increment = f32_of_f64 step,
        time_increment = f32_of_f64 (f64_div period (f64_of_int (node_azimuth_samples n))),
        scan_time = f32_of_f64 period,
        range_min = f32_of_f64 (f64_mul (f64_of_int 1) (f64_of_f32 (scan_bin_size n))),
        range_max = f32_mul (f32_of_int (node_range_in_bins n)) (scan_bin_size n),
        ranges = range_values n, intensities = scan_intensity_values n\<rparr>)"

text \<open>The search for the first bin above the threshold, from a bin on and below a limit.\<close>

function first_peak :: "byte list \<Rightarrow> u16 \<Rightarrow> nat \<Rightarrow> nat \<Rightarrow> nat" where
  "first_peak bytes thr limit bin =
     (if bin < limit then (if uint (bytes ! bin) > uint thr then bin else first_peak bytes thr limit (bin + 1))
      else bin)"
  by pat_completeness auto

termination
  by (relation "measure (\<lambda>(bytes, thr, limit, bin). limit - bin)") auto

declare first_peak.simps [simp del]

definition check_scan_power_threshold :: "ros_params \<Rightarrow> laser_scan_publisher acted \<Rightarrow> laser_scan_publisher acted" where
  "check_scan_power_threshold ps = (\<lambda>(n, acts).
     let t = int_of_param ps ''power_threshold'' in
     if t < 0 \<or> t > 255
     then (n, acts @ [Set_parameter ''power_threshold'' (Ros_int (uint (scan_power_threshold n)))])
     else (n\<lparr>scan_power_threshold := word_of_int t\<rparr>, acts))"

text \<open>A write to a vector at an \<open>int\<close> index; outside the vector it is undefined.\<close>

definition write_at :: "int \<Rightarrow> 'a \<Rightarrow> 'a list \<Rightarrow> 'a list option" where
  "write_at i x xs = (if 0 \<le> i then set_opt (nat i) x xs else None)"

definition store_scan :: "int \<Rightarrow> float32 \<Rightarrow> float32 \<Rightarrow> laser_scan_publisher \<Rightarrow> laser_scan_publisher option" where
  "store_scan adj r i n = do {
     rs \<leftarrow> write_at adj r (range_values n);
     is \<leftarrow> write_at adj i (scan_intensity_values n);
     Some (n\<lparr>range_values := rs, scan_intensity_values := is\<rparr>) }"

definition scan_limit :: "byte list \<Rightarrow> laser_scan_publisher \<Rightarrow> nat" where
  "scan_limit bytes n = min (length bytes) (unat (node_end_bin n))"

definition scan_fft_data_handler ::
    "ros_params \<Rightarrow> fft_record \<Rightarrow> laser_scan_publisher \<Rightarrow> laser_scan_publisher acted option" where
  "scan_fft_data_handler ps fft n = do {
     let bin = first_peak (f_data fft) (scan_power_threshold n) (scan_limit (f_data fft) n) (unat (node_start_bin n));
     let r = f32_mul (scan_bin_size n) (f32_of_int (int bin));
     power \<leftarrow> nth_opt (f_data fft) bin;
     idx \<leftarrow> azimuth_index (f_angle fft) (node_azimuth_samples n);
     let adj = adjusted_azimuth_index idx n;
     n1 \<leftarrow> (if in_sector idx n then store_scan adj r (f32_of_int (uint power)) n
           else store_scan adj (f32_of_int 0) (f32_of_int 0) n);
     let (n2, acts) = (if wrapped (f_azimuth fft) n1 then (turned n1, [publish_laser_scan fft (turned n1)]) else (n1, []));
     let n3 = n2\<lparr>node_last_azimuth := uint (f_azimuth fft)\<rparr>;
     Some (if parameters_due n3 then
         let (n4, acts4) = check_scan_power_threshold ps (check_sector ps (n3, acts)) in
         (n4\<lparr>node_rotation_count := 0\<rparr>, acts4 @ [Publish_configuration (node_config_message n4)])
       else (n3, acts)) }"

definition resized :: "nat \<Rightarrow> float32 list \<Rightarrow> float32 list" where
  "resized k xs = take k xs @ replicate (k - length xs) (f32_of_int 0)"

definition scan_configuration_data_handler ::
    "configuration_record \<Rightarrow> laser_scan_publisher \<Rightarrow> laser_scan_publisher acted" where
  "scan_configuration_data_handler cfg n =
     (n\<lparr>node_azimuth_samples := uint (c_azimuth_samples cfg), scan_bin_size := f32_of_f64 (c_bin_size cfg),
        node_end_bin := c_range_in_bins cfg, node_range_in_bins := uint (c_range_in_bins cfg),
        scan_rotation_rate := uint (c_expected_rotation_rate cfg),
        node_config_message := configuration_message_of cfg,
        range_values := resized (unat (c_azimuth_samples cfg)) (range_values n),
        scan_intensity_values := resized (unat (c_azimuth_samples cfg)) (scan_intensity_values n)\<rparr>,
      [Publish_configuration (configuration_message_of cfg), Radar_start_fft_data])"

section \<open>Properties\<close>

lemma first_peak_result:
  assumes "bin \<le> limit"
  shows "first_peak bytes thr limit bin \<in> {bin..limit} \<and>
    (first_peak bytes thr limit bin < limit \<longrightarrow> uint (bytes ! first_peak bytes thr limit bin) > uint thr) \<and>
    (\<forall>b \<in> {bin..<first_peak bytes thr limit bin}. uint (bytes ! b) \<le> uint thr)"
  using assms
proof (induction bytes thr limit bin rule: first_peak.induct)
  case (1 bytes thr limit bin)
  show ?case
  proof (cases "bin < limit \<and> \<not> uint (bytes ! bin) > uint thr")
    case True
    have same: "first_peak bytes thr limit bin = first_peak bytes thr limit (bin + 1)"
      using True by (subst first_peak.simps) simp
    have "b = bin \<or> b \<in> {bin + 1..<x}" if "b \<in> {bin..<x}" for b x using that by auto
    then show ?thesis using "1.IH" True unfolding same by fastforce
  next
    case False
    then have "first_peak bytes thr limit bin = bin" by (subst first_peak.simps) auto
    then show ?thesis using False "1.prems" by auto
  qed
qed

lemma no_peak:
  assumes "bin \<le> limit" "\<forall>b \<in> {bin..<limit}. uint (bytes ! b) \<le> uint thr"
  shows "first_peak bytes thr limit bin = limit"
proof -
  define p where "p = first_peak bytes thr limit bin"
  have "p \<in> {bin..limit}" "p < limit \<Longrightarrow> uint (bytes ! p) > uint thr"
    using first_peak_result [OF assms(1), of bytes thr] unfolding p_def by blast+
  then show ?thesis using assms(2) unfolding p_def [symmetric] by force
qed

text \<open>
  An azimuth in which no bin of the range is above the threshold, with a range that reaches to
  the end of the data (as after every configuration message), reads one byte past the data.
\<close>

theorem scan_without_peak_reads_past_end:
  assumes "unat (node_start_bin n) \<le> length (f_data fft)" "length (f_data fft) \<le> unat (node_end_bin n)"
    "\<forall>b \<in> set (f_data fft). uint b \<le> uint (scan_power_threshold n)"
  shows "scan_fft_data_handler ps fft n = None"
proof -
  have "scan_limit (f_data fft) n = length (f_data fft)" using assms(2) by (simp add: scan_limit_def)
  moreover have "first_peak (f_data fft) (scan_power_threshold n) (length (f_data fft)) (unat (node_start_bin n)) = length (f_data fft)"
    using assms by (intro no_peak) auto
  ultimately show ?thesis by (simp add: scan_fft_data_handler_def nth_opt_def Let_def)
qed

text \<open>One azimuth with a bin to report.\<close>

lemma write_at_Some: "0 \<le> i \<Longrightarrow> nat i < length xs \<Longrightarrow> write_at i x xs = Some (xs[nat i := x])"
  by (simp add: write_at_def set_opt_def)

lemma store_scan_Some:
  assumes "0 \<le> adj" "nat adj < length (range_values n)" "nat adj < length (scan_intensity_values n)"
  shows "store_scan adj r i n = Some (n\<lparr>range_values := (range_values n)[nat adj := r],
    scan_intensity_values := (scan_intensity_values n)[nat adj := i]\<rparr>)"
  using assms by (simp add: store_scan_def write_at_Some)

lemma first_peak_eq:
  assumes "low \<le> bin" "bin \<le> limit" "\<forall>b \<in> {low..<bin}. uint (bytes ! b) \<le> uint thr"
    "bin = limit \<or> uint thr < uint (bytes ! bin)"
  shows "first_peak bytes thr limit low = bin"
proof -
  define p where "p = first_peak bytes thr limit low"
  have p: "p \<in> {low..limit}" "p < limit \<Longrightarrow> uint (bytes ! p) > uint thr" "\<forall>b \<in> {low..<p}. uint (bytes ! b) \<le> uint thr"
    using first_peak_result [of low limit bytes thr] assms(1,2) unfolding p_def by auto
  show ?thesis
  proof (cases p bin rule: linorder_cases)
    case less
    then have "uint thr < uint (bytes ! p)" "uint (bytes ! p) \<le> uint thr" using p(1,2) assms(2,3) by auto
    then show ?thesis by simp
  next
    case greater
    then have "uint (bytes ! bin) \<le> uint thr" "bin \<noteq> limit" using p(1,3) assms(1) by auto
    then show ?thesis using assms(4) by simp
  qed (simp add: p_def)
qed

lemma scan_checks_frame:
  "range_values (fst (check_sector ps x)) = range_values (fst x) \<and>
   scan_intensity_values (fst (check_sector ps x)) = scan_intensity_values (fst x)"
  for x :: "laser_scan_publisher acted"
proof -
  have step: "range_values (fst (c ps y)) = range_values (fst y) \<and>
      scan_intensity_values (fst (c ps y)) = scan_intensity_values (fst y)"
    if "c \<in> {check_azimuth_offset, check_start_azimuth, check_end_azimuth, check_start_bin, check_end_bin}"
    for c and y :: "laser_scan_publisher acted"
    using that by (cases y) (auto simp: check_defs Let_def)
  show ?thesis unfolding check_sector_def by (simp add: step)
qed

lemma threshold_frame:
  "range_values (fst (check_scan_power_threshold ps x)) = range_values (fst x) \<and>
   scan_intensity_values (fst (check_scan_power_threshold ps x)) = scan_intensity_values (fst x)"
  by (cases x) (simp add: check_scan_power_threshold_def Let_def)

text \<open>
  C32: what an azimuth leaves in the scan.  Let \<open>bin\<close> be the first bin from the start bin on whose
  power is above the threshold, or the end bin when there is none before it, and let the data have
  a byte for it.  When the limits hold, the index of the azimuth is in range and the vectors have an
  entry for each azimuth, the entry of the index plus the offset, modulo the number of azimuths,
  gets the distance (the bin times the bin size) and the power of that bin, or zeros when the index
  is outside the sector; the other entries stay, and nothing undefined happens.
\<close>

theorem scan_stores_first_peak:
  assumes "sector_ok n" "azimuth_index (f_angle fft) (node_azimuth_samples n) = Some idx"
    "0 \<le> idx" "idx < node_azimuth_samples n"
    "int (length (range_values n)) = node_azimuth_samples n" "int (length (scan_intensity_values n)) = node_azimuth_samples n"
    "unat (node_start_bin n) \<le> bin" "bin \<le> unat (node_end_bin n)" "bin < length (f_data fft)"
    "\<forall>b. unat (node_start_bin n) \<le> b \<and> b < bin \<longrightarrow> uint (f_data fft ! b) \<le> uint (scan_power_threshold n)"
    "bin = unat (node_end_bin n) \<or> uint (scan_power_threshold n) < uint (f_data fft ! bin)"
    "slot = nat (if idx + uint (node_azimuth_offset n) < node_azimuth_samples n then idx + uint (node_azimuth_offset n)
       else idx + uint (node_azimuth_offset n) - node_azimuth_samples n)"
  shows "\<exists>n' acts. scan_fft_data_handler ps fft n = Some (n', acts) \<and>
    (if uint (node_start_azimuth n) \<le> idx \<and> idx < uint (node_end_azimuth n)
     then range_values n' = (range_values n)[slot := f32_mul (scan_bin_size n) (f32_of_int (int bin))] \<and>
       scan_intensity_values n' = (scan_intensity_values n)[slot := f32_of_int (uint (f_data fft ! bin))]
     else range_values n' = (range_values n)[slot := f32_of_int 0] \<and>
       scan_intensity_values n' = (scan_intensity_values n)[slot := f32_of_int 0])"
proof -
  let ?adj = "adjusted_azimuth_index idx n"
  define r i where "r = (if in_sector idx n then f32_mul (scan_bin_size n) (f32_of_int (int bin)) else f32_of_int 0)"
    and "i = (if in_sector idx n then f32_of_int (uint (f_data fft ! bin)) else f32_of_int 0)"
  have adj: "0 \<le> ?adj" "?adj < node_azimuth_samples n" "slot = nat ?adj"
    using adjusted_range [OF assms(3,4)] assms(1,12) by (simp_all add: sector_ok_def adjusted_azimuth_index_def Let_def)
  have bin: "first_peak (f_data fft) (scan_power_threshold n) (scan_limit (f_data fft) n) (unat (node_start_bin n)) = bin"
    using assms(7-11) by (intro first_peak_eq) (auto simp: scan_limit_def)
  define n1 where "n1 = n\<lparr>range_values := (range_values n)[slot := r], scan_intensity_values := (scan_intensity_values n)[slot := i]\<rparr>"
  have power: "nth_opt (f_data fft) bin = Some (f_data fft ! bin)" using assms(9) by (simp add: nth_opt_def)
  have store: "(if in_sector idx n then store_scan ?adj (f32_mul (scan_bin_size n) (f32_of_int (int bin)))
        (f32_of_int (uint (f_data fft ! bin))) n
      else store_scan ?adj (f32_of_int 0) (f32_of_int 0) n) = Some n1"
    using adj assms(5,6) by (simp add: store_scan_Some n1_def r_def i_def)
  have vectors: "range_values n1 = (range_values n)[slot := r]" "scan_intensity_values n1 = (scan_intensity_values n)[slot := i]"
    by (simp_all add: n1_def)
  define x where "x = (if wrapped (f_azimuth fft) n1 then (turned n1, [publish_laser_scan fft (turned n1)]) else (n1, []))"
  have x: "range_values (fst x) = range_values n1" "scan_intensity_values (fst x) = scan_intensity_values n1"
    by (simp_all add: x_def turned_def)
  have "scan_fft_data_handler ps fft n =
      (let n3 = (fst x)\<lparr>node_last_azimuth := uint (f_azimuth fft)\<rparr> in
       Some (if parameters_due n3 then
         let y = check_scan_power_threshold ps (check_sector ps (n3, snd x)) in
         ((fst y)\<lparr>node_rotation_count := 0\<rparr>, snd y @ [Publish_configuration (node_config_message (fst y))])
       else (n3, snd x)))"
    unfolding scan_fft_data_handler_def Let_def bin power assms(2) bind.bind_lunit store
    by (simp add: x_def split_beta)
  then have "\<exists>n' acts. scan_fft_data_handler ps fft n = Some (n', acts) \<and>
      range_values n' = (range_values n)[slot := r] \<and> scan_intensity_values n' = (scan_intensity_values n)[slot := i]"
    using x vectors by (auto simp: Let_def scan_checks_frame threshold_frame)
  then show ?thesis unfolding r_def i_def in_sector_def by (cases "uint (node_start_azimuth n) \<le> idx \<and> idx < uint (node_end_azimuth n)") auto
qed

text \<open>
  A negative azimuth offset passes the check of the parameters and is stored as an unsigned
  number, after which the entry of every azimuth lies outside the vectors.
\<close>

theorem negative_offset_leaves_vectors:
  assumes "int_of_param ps ''azimuth_offset'' = - 1" "0 \<le> idx" "node_azimuth_samples n < 32768"
    "int (length (range_values n)) = node_azimuth_samples n" "n' = fst (check_sector ps (n, acts))"
  shows "uint (node_azimuth_offset n') = 65535 \<and> store_scan (adjusted_azimuth_index idx n') r i n' = None"
proof -
  have "node_azimuth_offset (fst (c ps y)) = node_azimuth_offset (fst y) \<and>
      node_azimuth_samples (fst (c ps y)) = node_azimuth_samples (fst y)"
    if "c \<in> {check_start_azimuth, check_end_azimuth, check_start_bin, check_end_bin}"
    for c and y :: "laser_scan_publisher acted"
    using that by (cases y) (auto simp: check_defs Let_def)
  moreover have "node_azimuth_offset (fst (check_azimuth_offset ps (n, acts))) = - 1 \<and>
      node_azimuth_samples (fst (check_azimuth_offset ps (n, acts))) = node_azimuth_samples n"
    using assms(1,4) by (simp add: check_azimuth_offset_def)
  ultimately have offset: "node_azimuth_offset n' = - 1" "node_azimuth_samples n' = node_azimuth_samples n"
    unfolding assms(5) check_sector_def by simp_all
  have "range_values n' = range_values n" using scan_checks_frame by (simp add: assms(5))
  moreover have "node_azimuth_samples n \<le> adjusted_azimuth_index idx n'"
    using assms(2,3) by (simp add: adjusted_azimuth_index_def Let_def offset uint_word_ariths)
  ultimately have "write_at (adjusted_azimuth_index idx n') r (range_values n') = None"
    using assms(4) by (simp add: write_at_def set_opt_def nat_less_iff)
  then show ?thesis by (simp add: store_scan_def offset uint_word_ariths)
qed

definition scan_params :: "int \<Rightarrow> ros_params" where
  "scan_params off =
     \<lparr>int_param = (\<lambda>p. if p = ''azimuth_offset'' then off else if p = ''end_azimuth'' then 400 else 0),
      double_param = (\<lambda>p. f64_of_int 0), bool_param = (\<lambda>p. False), string_param = (\<lambda>p. [])\<rparr>"

definition scan_node :: laser_scan_publisher where
  "scan_node = (fst (new_laser_scan_publisher (scan_params 0)))
     \<lparr>node_azimuth_samples := 400, node_end_bin := 4, node_range_in_bins := 4, scan_power_threshold := 80,
      range_values := replicate 400 (f32_of_int 0), scan_intensity_values := replicate 400 (f32_of_int 0)\<rparr>"

definition scan_fft :: "byte list \<Rightarrow> fft_record" where
  "scan_fft bytes =
     \<lparr>f_angle = azimuth_angle 28 5600, f_azimuth = 28, f_sweep_counter = 0, f_ntp_seconds = 7,
      f_ntp_split_seconds = 8, f_data = bytes\<rparr>"

lemmas scan_node_defs = scan_node_def new_laser_scan_publisher_def new_sector_node_def new_rotation_node_def
  rotation_node.defs sector_node.defs scan_params_def u16_of_param_def

theorem scan_without_peak_reads_past_end_witness:
  "scan_fft_data_handler (scan_params 0) (scan_fft [10, 80, 20, 30]) scan_node = None"
  by (rule scan_without_peak_reads_past_end) (simp_all add: scan_node_defs scan_fft_def)

theorem scan_stores_first_peak_witness:
  "\<exists>n' acts. scan_fft_data_handler (scan_params 0) (scan_fft [10, 90, 20, 95]) scan_node = Some (n', acts) \<and>
    scan_intensity_values n' = (replicate 400 (f32_of_int 0))[1 := f32_of_int 90]"
proof -
  have "\<forall>b. 0 \<le> b \<and> b < 1 \<longrightarrow> uint ([10, 90, 20, 95 :: byte] ! b) \<le> 80" by simp
  then show ?thesis
    using scan_stores_first_peak [of scan_node "scan_fft [10, 90, 20, 95]" 1 1 1 "scan_params 0"]
    by (simp add: scan_node_defs scan_fft_def sector_ok_def azimuth_indices_14) blast
qed

theorem negative_offset_leaves_vectors_witness:
  "store_scan (adjusted_azimuth_index 1 (fst (check_sector (scan_params (- 1)) (scan_node, [])))) (f32_of_int 5) (f32_of_int 90)
     (fst (check_sector (scan_params (- 1)) (scan_node, []))) = None"
  using negative_offset_leaves_vectors [of "scan_params (- 1)" 1 scan_node _ "[]", OF _ _ _ _ refl]
  by (simp add: scan_node_defs int_of_param_def to_int32_def)

end
