(* ===== verification/B_Scan.thy ===== *)
theory B_Scan
  imports Laser_Scan
begin

text \<open>
  \<open>ros2/src/nav_ros/src/b_scan_publisher.h\<close> and \<open>.cpp\<close>: an image with a row for each azimuth and a
  column for each bin, published once a rotation.  A vector that was moved from is empty.  The
  product of azimuths and bins is taken to fit an \<open>int\<close>.
\<close>

section \<open>Operations\<close>

record b_scan_publisher = sector_node +
  image_values :: "byte list"
  image_buffer_length :: int

definition new_b_scan_publisher :: "ros_params \<Rightarrow> b_scan_publisher acted" where
  "new_b_scan_publisher ps =
     (sector_node.extend (new_sector_node ps) \<lparr>image_values = [], image_buffer_length = 0\<rparr>,
      declared (sector_parameters @ [''azimuth_offset'']) @ [Create_publisher ''radar_data/b_scan_image'' 4])"

definition image_size :: "b_scan_publisher \<Rightarrow> nat" where
  "image_size n = nat (node_azimuth_samples n * node_range_in_bins n)"

definition image_data_handler :: "fft_record \<Rightarrow> b_scan_publisher acted \<Rightarrow> b_scan_publisher acted" where
  "image_data_handler fft = (\<lambda>(n, acts).
     if length (image_values n) \<noteq> image_size n then (n, acts)
     else (n\<lparr>image_values := []\<rparr>, acts @ [Publish_image
       \<lparr>image_header = \<lparr>stamp_sec = f_ntp_seconds fft, stamp_nanosec = f_ntp_split_seconds fft, frame_id = ''b_scan_image''\<rparr>,
        image_height = word_of_int (node_azimuth_samples n), image_width = word_of_int (node_range_in_bins n),
        image_encoding = ''8UC1'', image_is_bigendian = False,
        image_step = word_of_int (node_range_in_bins n), image_data = image_values n\<rparr>]))"

text \<open>The two loops that push a zero for each azimuth and bin.\<close>

definition push_zeros :: "b_scan_publisher \<Rightarrow> b_scan_publisher" where
  "push_zeros n = n\<lparr>image_values := image_values n @ replicate (image_size n) 0\<rparr>"

text \<open>The loop over the bins of an azimuth inside the sector, and the one outside.\<close>

fun write_row :: "b_scan_publisher \<Rightarrow> int \<Rightarrow> nat \<Rightarrow> byte list \<Rightarrow> byte list \<Rightarrow> byte list option" where
  "write_row n adj y [] values = Some values"
| "write_row n adj y (d # ds) values = do {
     values' \<leftarrow> write_at (adj * node_range_in_bins n + int y)
       (if unat (node_start_bin n) \<le> y \<and> y < unat (node_end_bin n) then d else 0) values;
     write_row n adj (y + 1) ds values' }"

fun clear_row :: "b_scan_publisher \<Rightarrow> int \<Rightarrow> nat list \<Rightarrow> byte list \<Rightarrow> byte list option" where
  "clear_row n adj [] values = Some values"
| "clear_row n adj (y # ys) values = do {
     values' \<leftarrow> write_at (adj * node_range_in_bins n + int y) 0 values;
     clear_row n adj ys values' }"

definition b_scan_fft_data_handler ::
    "ros_params \<Rightarrow> fft_record \<Rightarrow> b_scan_publisher \<Rightarrow> b_scan_publisher acted option" where
  "b_scan_fft_data_handler ps fft n = do {
     idx \<leftarrow> azimuth_index (f_angle fft) (node_azimuth_samples n);
     let adj = adjusted_azimuth_index idx n;
     values \<leftarrow> (if in_sector idx n then write_row n adj 0 (f_data fft) (image_values n)
       else clear_row n adj [0..<nat (node_range_in_bins n)] (image_values n));
     let n1 = n\<lparr>image_values := values\<rparr>;
     let (n2, acts) = (if wrapped (f_azimuth fft) n1
       then let (m, acts) = image_data_handler fft (turned n1, []) in (push_zeros m, acts)
       else (n1, []));
     let n3 = n2\<lparr>node_last_azimuth := uint (f_azimuth fft)\<rparr>;
     Some (if parameters_due n3 then
         let (n4, acts4) = check_sector ps (n3, acts) in (n4\<lparr>node_rotation_count := 0\<rparr>, acts4)
       else (n3, acts)) }"

definition b_scan_configuration_data_handler ::
    "configuration_record \<Rightarrow> b_scan_publisher \<Rightarrow> b_scan_publisher acted" where
  "b_scan_configuration_data_handler cfg n =
     (let n1 = n\<lparr>node_azimuth_samples := uint (c_azimuth_samples cfg), node_range_in_bins := uint (c_range_in_bins cfg),
                image_buffer_length := uint (c_azimuth_samples cfg) * uint (c_range_in_bins cfg)\<rparr>
      in (push_zeros n1, [Radar_start_fft_data]))"

section \<open>Rows\<close>

lemma write_row_length: "write_row n adj y ds vs = Some ws \<Longrightarrow> length ws = length vs"
  by (induction ds arbitrary: y vs) (auto simp: write_at_def set_opt_def split: Option.bind_splits if_splits)

lemma clear_row_length: "clear_row n adj ys vs = Some ws \<Longrightarrow> length ws = length vs"
  by (induction ys arbitrary: vs) (auto simp: write_at_def set_opt_def split: Option.bind_splits if_splits)

text \<open>What a row becomes: its bins between the limits, zeros elsewhere.\<close>

definition row_of :: "b_scan_publisher \<Rightarrow> nat \<Rightarrow> byte list \<Rightarrow> byte list" where
  "row_of n y ds = map2 (\<lambda>i d. if unat (node_start_bin n) \<le> i \<and> i < unat (node_end_bin n) then d else 0) [y..<y + length ds] ds"

lemma row_of_Cons: "row_of n y (d # ds) =
    (if unat (node_start_bin n) \<le> y \<and> y < unat (node_end_bin n) then d else 0) # row_of n (Suc y) ds"
  by (simp add: row_of_def upt_conv_Cons del: upt_Suc)

lemma write_row_result:
  assumes "0 \<le> adj * node_range_in_bins n" "nat (adj * node_range_in_bins n) + y + length ds \<le> length vs" 
  shows "write_row n adj y ds vs = Some (take (nat (adj * node_range_in_bins n) + y) vs @ row_of n y ds @
    drop (nat (adj * node_range_in_bins n) + y + length ds) vs)"
  using assms(2)
proof (induction ds arbitrary: y vs)
  case Nil
  then show ?case by (simp add: row_of_def)
next
  case (Cons d ds)
  let ?b = "nat (adj * node_range_in_bins n) + y"
  let ?x = "if unat (node_start_bin n) \<le> y \<and> y < unat (node_end_bin n) then d else 0"
  have at: "nat (adj * node_range_in_bins n + int y) = ?b" using assms(1) by (simp add: nat_add_distrib)
  have "write_at (adj * node_range_in_bins n + int y) ?x vs = Some (vs[?b := ?x])"
    using Cons.prems assms(1) unfolding write_at_def at by (simp add: set_opt_def)
  moreover have "take (Suc ?b) (vs[?b := ?x]) = take ?b vs @ [?x]"
    using Cons.prems by (simp add: take_Suc_conv_app_nth)
  ultimately show ?case
    using Cons.IH [of "y + 1" "vs[?b := ?x]"] Cons.prems by (simp add: row_of_Cons del: take_Suc)
qed

text \<open>
  An azimuth inside the sector replaces its row of the image, turned by the offset, by its bins
  between the limits and zeros elsewhere, and nothing else, without undefined behaviour, when the
  limits hold, the image has its size and the azimuth has one value for each bin.
\<close>

theorem b_scan_row_stored:
  assumes "sector_ok n" "azimuth_index (f_angle fft) (node_azimuth_samples n) = Some idx"
    "in_sector idx n" "idx < node_azimuth_samples n" "length (image_values n) = image_size n"
    "int (length (f_data fft)) = node_range_in_bins n" "\<not> wrapped (f_azimuth fft) n" "\<not> parameters_due n"
    "b = nat (adjusted_azimuth_index idx n) * length (f_data fft)"
  shows "b_scan_fft_data_handler ps fft n = Some (n
    \<lparr>node_last_azimuth := uint (f_azimuth fft),
     image_values := take b (image_values n) @ row_of n 0 (f_data fft) @ drop (b + length (f_data fft)) (image_values n)\<rparr>, [])"
proof -
  let ?adj = "adjusted_azimuth_index idx n" and ?k = "length (f_data fft)"
  have "0 \<le> idx" using assms(3) by (auto simp: in_sector_def intro: order_trans [OF uint_bounds(1)])
  then have adj: "0 \<le> ?adj" "?adj < node_azimuth_samples n"
    using adjusted_range [of idx n] assms(1,4) by (simp_all add: sector_ok_def)
  have row: "nat (?adj * node_range_in_bins n) = b" "0 \<le> ?adj * node_range_in_bins n"
    using adj assms(9) by (simp_all add: nat_mult_distrib flip: assms(6))
  have "(nat ?adj + 1) * ?k \<le> nat (node_azimuth_samples n) * ?k" using adj by (intro mult_le_mono1) simp
  also have "\<dots> = length (image_values n)" using adj by (simp add: assms(5) image_size_def nat_mult_distrib flip: assms(6))
  finally have fits: "b + ?k \<le> length (image_values n)" by (simp add: assms(9))
  have w: "write_row n ?adj 0 (f_data fft) (image_values n) =
      Some (take b (image_values n) @ row_of n 0 (f_data fft) @ drop (b + ?k) (image_values n))"
    using write_row_result [of ?adj n 0 "f_data fft" "image_values n"] row fits by simp
  have same: "\<not> wrapped (f_azimuth fft) (n\<lparr>image_values := v\<rparr>)" "\<not> parameters_due (n\<lparr>image_values := v, node_last_azimuth := a\<rparr>)"
    for v a using assms(7,8) by (simp_all add: wrapped_def parameters_due_def)
  show ?thesis
    unfolding b_scan_fft_data_handler_def Let_def assms(2) bind.bind_lunit using assms(3) w same by simp
qed

section \<open>A second configuration\<close>

text \<open>The image holds more than its size.\<close>

definition overfull :: "b_scan_publisher \<Rightarrow> bool" where
  "overfull n \<longleftrightarrow> image_size n < length (image_values n)"

definition no_image :: "ros_action list \<Rightarrow> bool" where
  "no_image acts \<longleftrightarrow> list_all (\<lambda>a. case a of Publish_image i \<Rightarrow> False | _ \<Rightarrow> True) acts"

lemma no_image_simps [simp]:
  "no_image []" "no_image (xs @ ys) \<longleftrightarrow> no_image xs \<and> no_image ys"
  by (simp_all add: no_image_def)

lemma checks_keep_overfull:
  assumes "overfull (fst x)" "no_image (snd x)"
  shows "overfull (fst (check_sector ps x)) \<and> no_image (snd (check_sector ps x))"
proof -
  have "overfull (fst (c ps y)) \<and> no_image (snd (c ps y))"
    if "c \<in> {check_azimuth_offset, check_start_azimuth, check_end_azimuth, check_start_bin, check_end_bin}"
      "overfull (fst y)" "no_image (snd y)" for c and y :: "b_scan_publisher acted"
    using that by (cases y) (auto simp: check_defs Let_def overfull_def image_size_def no_image_def)
  then show ?thesis using assms unfolding check_sector_def by simp
qed

lemma overfull_step:
  assumes "overfull n" "b_scan_fft_data_handler ps fft n = Some (n', acts)"
  shows "overfull n' \<and> no_image acts"
proof -
  obtain idx where idx: "azimuth_index (f_angle fft) (node_azimuth_samples n) = Some idx"
    using assms(2) by (auto simp: b_scan_fft_data_handler_def split: Option.bind_splits)
  obtain vals where v: "(if in_sector idx n then write_row n (adjusted_azimuth_index idx n) 0 (f_data fft) (image_values n)
       else clear_row n (adjusted_azimuth_index idx n) [0..<nat (node_range_in_bins n)] (image_values n)) = Some vals"
    using assms(2) unfolding b_scan_fft_data_handler_def idx bind.bind_lunit Let_def by (auto split: Option.bind_splits)
  then have len: "length vals = length (image_values n)"
    by (auto split: if_splits dest: write_row_length clear_row_length)
  define m where "m = n\<lparr>image_values := vals\<rparr>"
  have m: "overfull m" using assms(1) len by (simp add: m_def overfull_def image_size_def)
  define x where "x = (if wrapped (f_azimuth fft) m then (push_zeros (turned m), [] :: ros_action list) else (m, []))"
  have x: "overfull ((fst x)\<lparr>node_last_azimuth := a\<rparr>)" "snd x = []" for a
    using m by (auto simp: x_def overfull_def image_size_def push_zeros_def turned_def)
  have image: "image_data_handler fft (turned m, []) = (turned m, [])"
    using m by (simp add: image_data_handler_def overfull_def image_size_def turned_def)
  define y where "y = check_sector ps ((fst x)\<lparr>node_last_azimuth := uint (f_azimuth fft)\<rparr>, snd x)"
  have y: "overfull (fst y) \<and> no_image (snd y)"
    unfolding y_def by (rule checks_keep_overfull) (simp_all add: x)
  have xe: "(if wrapped (f_azimuth fft) m then case image_data_handler fft (turned m, []) of (k, a) \<Rightarrow> (push_zeros k, a)
      else (m, [])) = x" by (simp add: x_def image)
  have "Some (n', acts) = Some (if parameters_due ((fst x)\<lparr>node_last_azimuth := uint (f_azimuth fft)\<rparr>)
      then ((fst y)\<lparr>node_rotation_count := 0\<rparr>, snd y) else ((fst x)\<lparr>node_last_azimuth := uint (f_azimuth fft)\<rparr>, snd x))"
    using assms(2) unfolding b_scan_fft_data_handler_def idx bind.bind_lunit Let_def v y_def m_def [symmetric] xe
    by (auto simp: split_beta)
  then show ?thesis using y x by (auto simp: overfull_def image_size_def split: if_splits)
qed

lemma overfull_feed:
  "overfull n \<Longrightarrow> feed (b_scan_fft_data_handler ps) ffts n = Some (n', acts) \<Longrightarrow> no_image acts"
proof (induction ffts arbitrary: n n' acts)
  case (Cons f fs)
  from Cons.prems(2) obtain n1 a b where "b_scan_fft_data_handler ps f n = Some (n1, a)"
      "feed (b_scan_fft_data_handler ps) fs n1 = Some (n', b)" "acts = a @ b"
    by (auto split: Option.bind_splits)
  then show ?case using Cons.IH overfull_step [OF Cons.prems(1)] by simp blast
qed simp

text \<open>
  Every configuration message adds the zeros of a whole image.  When a second one arrives, as
  after a reconnection, the image is twice its size and stays too large, and whatever azimuths
  follow, no image is published any more.
\<close>

theorem b_scan_second_configuration:
  assumes "length (image_values n) = unat (c_azimuth_samples cfg) * unat (c_range_in_bins cfg)"
    "c_azimuth_samples cfg \<noteq> 0" "c_range_in_bins cfg \<noteq> 0"
    "feed (b_scan_fft_data_handler ps) ffts (fst (b_scan_configuration_data_handler cfg n)) = Some (n', acts)"
  shows "\<not> (\<exists>i. Publish_image i \<in> set acts)"
proof -
  have "nat (uint (c_azimuth_samples cfg) * uint (c_range_in_bins cfg)) = unat (c_azimuth_samples cfg) * unat (c_range_in_bins cfg)"
    by (simp add: nat_mult_distrib)
  moreover have "0 < unat (c_azimuth_samples cfg) * unat (c_range_in_bins cfg)"
    using assms(2,3) by (simp add: unat_gt_0)
  ultimately have "overfull (fst (b_scan_configuration_data_handler cfg n))"
    using assms(1) by (simp add: b_scan_configuration_data_handler_def push_zeros_def overfull_def image_size_def Let_def)
  from overfull_feed [OF this assms(4)] show ?thesis by (auto simp: no_image_def list_all_iff)
qed

definition b_scan_params :: ros_params where
  "b_scan_params =
     \<lparr>int_param = (\<lambda>p. if p = ''end_azimuth'' then 400 else if p = ''end_bin'' then 2 else 0),
      double_param = (\<lambda>p. f64_of_int 0), bool_param = (\<lambda>p. False), string_param = (\<lambda>p. [])\<rparr>"

definition b_scan_config :: configuration_record where
  "b_scan_config = \<lparr>c_azimuth_samples = 400, c_encoder_size = 5600, c_bin_size = f64_of_int 1, c_range_in_bins = 2,
     c_expected_rotation_rate = 4, c_range_gain = f32_of_int 1, c_range_offset = f32_of_int 0\<rparr>"

definition b_scan_node :: b_scan_publisher where
  "b_scan_node = fst (b_scan_configuration_data_handler b_scan_config (fst (new_b_scan_publisher b_scan_params)))"

lemmas b_scan_node_defs = b_scan_node_def b_scan_configuration_data_handler_def new_b_scan_publisher_def
  new_sector_node_def new_rotation_node_def rotation_node.defs sector_node.defs b_scan_params_def u16_of_param_def
  b_scan_config_def push_zeros_def image_size_def Let_def

theorem b_scan_row_stored_witness:
  "b_scan_fft_data_handler b_scan_params (scan_fft [7, 9]) b_scan_node = Some (b_scan_node
    \<lparr>node_last_azimuth := uint (f_azimuth (scan_fft [7, 9])),
     image_values := take 2 (image_values b_scan_node) @ row_of b_scan_node 0 (f_data (scan_fft [7, 9])) @
       drop (2 + length (f_data (scan_fft [7, 9]))) (image_values b_scan_node)\<rparr>, [])"
  by (rule b_scan_row_stored [where idx = 1])
    (simp_all add: b_scan_node_defs scan_fft_def sector_ok_def azimuth_indices_14 in_sector_def wrapped_def
      parameters_due_def adjusted_azimuth_index_def)

lemma second_b_scan_runs:
  "\<exists>n' acts. feed (b_scan_fft_data_handler b_scan_params) [] (fst (b_scan_configuration_data_handler b_scan_config b_scan_node)) = Some (n', acts)"
  by simp

theorem b_scan_second_configuration_witness:
  "\<exists>n' acts. feed (b_scan_fft_data_handler b_scan_params) [] (fst (b_scan_configuration_data_handler b_scan_config b_scan_node)) = Some (n', acts) \<and>
    \<not> (\<exists>i. Publish_image i \<in> set acts)"
proof -
  obtain n' acts where f: "feed (b_scan_fft_data_handler b_scan_params) []
      (fst (b_scan_configuration_data_handler b_scan_config b_scan_node)) = Some (n', acts)"
    using second_b_scan_runs by blast
  have "length (image_values b_scan_node) = unat (c_azimuth_samples b_scan_config) * unat (c_range_in_bins b_scan_config)"
    "c_azimuth_samples b_scan_config \<noteq> 0" "c_range_in_bins b_scan_config \<noteq> 0"
    by (simp_all add: b_scan_node_defs)
  from b_scan_second_configuration [OF this f] show ?thesis using f by blast
qed

end
