(* ===== verification/Colossus_Publisher.thy ===== *)
theory Colossus_Publisher
  imports Ros_Node
begin

text \<open>
  \<open>ros2/src/nav_ros/src/colossus_publisher.h\<close> and \<open>.cpp\<close>, which publish the azimuths of the radar
  as they are, and \<open>colossus_and_camera_publisher.h\<close> and \<open>.cpp\<close>, which add the latest frame of a
  camera once a rotation.  The time of a frame is an argument.
\<close>

section \<open>Radar data\<close>

definition new_colossus_publisher :: "ros_params \<Rightarrow> rotation_node acted" where
  "new_colossus_publisher ps =
     (new_rotation_node ps, declared [''radar_port''] @
      [Create_publisher ''radar_data/configuration_data'' 1, Create_publisher ''radar_data/fft_data'' 400])"

definition colossus_fft_data_handler :: "fft_record \<Rightarrow> rotation_node \<Rightarrow> rotation_node acted" where
  "colossus_fft_data_handler fft n =
     (let message = fft_message_of fft;
          n1 = (if wrapped (f_azimuth fft) n then turned n else n);
          n2 = n1\<lparr>node_last_azimuth := uint (f_azimuth fft)\<rparr>;
          (n3, acts) = (if parameters_due n2
            then (n2\<lparr>node_rotation_count := 0\<rparr>, [Publish_configuration (node_config_message n2)]) else (n2, []))
      in if \<not> node_rotated_once n3 then (n3, acts) else (n3, acts @ [Publish_fft message]))"

definition colossus_configuration_data_handler :: "configuration_record \<Rightarrow> rotation_node \<Rightarrow> rotation_node acted" where
  "colossus_configuration_data_handler cfg n =
     (n\<lparr>node_azimuth_samples := uint (c_azimuth_samples cfg), node_config_message := configuration_message_of cfg\<rparr>,
      [Publish_configuration (configuration_message_of cfg), Radar_start_fft_data])"

section \<open>Radar and camera data\<close>

text \<open>A frame of the camera: its size, channels and row step, and the memory of its pixels.\<close>

record camera_frame =
  frame_cols :: nat
  frame_rows :: nat
  frame_channels :: nat
  frame_step :: nat
  frame_memory :: "byte list"

record camera_node = rotation_node +
  camera_url :: string
  node_fps :: int
  frame_count :: int
  configuration_sent :: bool
  camera_message :: ros_image

definition no_image_message :: ros_image where
  "no_image_message =
     \<lparr>image_header = \<lparr>stamp_sec = 0, stamp_nanosec = 0, frame_id = []\<rparr>, image_height = 0, image_width = 0,
      image_encoding = [], image_is_bigendian = False, image_step = 0, image_data = []\<rparr>"

definition new_camera_publisher :: "ros_params \<Rightarrow> camera_node acted" where
  "new_camera_publisher ps =
     (rotation_node.extend (new_rotation_node ps)
        \<lparr>camera_url = string_param ps ''camera_url'', node_fps = 0, frame_count = 0, configuration_sent = False,
         camera_message = no_image_message\<rparr>,
      declared [''radar_port''] @ [Declare_parameter ''camera_url'' (Ros_string ''''),
       Create_publisher ''radar_data/configuration_data'' 1, Create_publisher ''radar_data/fft_data'' 400,
       Create_publisher ''camera_data/camera_configuration_data'' 1, Create_publisher ''camera_data/camera_image_data'' 25])"

definition camera_fft_data_handler :: "fft_record \<Rightarrow> camera_node \<Rightarrow> camera_node acted" where
  "camera_fft_data_handler fft n =
     (let message = fft_message_of fft in
      if image_height (camera_message n) \<le> 0 \<or> image_width (camera_message n) \<le> 0 then (n, [])
      else
       (let (n1, acts1) = (if wrapped (f_azimuth fft) n then (turned n, [Publish_camera_image (camera_message n)]) else (n, []));
            n2 = n1\<lparr>node_last_azimuth := uint (f_azimuth fft)\<rparr>;
            (n3, acts) = (if parameters_due n2
              then (n2\<lparr>node_rotation_count := 0\<rparr>, acts1 @ [Publish_configuration (node_config_message n2)]) else (n2, acts1))
        in if \<not> node_rotated_once n3 then (n3, acts) else (n3, acts @ [Publish_fft message])))"

definition camera_configuration_data_handler :: "configuration_record \<Rightarrow> camera_node \<Rightarrow> camera_node acted" where
  "camera_configuration_data_handler cfg n =
     (n\<lparr>node_azimuth_samples := uint (c_azimuth_samples cfg), node_config_message := configuration_message_of cfg,
        node_fps := uint (c_expected_rotation_rate cfg)\<rparr>,
      [Publish_configuration (configuration_message_of cfg), Radar_start_non_contour_fft_data])"

definition camera_image_handler :: "u32 \<Rightarrow> u32 \<Rightarrow> camera_frame \<Rightarrow> camera_node \<Rightarrow> camera_node acted option" where
  "camera_image_handler now_sec now_nanosec img n = do {
     let buffer_length = frame_cols img * frame_rows img * 3;
     vector_buffer \<leftarrow> peek_at 0 buffer_length (frame_memory img);
     let (n1, acts) = (if \<not> configuration_sent n \<or> frame_count n \<ge> node_config_publish_count n
       then (n\<lparr>configuration_sent := True, frame_count := 0\<rparr>,
         [Publish_camera_configuration \<lparr>cc_width = of_nat (frame_cols img), cc_height = of_nat (frame_rows img),
            cc_channels = of_nat (frame_channels img), cc_fps = of_int (node_fps n)\<rparr>])
       else (n, []));
     Some (n1\<lparr>frame_count := frame_count n1 + 1, camera_message :=
       \<lparr>image_header = \<lparr>stamp_sec = now_sec, stamp_nanosec = now_nanosec, frame_id = ''camera_image''\<rparr>,
        image_height = of_nat (frame_rows img), image_width = of_nat (frame_cols img),
        image_encoding = ''8UC3'', image_is_bigendian = True, image_step = of_nat (frame_step img),
        image_data = vector_buffer\<rparr>\<rparr>, acts) }"

definition cleanup_and_shutdown :: "camera_node \<Rightarrow> camera_node acted" where
  "cleanup_and_shutdown n =
     (n, [Radar_stop_fft_data, Radar_clear_configuration_callback, Radar_clear_fft_callback, Radar_stop, Ros_shutdown])"

section \<open>What is published\<close>

definition published :: "ros_action list \<Rightarrow> radar_fft_data_message list" where
  "published acts = concat (map (\<lambda>a. case a of Publish_fft m \<Rightarrow> [m] | _ \<Rightarrow> []) acts)"

definition configurations :: "ros_action list \<Rightarrow> nat" where
  "configurations acts = length (filter (\<lambda>a. case a of Publish_configuration m \<Rightarrow> True | _ \<Rightarrow> False) acts)"

lemma published_simps [simp]:
  "published [] = []" "published (xs @ ys) = published xs @ published ys"
  "published (Publish_fft m # xs) = m # published xs" "published (Publish_configuration c # xs) = published xs"
  by (simp_all add: published_def)

lemma configurations_simps [simp]:
  "configurations [] = 0" "configurations (xs @ ys) = configurations xs + configurations ys"
  "configurations (Publish_fft m # xs) = configurations xs"
  "configurations (Publish_configuration c # xs) = Suc (configurations xs)"
  by (simp_all add: configurations_def)

definition wraps :: "int \<Rightarrow> fft_record list \<Rightarrow> nat" where
  "wraps prev ffts = length (filter (\<lambda>(a, f). uint (f_azimuth f) < a) (zip (prev # map (\<lambda>f. uint (f_azimuth f)) ffts) ffts))"

lemma wraps_simps [simp]:
  "wraps prev [] = 0"
  "wraps prev (f # fs) = (if uint (f_azimuth f) < prev then 1 else 0) + wraps (uint (f_azimuth f)) fs"
  by (simp_all add: wraps_def)

lemma colossus_step:
  assumes "colossus_fft_data_handler fft n = (n', acts)" "0 \<le> node_rotation_count n"
    "node_rotation_count n < node_config_publish_count n"
  shows "node_last_azimuth n' = uint (f_azimuth fft)"
    "node_rotated_once n' = (node_rotated_once n \<or> wrapped (f_azimuth fft) n)"
    "node_config_publish_count n' = node_config_publish_count n"
    "0 \<le> node_rotation_count n'" "node_rotation_count n' < node_config_publish_count n"
    "node_config_publish_count n * int (configurations acts) + node_rotation_count n' =
      node_rotation_count n + (if wrapped (f_azimuth fft) n then 1 else 0)"
    "published acts = (if node_rotated_once n' then [fft_message_of fft] else [])"
  using assms
  by (auto simp: colossus_fft_data_handler_def Let_def turned_def parameters_due_def wrapped_def split: if_splits)

lemma colossus_run:
  assumes "feed (\<lambda>f n. Some (colossus_fft_data_handler f n)) ffts n = Some (n', acts)" "0 \<le> node_rotation_count n"
    "node_rotation_count n < node_config_publish_count n"
  shows "node_rotated_once n \<Longrightarrow> published acts = map fft_message_of ffts"
    "0 \<le> node_rotation_count n' \<and> node_rotation_count n' < node_config_publish_count n"
    "node_config_publish_count n * int (configurations acts) + node_rotation_count n' =
      node_rotation_count n + int (wraps (node_last_azimuth n) ffts)"
proof -
  have "(node_rotated_once n \<longrightarrow> published acts = map fft_message_of ffts) \<and>
    0 \<le> node_rotation_count n' \<and> node_rotation_count n' < node_config_publish_count n \<and>
    node_config_publish_count n * int (configurations acts) + node_rotation_count n' =
      node_rotation_count n + int (wraps (node_last_azimuth n) ffts)"
    using assms
  proof (induction ffts arbitrary: n acts)
    case (Cons f fs)
    obtain n1 a where h: "colossus_fft_data_handler f n = (n1, a)" by (cases "colossus_fft_data_handler f n")
    obtain b where r: "feed (\<lambda>f n. Some (colossus_fft_data_handler f n)) fs n1 = Some (n', b)" "acts = a @ b"
      using Cons.prems(1) h by (auto split: Option.bind_splits)
    note step = colossus_step [OF h Cons.prems(2,3)]
    have ih: "(node_rotated_once n1 \<longrightarrow> published b = map fft_message_of fs) \<and>
        0 \<le> node_rotation_count n' \<and> node_rotation_count n' < node_config_publish_count n1 \<and>
        node_config_publish_count n1 * int (configurations b) + node_rotation_count n' =
          node_rotation_count n1 + int (wraps (node_last_azimuth n1) fs)"
      using Cons.IH [OF r(1)] step by simp
    have "node_config_publish_count n * int (configurations (a @ b)) =
        node_config_publish_count n * int (configurations a) + node_config_publish_count n * int (configurations b)"
      by (simp add: distrib_left)
    then show ?case using ih step r(2) by (auto simp: wrapped_def)
  qed simp
  then show "node_rotated_once n \<Longrightarrow> published acts = map fft_message_of ffts"
    "0 \<le> node_rotation_count n' \<and> node_rotation_count n' < node_config_publish_count n"
    "node_config_publish_count n * int (configurations acts) + node_rotation_count n' =
      node_rotation_count n + int (wraps (node_last_azimuth n) ffts)" by blast+
qed

text \<open>
  C33: once the radar has passed its zero every azimuth is published, in order, and the
  configuration is published again at every fourth wrap of the azimuth: after any azimuths the
  count of configuration messages is the number of wraps divided by 4.
\<close>

theorem colossus_publishes_all:
  assumes "feed (\<lambda>f n. Some (colossus_fft_data_handler f n)) ffts n = Some (n', acts)"
    "node_rotated_once n" "node_rotation_count n = 0" "node_config_publish_count n = 4"
  shows "published acts = map fft_message_of ffts \<and> configurations acts = wraps (node_last_azimuth n) ffts div 4"
proof -
  have "4 * int (configurations acts) + node_rotation_count n' = int (wraps (node_last_azimuth n) ffts)"
    "0 \<le> node_rotation_count n'" "node_rotation_count n' < 4"
    using colossus_run [OF assms(1)] assms(3,4) by auto
  then have "configurations acts = wraps (node_last_azimuth n) ffts div 4" by linarith
  then show ?thesis using colossus_run(1) [OF assms(1)] assms by simp
qed

lemma feed_total: "\<exists>x acts. feed (\<lambda>f n. Some (h f n)) fs n = Some (x, acts)"
proof (induction fs arbitrary: n)
  case (Cons f fs)
  obtain n1 a where "h f n = (n1, a)" by (cases "h f n")
  then show ?case using Cons.IH [of n1] by auto
qed simp

definition turning_node :: rotation_node where
  "turning_node = (new_rotation_node \<lparr>int_param = (\<lambda>p. 0), double_param = (\<lambda>p. f64_of_int 0),
     bool_param = (\<lambda>p. False), string_param = (\<lambda>p. [])\<rparr>)\<lparr>node_rotated_once := True\<rparr>"

definition turning_azimuths :: "fft_record list" where
  "turning_azimuths = map (\<lambda>az. \<lparr>f_angle = f64_of_int 0, f_azimuth = az, f_sweep_counter = 0, f_ntp_seconds = 0,
     f_ntp_split_seconds = 0, f_data = [1, 2, 3]\<rparr>) [7, 3, 9, 4, 5, 1, 0]"

theorem colossus_publishes_all_witness:
  "\<exists>n' acts. feed (\<lambda>f n. Some (colossus_fft_data_handler f n)) turning_azimuths turning_node = Some (n', acts) \<and>
    published acts = map fft_message_of turning_azimuths \<and> configurations acts = 1"
proof -
  obtain n' acts where f: "feed (\<lambda>f n. Some (colossus_fft_data_handler f n)) turning_azimuths turning_node = Some (n', acts)"
    using feed_total [of colossus_fft_data_handler] by blast
  from colossus_publishes_all [OF f] show ?thesis
    using f by (simp add: turning_node_def new_rotation_node_def turning_azimuths_def)
qed

end
