(* ===== verification/Point_Cloud.thy ===== *)
theory Point_Cloud
  imports Ros_Node
begin

text \<open>
  \<open>ros2/src/nav_ros/src/point_cloud_publisher.h\<close> and \<open>.cpp\<close>: the bins of a sector whose power is
  above a threshold, collected over a rotation and published as a point cloud when the azimuth
  wraps around.  The cosine and the sine of a \<open>float\<close> are parameters.
\<close>

section \<open>State\<close>

record cloud_node = sector_node +
  azimuth_values :: "float32 list"
  bin_values :: "float32 list"
  intensity_values :: "float32 list"
  node_bin_size :: float32
  node_rotation_rate :: int

record point_cloud_publisher = cloud_node +
  node_power_threshold :: u16

record trig =
  cosf :: "float32 \<Rightarrow> float32"
  sinf :: "float32 \<Rightarrow> float32"

definition new_cloud_node :: "ros_params \<Rightarrow> cloud_node" where
  "new_cloud_node ps = sector_node.extend (new_sector_node ps)
     \<lparr>azimuth_values = [], bin_values = [], intensity_values = [], node_bin_size = f32_of_int 0,
      node_rotation_rate = 0\<rparr>"

definition new_point_cloud_publisher :: "ros_params \<Rightarrow> point_cloud_publisher acted" where
  "new_point_cloud_publisher ps =
     (cloud_node.extend (new_cloud_node ps) \<lparr>node_power_threshold = u16_of_param ps ''power_threshold''\<rparr>,
      declared (sector_parameters @ [''power_threshold'', ''azimuth_offset'']) @
      [Create_publisher ''radar_data/configuration_data'' 1, Create_publisher ''radar_data/point_cloud'' 4])"

section \<open>The message\<close>

definition m_pi :: float64 where
  "m_pi = f64_of_rat (314159265358979323846 / 100000000000000000000)"

text \<open>\<open>(azimuth * 0.9) * (M_PI / 180.0)\<close> in \<open>double\<close>, stored in a \<open>float\<close>.\<close>

definition current_azimuth :: "float32 \<Rightarrow> float32" where
  "current_azimuth az =
     f32_of_f64 (f64_mul (f64_mul (f64_of_f32 az) (f64_of_rat (9 / 10))) (f64_div m_pi (f64_of_int 180)))"

definition floats_to_uint8_t_vector :: "float32 \<Rightarrow> float32 \<Rightarrow> float32 \<Rightarrow> float32 \<Rightarrow> byte list" where
  "floats_to_uint8_t_vector x y z i = mem32 (bits32 x) @ mem32 (bits32 y) @ mem32 (bits32 z) @ mem32 (bits32 i)"

definition point_bytes :: "trig \<Rightarrow> float32 \<Rightarrow> float32 \<Rightarrow> float32 \<Rightarrow> byte list" where
  "point_bytes lib az bin i =
     floats_to_uint8_t_vector (f32_mul bin (cosf lib (current_azimuth az)))
       (f32_mul bin (sinf lib (current_azimuth az))) (f32_of_int 0) i"

text \<open>The loop reads the three vectors at the same index, up to the size of the intensities.\<close>

fun cloud_bytes :: "trig \<Rightarrow> float32 list \<Rightarrow> float32 list \<Rightarrow> float32 list \<Rightarrow> byte list option" where
  "cloud_bytes lib azs bins [] = Some []"
| "cloud_bytes lib (az # azs) (bin # bins) (i # is) = do {
     rest \<leftarrow> cloud_bytes lib azs bins is;
     Some (point_bytes lib az bin i @ rest) }"
| "cloud_bytes lib azs bins is = None"

definition cloud_field :: "string \<Rightarrow> nat \<Rightarrow> nat \<Rightarrow> point_field" where
  "cloud_field name k count =
     \<lparr>field_name = name, field_offset = of_nat (k * 4), field_datatype = 7, field_count = of_nat count\<rparr>"

definition cloud_message ::
    "trig \<Rightarrow> u32 \<Rightarrow> u32 \<Rightarrow> float32 list \<Rightarrow> float32 list \<Rightarrow> float32 list \<Rightarrow> point_cloud option" where
  "cloud_message lib sec split azs bins is = do {
     bytes \<leftarrow> cloud_bytes lib azs bins is;
     let width = of_nat (length is);
     let step = 4 * 4;
     Some
       \<lparr>cloud_header = \<lparr>stamp_sec = sec, stamp_nanosec = split, frame_id = ''point_cloud''\<rparr>,
        cloud_height = 1, cloud_width = width,
        cloud_fields =
          [cloud_field ''x'' 0 (length is), cloud_field ''y'' 1 (length is),
           cloud_field ''z'' 2 (length is), cloud_field ''intensity'' 3 (length is)],
        cloud_is_bigendian = False, cloud_point_step = step, cloud_row_step = step * width,
        cloud_data = bytes, cloud_is_dense = True\<rparr> }"

definition publish_point_cloud :: "trig \<Rightarrow> fft_record \<Rightarrow> 'a cloud_node_scheme \<Rightarrow> ros_action option" where
  "publish_point_cloud lib fft n =
     map_option Publish_cloud
       (cloud_message lib (f_ntp_seconds fft) (f_ntp_split_seconds fft) (azimuth_values n) (bin_values n) (intensity_values n))"

section \<open>The handlers\<close>

definition push_point :: "int \<Rightarrow> int \<Rightarrow> float32 \<Rightarrow> 'a cloud_node_scheme \<Rightarrow> 'a cloud_node_scheme" where
  "push_point az bin i n =
     n\<lparr>azimuth_values := azimuth_values n @ [f32_of_int az], bin_values := bin_values n @ [f32_of_int bin],
       intensity_values := intensity_values n @ [i]\<rparr>"

definition clear_points :: "'a cloud_node_scheme \<Rightarrow> 'a cloud_node_scheme" where
  "clear_points n = n\<lparr>bin_values := [], azimuth_values := [], intensity_values := []\<rparr>"

text \<open>The loop over the bins from the given one on.\<close>

function collect_bins :: "int \<Rightarrow> byte list \<Rightarrow> nat \<Rightarrow> point_cloud_publisher \<Rightarrow> point_cloud_publisher" where
  "collect_bins adj bytes bin n =
     (if bin < length bytes then
        collect_bins adj bytes (bin + 1)
          (if unat (node_start_bin n) \<le> bin \<and> bin < unat (node_end_bin n) then
             (if uint (bytes ! bin) > uint (node_power_threshold n)
              then push_point adj (int bin) (f32_of_int (uint (bytes ! bin))) n else n)
           else n)
      else n)"
  by pat_completeness auto

termination
  by (relation "measure (\<lambda>(adj, bytes, bin, n). length bytes - bin)") auto

declare collect_bins.simps [simp del]

definition check_power_threshold :: "ros_params \<Rightarrow> point_cloud_publisher acted \<Rightarrow> point_cloud_publisher acted" where
  "check_power_threshold ps = (\<lambda>(n, acts).
     let t = int_of_param ps ''power_threshold'' in
     if t < 0 \<or> t > 255
     then (n, acts @ [Set_parameter ''power_threshold'' (Ros_int (uint (node_power_threshold n)))])
     else (n\<lparr>node_power_threshold := word_of_int t\<rparr>, acts))"

definition cloud_fft_data_handler ::
    "trig \<Rightarrow> ros_params \<Rightarrow> fft_record \<Rightarrow> point_cloud_publisher \<Rightarrow> point_cloud_publisher acted option" where
  "cloud_fft_data_handler lib ps fft n = do {
     idx \<leftarrow> azimuth_index (f_angle fft) (node_azimuth_samples n);
     let adj = adjusted_azimuth_index idx n;
     let n1 = (if in_sector idx n then collect_bins adj (f_data fft) (unat (node_start_bin n)) n else n);
     (n2, acts) \<leftarrow> (if wrapped (f_azimuth fft) n1 then do {
         cloud \<leftarrow> publish_point_cloud lib fft (turned n1);
         Some (clear_points (turned n1), [cloud]) }
       else Some (n1, []));
     let n3 = n2\<lparr>node_last_azimuth := uint (f_azimuth fft)\<rparr>;
     Some (if parameters_due n3 then
         let (n4, acts4) = check_power_threshold ps (check_sector ps (n3, acts)) in
         (n4\<lparr>node_rotation_count := 0\<rparr>, acts4 @ [Publish_configuration (node_config_message n4)])
       else (n3, acts)) }"

definition cloud_configuration_data_handler ::
    "configuration_record \<Rightarrow> point_cloud_publisher \<Rightarrow> point_cloud_publisher acted" where
  "cloud_configuration_data_handler cfg n =
     (n\<lparr>node_azimuth_samples := uint (c_azimuth_samples cfg), node_bin_size := f32_of_f64 (c_bin_size cfg),
        node_end_bin := c_range_in_bins cfg, node_range_in_bins := uint (c_range_in_bins cfg),
        node_rotation_rate := uint (c_expected_rotation_rate cfg),
        node_config_message := configuration_message_of cfg\<rparr>,
      [Publish_configuration (configuration_message_of cfg), Radar_start_fft_data])"

section \<open>A rotation\<close>

text \<open>The points that an azimuth contributes, and a node that has collected some points.\<close>

type_synonym point = "float32 \<times> float32 \<times> float32"

definition azimuth_bins :: "point_cloud_publisher \<Rightarrow> byte list \<Rightarrow> nat \<Rightarrow> nat list" where
  "azimuth_bins n bytes first =
     filter (\<lambda>b. b < unat (node_end_bin n) \<and> uint (bytes ! b) > uint (node_power_threshold n)) [first..<length bytes]"

definition bin_points :: "int \<Rightarrow> byte list \<Rightarrow> nat list \<Rightarrow> point list" where
  "bin_points adj bytes = map (\<lambda>b. (f32_of_int adj, f32_of_int (int b), f32_of_int (uint (bytes ! b))))"

definition azimuth_points :: "point_cloud_publisher \<Rightarrow> fft_record \<Rightarrow> point list" where
  "azimuth_points n fft =
     (case azimuth_index (f_angle fft) (node_azimuth_samples n) of
        None \<Rightarrow> []
      | Some idx \<Rightarrow>
          if in_sector idx n
          then bin_points (adjusted_azimuth_index idx n) (f_data fft) (azimuth_bins n (f_data fft) (unat (node_start_bin n)))
          else [])"

definition with_points :: "point list \<Rightarrow> 'a cloud_node_scheme \<Rightarrow> 'a cloud_node_scheme" where
  "with_points pts n =
     n\<lparr>azimuth_values := map fst pts, bin_values := map (fst \<circ> snd) pts, intensity_values := map (snd \<circ> snd) pts\<rparr>"

lemma with_points_simps [simp]:
  "azimuth_values (with_points pts n) = map fst pts" "bin_values (with_points pts n) = map (fst \<circ> snd) pts"
  "intensity_values (with_points pts n) = map (snd \<circ> snd) pts"
  "node_last_azimuth (with_points pts n) = node_last_azimuth n"
  "node_azimuth_samples (with_points pts n) = node_azimuth_samples n"
  "node_start_bin (with_points pts n) = node_start_bin n" "node_end_bin (with_points pts n) = node_end_bin n"
  "node_rotation_count (with_points pts n) = node_rotation_count n"
  "node_config_publish_count (with_points pts n) = node_config_publish_count n"
  "in_sector idx (with_points pts n) = in_sector idx n"
  "adjusted_azimuth_index idx (with_points pts n) = adjusted_azimuth_index idx n"
  "wrapped az (with_points pts n) = wrapped az n"
  "parameters_due (with_points pts n) = parameters_due n"
  "turned (with_points pts n) = with_points pts (turned n)"
  "(with_points pts n)\<lparr>node_last_azimuth := a\<rparr> = with_points pts (n\<lparr>node_last_azimuth := a\<rparr>)"
  "clear_points (with_points pts n) = with_points [] n"
  "push_point adj b i (with_points pts n) = with_points (pts @ [(f32_of_int adj, f32_of_int b, i)]) n"
  by (simp_all add: with_points_def in_sector_def adjusted_azimuth_index_def wrapped_def parameters_due_def
      turned_def clear_points_def push_point_def Let_def)

lemma with_points_threshold [simp]: "node_power_threshold (with_points pts n) = node_power_threshold n"
  by (simp add: with_points_def)

lemma at_azimuth [simp]:
  "azimuth_points (n\<lparr>node_last_azimuth := a\<rparr>) = azimuth_points n"
  "azimuth_points (turned n) = azimuth_points n"
  by (rule ext, simp add: azimuth_points_def azimuth_bins_def in_sector_def adjusted_azimuth_index_def turned_def
      Let_def split: option.split)+

lemma collect_bins_points:
  assumes "unat (node_start_bin n) \<le> b"
  shows "collect_bins adj bytes b (with_points pts n) =
    with_points (pts @ bin_points adj bytes (azimuth_bins n bytes b)) n"
  using assms
proof (induction "length bytes - b" arbitrary: b pts)
  case 0
  then show ?case by (subst collect_bins.simps) (simp add: azimuth_bins_def bin_points_def)
next
  case (Suc k)
  then have b: "b < length bytes" "[b..<length bytes] = b # [Suc b..<length bytes]"
    by (simp_all add: upt_conv_Cons)
  show ?case
    using Suc.hyps(1) [of "Suc b"] Suc.hyps(2) Suc.prems b
    by (subst collect_bins.simps) (simp add: azimuth_bins_def bin_points_def)
qed

lemma cloud_bytes_points:
  "cloud_bytes lib (map fst pts) (map (fst \<circ> snd) pts) (map (snd \<circ> snd) pts) =
    Some (concat (map (\<lambda>(az, bin, i). point_bytes lib az bin i) pts))"
  by (induction pts) auto

lemma handler_collects:
  assumes "azimuth_index (f_angle fft) (node_azimuth_samples n) \<noteq> None" "\<not> wrapped (f_azimuth fft) n" "\<not> parameters_due n"
  shows "cloud_fft_data_handler lib ps fft (with_points pts n) =
    Some (with_points (pts @ azimuth_points n fft) (n\<lparr>node_last_azimuth := uint (f_azimuth fft)\<rparr>), [])"
proof -
  have due: "\<not> parameters_due (n\<lparr>node_last_azimuth := a\<rparr>)" for a using assms(3) by (simp add: parameters_due_def)
  obtain idx where "azimuth_index (f_angle fft) (node_azimuth_samples n) = Some idx" using assms(1) by blast
  then show ?thesis
    using assms(2) due
    by (auto simp: cloud_fft_data_handler_def azimuth_points_def collect_bins_points Let_def)
qed

lemma checks_keep_points:
  "with_points [] (fst x) = fst x \<Longrightarrow> with_points [] (fst (check_sector ps x)) = fst (check_sector ps x)"
  for x :: "'a cloud_node_scheme acted"
proof -
  have step: "with_points [] (fst (check_azimuth_offset ps y)) = fst (check_azimuth_offset ps y) \<and>
      with_points [] (fst (check_start_azimuth ps y)) = fst (check_start_azimuth ps y) \<and>
      with_points [] (fst (check_end_azimuth ps y)) = fst (check_end_azimuth ps y) \<and>
      with_points [] (fst (check_start_bin ps y)) = fst (check_start_bin ps y) \<and>
      with_points [] (fst (check_end_bin ps y)) = fst (check_end_bin ps y)"
    if "with_points [] (fst y) = fst y" for y :: "'a cloud_node_scheme acted"
    using that by (cases y; cases "fst y") (simp add: check_defs with_points_def Let_def)
  show "with_points [] (fst x) = fst x \<Longrightarrow> with_points [] (fst (check_sector ps x)) = fst (check_sector ps x)"
    unfolding check_sector_def using step by blast
qed

lemma threshold_keeps_points:
  "with_points [] (fst x) = fst x \<Longrightarrow> with_points [] (fst (check_power_threshold ps x)) = fst (check_power_threshold ps x)"
  by (cases x; cases "fst x") (simp add: check_power_threshold_def with_points_def Let_def)

lemma threshold_actions: "\<exists>r. snd (check_power_threshold ps x) = snd x @ r"
  by (cases x; simp add: check_power_threshold_def Let_def)

lemma handler_publishes:
  fixes pts :: "point list"
  assumes "azimuth_index (f_angle fft) (node_azimuth_samples n) \<noteq> None" "wrapped (f_azimuth fft) n"
  defines "all \<equiv> pts @ azimuth_points n fft"
  shows "\<exists>n' c rest. cloud_fft_data_handler lib ps fft (with_points pts n) = Some (with_points [] n', Publish_cloud c # rest) \<and>
    cloud_message lib (f_ntp_seconds fft) (f_ntp_split_seconds fft) (map fst all) (map (fst \<circ> snd) all) (map (snd \<circ> snd) all) = Some c"
proof -
  obtain idx where idx: "azimuth_index (f_angle fft) (node_azimuth_samples n) = Some idx" using assms(1) by blast
  obtain c where c: "cloud_message lib (f_ntp_seconds fft) (f_ntp_split_seconds fft) (map fst all)
      (map (fst \<circ> snd) all) (map (snd \<circ> snd) all) = Some c"
    unfolding cloud_message_def cloud_bytes_points by (simp add: Let_def)
  let ?n3 = "with_points [] ((turned n)\<lparr>node_last_azimuth := uint (f_azimuth fft)\<rparr>)"
  let ?x = "check_power_threshold ps (check_sector ps (?n3, [Publish_cloud c]))"
  have n1: "(if in_sector idx (with_points pts n)
       then collect_bins (adjusted_azimuth_index idx (with_points pts n)) (f_data fft)
         (unat (node_start_bin (with_points pts n))) (with_points pts n)
       else with_points pts n) = with_points all n"
    by (simp add: collect_bins_points all_def azimuth_points_def idx)
  have h: "cloud_fft_data_handler lib ps fft (with_points pts n) =
      Some (if parameters_due ?n3 then ((fst ?x)\<lparr>node_rotation_count := 0\<rparr>, snd ?x @ [Publish_configuration (node_config_message (fst ?x))])
        else (?n3, [Publish_cloud c]))"
    unfolding cloud_fft_data_handler_def with_points_simps(5) idx bind.bind_lunit Let_def n1
    using assms(2) c by (simp add: publish_point_cloud_def split_beta)
  show ?thesis
  proof (cases "parameters_due ?n3")
    case True
    define y where "y = check_sector ps (?n3, [Publish_cloud c])"
    define x where "x = check_power_threshold ps y"
    have "with_points [] (fst y) = fst y" unfolding y_def by (rule checks_keep_points) (simp add: with_points_def)
    then have keep: "with_points [] (fst x) = fst x" unfolding x_def by (rule threshold_keeps_points)
    have "(with_points [] m)\<lparr>node_rotation_count := 0\<rparr> = with_points [] (m\<lparr>node_rotation_count := 0\<rparr>)"
      for m :: point_cloud_publisher by (simp add: with_points_def)
    then have clear: "(fst x)\<lparr>node_rotation_count := 0\<rparr> = with_points [] ((fst x)\<lparr>node_rotation_count := 0\<rparr>)"
      using keep by metis
    obtain r1 where "snd y = [Publish_cloud c] @ r1" using check_sector_actions unfolding y_def by (metis snd_conv)
    moreover obtain r2 where "snd x = snd y @ r2" using threshold_actions unfolding x_def by blast
    ultimately have "snd x = Publish_cloud c # (r1 @ r2)" by simp
    moreover have "cloud_fft_data_handler lib ps fft (with_points pts n) =
        Some ((fst x)\<lparr>node_rotation_count := 0\<rparr>, snd x @ [Publish_configuration (node_config_message (fst x))])"
      unfolding h x_def y_def using True by (simp only: if_True)
    ultimately have "cloud_fft_data_handler lib ps fft (with_points pts n) =
        Some (with_points [] ((fst x)\<lparr>node_rotation_count := 0\<rparr>),
          Publish_cloud c # (r1 @ r2 @ [Publish_configuration (node_config_message (fst x))]))"
      by (subst clear [symmetric]) (simp only: append_Cons append_assoc)
    then show ?thesis using c by blast
  next
    case False
    then show ?thesis using h c by auto
  qed
qed

text \<open>
  C4: over a rotation, from an empty node to the azimuth at which the angle wraps around, exactly
  one cloud is published; its points are those of the sector and of the bins between the limits
  whose power is above the threshold, in the order of their arrival, the wrapping azimuth
  included; its data has 16 bytes for each; and the node is empty again.
\<close>

theorem point_cloud_of_rotation:
  assumes "ffts \<noteq> []" "sorted (node_last_azimuth n # map (\<lambda>f. uint (f_azimuth f)) ffts)"
    "uint (f_azimuth w) < uint (f_azimuth (last ffts))" "\<not> parameters_due n"
    "\<forall>f \<in> set (w # ffts). azimuth_index (f_angle f) (node_azimuth_samples n) \<noteq> None"
    "all = concat (map (azimuth_points n) (ffts @ [w]))"
  shows "\<exists>n' c rest. feed (cloud_fft_data_handler lib ps) (ffts @ [w]) (with_points [] n) =
      Some (with_points [] n', Publish_cloud c # rest) \<and>
    cloud_data c = concat (map (\<lambda>(az, bin, i). point_bytes lib az bin i) all) \<and>
    length (cloud_data c) = 16 * length all \<and> cloud_width c = of_nat (length all) \<and>
    cloud_header c = \<lparr>stamp_sec = f_ntp_seconds w, stamp_nanosec = f_ntp_split_seconds w, frame_id = ''point_cloud''\<rparr>"
proof -
  have collect: "\<lbrakk>fs \<noteq> []; sorted (node_last_azimuth m # map (\<lambda>f. uint (f_azimuth f)) fs); \<not> parameters_due m;
      \<forall>f \<in> set fs. azimuth_index (f_angle f) (node_azimuth_samples m) \<noteq> None\<rbrakk> \<Longrightarrow>
    feed (cloud_fft_data_handler lib ps) fs (with_points pts m) =
      Some (with_points (pts @ concat (map (azimuth_points m) fs)) (m\<lparr>node_last_azimuth := uint (f_azimuth (last fs))\<rparr>), [])"
    for fs m pts
  proof (induction fs arbitrary: m pts)
    case (Cons f fs)
    have step: "cloud_fft_data_handler lib ps f (with_points pts m) =
        Some (with_points (pts @ azimuth_points m f) (m\<lparr>node_last_azimuth := uint (f_azimuth f)\<rparr>), [])"
      using Cons.prems by (intro handler_collects) (auto simp: wrapped_def)
    show ?case
    proof (cases "fs = []")
      case False
      then show ?thesis
        using Cons.IH [of "m\<lparr>node_last_azimuth := uint (f_azimuth f)\<rparr>" "pts @ azimuth_points m f"] Cons.prems step
        by (simp add: parameters_due_def)
    qed (simp add: step)
  qed simp
  have append: "feed h (xs @ ys) m = do { (m1, a) \<leftarrow> feed h xs m; (m2, b) \<leftarrow> feed h ys m1; Some (m2, a @ b) }"
    for h :: "fft_record \<Rightarrow> point_cloud_publisher \<Rightarrow> point_cloud_publisher acted option" and xs ys m
    by (induction xs arbitrary: m) (auto split: Option.bind_splits)
  let ?m = "n\<lparr>node_last_azimuth := uint (f_azimuth (last ffts))\<rparr>"
  have "wrapped (f_azimuth w) ?m" using assms(3) by (simp add: wrapped_def)
  then obtain n' c rest where w: "cloud_fft_data_handler lib ps w (with_points (concat (map (azimuth_points n) ffts)) ?m) =
        Some (with_points [] n', Publish_cloud c # rest)"
      "cloud_message lib (f_ntp_seconds w) (f_ntp_split_seconds w) (map fst all) (map (fst \<circ> snd) all) (map (snd \<circ> snd) all) = Some c"
    using handler_publishes [of w ?m lib ps "concat (map (azimuth_points n) ffts)"] assms(5,6) by auto
  have "feed (cloud_fft_data_handler lib ps) (ffts @ [w]) (with_points [] n) = Some (with_points [] n', Publish_cloud c # rest)"
    unfolding append using collect [of ffts n "[]"] assms(1,2,4,5) w(1) by simp
  moreover have "length (concat (map (\<lambda>(az, bin, i). point_bytes lib az bin i) all)) = 16 * length all"
    by (induction all) (auto simp: point_bytes_def floats_to_uint8_t_vector_def length_mem)
  ultimately show ?thesis
    using w(2) by (auto simp: cloud_message_def cloud_bytes_points Let_def)
qed

definition sample_node :: point_cloud_publisher where
  "sample_node = (fst (new_point_cloud_publisher
     \<lparr>int_param = (\<lambda>p. if p = ''power_threshold'' then 80 else if p = ''end_azimuth'' then 400 else 0),
      double_param = (\<lambda>p. f64_of_int 0), bool_param = (\<lambda>p. False), string_param = (\<lambda>p. [])\<rparr>))
     \<lparr>node_azimuth_samples := 400, node_end_bin := 3, node_range_in_bins := 3\<rparr>"

definition sample_fft :: "u16 \<Rightarrow> byte list \<Rightarrow> fft_record" where
  "sample_fft az bytes =
     \<lparr>f_angle = azimuth_angle az 5600, f_azimuth = az, f_sweep_counter = 0, f_ntp_seconds = 7,
      f_ntp_split_seconds = 8, f_data = bytes\<rparr>"

lemma sample_node_simps:
  "node_azimuth_samples sample_node = 400" "node_last_azimuth sample_node = 0"
  "\<not> parameters_due sample_node"
  by (simp_all add: sample_node_def new_point_cloud_publisher_def new_cloud_node_def new_sector_node_def
      new_rotation_node_def rotation_node.defs sector_node.defs cloud_node.defs parameters_due_def)

theorem point_cloud_of_rotation_witness:
  "\<exists>n' c rest.
    feed (cloud_fft_data_handler \<lparr>cosf = id, sinf = id\<rparr>
        \<lparr>int_param = (\<lambda>p. 0), double_param = (\<lambda>p. f64_of_int 0), bool_param = (\<lambda>p. False), string_param = (\<lambda>p. [])\<rparr>)
      ([sample_fft 28 [10, 90, 20]] @ [sample_fft 0 [10, 20, 100]]) (with_points [] sample_node) =
      Some (with_points [] n', Publish_cloud c # rest) \<and>
    cloud_data c = concat (map (\<lambda>(az, bin, i). point_bytes \<lparr>cosf = id, sinf = id\<rparr> az bin i)
      (concat (map (azimuth_points sample_node) ([sample_fft 28 [10, 90, 20]] @ [sample_fft 0 [10, 20, 100]]))))"
  using point_cloud_of_rotation [of "[sample_fft 28 [10, 90, 20]]" sample_node "sample_fft 0 [10, 20, 100]", OF _ _ _ _ _ refl,
      of "\<lparr>cosf = id, sinf = id\<rparr>"
         "\<lparr>int_param = (\<lambda>p. 0), double_param = (\<lambda>p. f64_of_int 0), bool_param = (\<lambda>p. False), string_param = (\<lambda>p. [])\<rparr>"]
  by (fastforce simp: sample_node_simps sample_fft_def azimuth_indices_14)

end
