(* ===== verification/Navigation_Cloud.thy ===== *)
theory Navigation_Cloud
  imports Point_Cloud
begin

text \<open>
  \<open>ros2/src/nav_ros/src/navigation_mode_point_cloud_publisher.h\<close> and \<open>.cpp\<close>: a point cloud of the
  peaks that the radar finds, or that a local peak finder finds in the FFT data.  The peak finder
  calls back with its targets, so that one FFT data record runs through both.
\<close>

section \<open>State\<close>

record nav_cloud_publisher = cloud_node +
  nav_bins_to_operate_on :: u16
  nav_min_bin :: u16
  nav_power_threshold :: float64
  nav_max_peaks :: u32
  process_locally :: bool
  nav_config_data :: "(configuration_record \<times> float32) option"
  nav_peak_finder :: peak_finder

definition new_nav_cloud_publisher :: "ros_params \<Rightarrow> peak_finder \<Rightarrow> nav_cloud_publisher acted" where
  "new_nav_cloud_publisher ps pf =
     (cloud_node.extend (new_cloud_node ps)
        \<lparr>nav_bins_to_operate_on = u16_of_param ps ''bins_to_operate_on'', nav_min_bin = u16_of_param ps ''min_bin'',
         nav_power_threshold = double_param ps ''power_threshold'',
         nav_max_peaks = u32_of_param ps ''max_peaks_per_azimuth'', process_locally = bool_param ps ''process_locally'',
         nav_config_data = None, nav_peak_finder = pf\<rparr>,
      declared (sector_parameters @ [''azimuth_offset'', ''bins_to_operate_on'', ''min_bin'']) @
      [Declare_parameter ''power_threshold'' (Ros_double (f64_of_int 0)), Declare_parameter ''max_peaks_per_azimuth'' (Ros_int 0),
       Declare_parameter ''process_locally'' (Ros_bool False),
       Create_publisher ''radar_data/configuration_data'' 1, Create_publisher ''radar_data/point_cloud'' 4])"

section \<open>Configuration of the search\<close>

definition update_navigation_config :: "nav_cloud_publisher acted \<Rightarrow> nav_cloud_publisher acted" where
  "update_navigation_config = (\<lambda>(n, acts). (n, acts @ [Radar_set_navigation_configuration
     \<lparr>s_bins_to_operate_on = nav_bins_to_operate_on n, s_min_bin = nav_min_bin n,
      s_navigation_threshold = f32_of_f64 (nav_power_threshold n), s_max_peaks_per_azimuth = nav_max_peaks n\<rparr>]))"

text \<open>
  The number of bins is cut to 8 bits.  Without a configuration the peak finder is given null
  pointers, that is, none.
\<close>

definition update_local_navigation_config :: "nav_cloud_publisher \<Rightarrow> nav_cloud_publisher" where
  "update_local_navigation_config n =
     (let set = (\<lambda>cfg metres. configure cfg metres (val64 (nav_power_threshold n)) (unat (nav_bins_to_operate_on n) mod 256)
                (unat (nav_min_bin n)) Off 10 (unat (nav_max_peaks n)) (nav_peak_finder n))
      in n\<lparr>nav_peak_finder := (case nav_config_data n of
            Some (cfg, metres) \<Rightarrow> set cfg metres
          | None \<Rightarrow> (set \<lparr>c_azimuth_samples = 0, c_encoder_size = 0, c_bin_size = f64_of_int 0, c_range_in_bins = 0,
               c_expected_rotation_rate = 0, c_range_gain = f32_of_int 0, c_range_offset = f32_of_int 0\<rparr> (f32_of_int 0))
              \<lparr>pf_configuration := None\<rparr>)\<rparr>)"

section \<open>The check of the parameters\<close>

text \<open>The check of the last bin, which stores the parameter of the last azimuth.\<close>

definition check_nav_end_bin :: "ros_params \<Rightarrow> nav_cloud_publisher acted \<Rightarrow> nav_cloud_publisher acted" where
  "check_nav_end_bin ps = (\<lambda>(n, acts).
     let t = int_of_param ps ''end_bin''; temp_end_azimuth = int_of_param ps ''end_azimuth'' in
     if t < 0 \<or> t > node_range_in_bins n
     then (n, acts @ [Set_parameter ''end_bin'' (Ros_int (node_range_in_bins n))])
     else (n\<lparr>node_end_bin := word_of_int temp_end_azimuth\<rparr>, acts))"

definition check_nav_sector :: "ros_params \<Rightarrow> nav_cloud_publisher acted \<Rightarrow> nav_cloud_publisher acted" where
  "check_nav_sector ps x =
     check_nav_end_bin ps (check_start_bin ps (check_end_azimuth ps (check_start_azimuth ps (check_azimuth_offset ps x))))"

text \<open>
  The parameters of the search: each check also tells whether the parameter differs from the
  member, and so whether the radar or the peak finder has to be configured again.
\<close>

definition check_bins_to_operate_on :: "ros_params \<Rightarrow> nav_cloud_publisher acted \<Rightarrow> bool \<times> nav_cloud_publisher acted" where
  "check_bins_to_operate_on ps = (\<lambda>(n, acts).
     if int_param ps ''bins_to_operate_on'' \<noteq> uint (nav_bins_to_operate_on n) then
       (let t = int_of_param ps ''bins_to_operate_on'' in
        (True, if t < 0 \<or> t > 10
          then (n, acts @ [Set_parameter ''bins_to_operate_on'' (Ros_int (uint (nav_bins_to_operate_on n)))])
          else (n\<lparr>nav_bins_to_operate_on := word_of_int t\<rparr>, acts)))
     else (False, n, acts))"

definition check_min_bin :: "ros_params \<Rightarrow> nav_cloud_publisher acted \<Rightarrow> bool \<times> nav_cloud_publisher acted" where
  "check_min_bin ps = (\<lambda>(n, acts).
     if int_param ps ''min_bin'' \<noteq> uint (nav_min_bin n) then
       (let t = int_of_param ps ''min_bin'' in
        (True, if t < 0 \<or> t > node_range_in_bins n
          then (n, acts @ [Set_parameter ''min_bin'' (Ros_int (uint (nav_min_bin n)))])
          else (n\<lparr>nav_min_bin := word_of_int t\<rparr>, acts)))
     else (False, n, acts))"

definition check_nav_power_threshold :: "ros_params \<Rightarrow> nav_cloud_publisher acted \<Rightarrow> bool \<times> nav_cloud_publisher acted" where
  "check_nav_power_threshold ps = (\<lambda>(n, acts).
     let t = double_param ps ''power_threshold'' in
     if \<not> (f64_leq t (nav_power_threshold n) \<and> f64_leq (nav_power_threshold n) t) then
       (True, if f64_less t (f64_of_int 0) \<or> f64_less (f64_of_int 255) t
          then (n, acts @ [Set_parameter ''power_threshold'' (Ros_double (f64_of_int (255 div 4)))])
          else (n\<lparr>nav_power_threshold := t\<rparr>, acts))
     else (False, n, acts))"

definition check_max_peaks :: "ros_params \<Rightarrow> nav_cloud_publisher acted \<Rightarrow> bool \<times> nav_cloud_publisher acted" where
  "check_max_peaks ps = (\<lambda>(n, acts).
     if int_param ps ''max_peaks_per_azimuth'' \<noteq> uint (nav_max_peaks n) then
       (let t = int_of_param ps ''max_peaks_per_azimuth'' in
        (True, if t < 0 \<or> t > 5
          then (n, acts @ [Set_parameter ''max_peaks_per_azimuth'' (Ros_int 5)])
          else (n\<lparr>nav_max_peaks := word_of_int t\<rparr>, acts)))
     else (False, n, acts))"

definition check_config_publish :: "ros_params \<Rightarrow> nav_cloud_publisher acted \<Rightarrow> nav_cloud_publisher acted" where
  "check_config_publish ps x =
     (if \<not> parameters_due (fst x) then x
      else
       (let (update1, x1) = check_bins_to_operate_on ps (check_nav_sector ps x);
            (update2, x2) = check_min_bin ps x1;
            (update3, x3) = check_nav_power_threshold ps x2;
            (update4, n, acts) = check_max_peaks ps x3;
            n1 = n\<lparr>node_rotation_count := 0\<rparr>;
            acts1 = acts @ [Publish_configuration (node_config_message n)]
        in if update1 \<or> update2 \<or> update3 \<or> update4 then
             (if process_locally n1 then (update_local_navigation_config n1, acts1)
              else (let (n2, acts2) = update_navigation_config (n1, acts1) in
                    (n2, acts2 @ [Radar_request_navigation_configuration])))
           else (n1, acts1)))"

section \<open>The handlers\<close>

text \<open>One peak: its bin is the distance divided by the bin size, cut to an \<open>int\<close>.\<close>

definition push_peak :: "int \<Rightarrow> float32 \<times> u16 \<Rightarrow> nav_cloud_publisher \<Rightarrow> nav_cloud_publisher option" where
  "push_peak adj peak n = do {
     bin \<leftarrow> fp_to_int (- (2 ^ 31)) (2 ^ 31 - 1) (val32 (f32_div (fst peak) (node_bin_size n)));
     let target_power = f32_of_f64 (f64_div (f64_of_int (uint (snd peak))) (f64_of_int 10));
     Some (if uint (node_start_bin n) \<le> bin \<and> bin < uint (node_end_bin n)
           then push_point adj bin target_power n else n) }"

fun push_peaks :: "int \<Rightarrow> (float32 \<times> u16) list \<Rightarrow> nav_cloud_publisher \<Rightarrow> nav_cloud_publisher option" where
  "push_peaks adj [] n = Some n"
| "push_peaks adj (p # ps) n = do { n' \<leftarrow> push_peak adj p n; push_peaks adj ps n' }"

definition nav_publish_point_cloud :: "trig \<Rightarrow> navigation_record \<Rightarrow> nav_cloud_publisher \<Rightarrow> ros_action option" where
  "nav_publish_point_cloud lib nav n =
     map_option Publish_cloud
       (cloud_message lib (n_ntp_seconds nav) (n_ntp_split_seconds nav) (azimuth_values n) (bin_values n) (intensity_values n))"

definition navigation_data_handler ::
    "trig \<Rightarrow> ros_params \<Rightarrow> navigation_record \<Rightarrow> nav_cloud_publisher \<Rightarrow> nav_cloud_publisher acted option" where
  "navigation_data_handler lib ps nav n = do {
     idx \<leftarrow> azimuth_index (n_angle nav) (node_azimuth_samples n);
     let adj = adjusted_azimuth_index idx n;
     n1 \<leftarrow> (if in_sector idx n then push_peaks adj (n_peaks nav) n else Some n);
     (n2, acts) \<leftarrow> (if wrapped (n_azimuth nav) n1 then do {
         cloud \<leftarrow> nav_publish_point_cloud lib nav (turned n1);
         Some (clear_points (turned n1), [cloud]) }
       else Some (n1, []));
     Some (check_config_publish ps (n2\<lparr>node_last_azimuth := uint (n_azimuth nav)\<rparr>, acts)) }"

text \<open>A power is stored in tenths, as 16 bits; a power that does not fit is undefined behaviour.\<close>

fun target_peaks :: "(fp \<times> fp) list \<Rightarrow> (float32 \<times> u16) list option" where
  "target_peaks [] = Some []"
| "target_peaks ((r, pw) # ts) = do {
     p \<leftarrow> fp_to_int 0 65535 (fp_mul b64 pw (Fin 10));
     rest \<leftarrow> target_peaks ts;
     Some ((mk32 (fp_cast b32 r), word_of_int p) # rest) }"

definition target_data_handler ::
    "trig \<Rightarrow> ros_params \<Rightarrow> azimuth_target \<Rightarrow> nav_cloud_publisher \<Rightarrow> nav_cloud_publisher acted option" where
  "target_data_handler lib ps t n = do {
     peaks \<leftarrow> target_peaks (targets t);
     navigation_data_handler lib ps
       \<lparr>n_angle = t_angle t, n_azimuth = t_azimuth t, n_ntp_seconds = t_ntp_seconds t,
        n_ntp_split_seconds = t_ntp_split_seconds t, n_peaks = peaks\<rparr> n }"

definition nav_fft_data_handler ::
    "libm \<Rightarrow> trig \<Rightarrow> ros_params \<Rightarrow> fft_record \<Rightarrow> nav_cloud_publisher \<Rightarrow> nav_cloud_publisher acted option" where
  "nav_fft_data_handler m lib ps fft n = do {
     (pf, target) \<leftarrow> fft_data_handler m fft (nav_peak_finder n);
     let n1 = n\<lparr>nav_peak_finder := pf\<rparr>;
     case target of None \<Rightarrow> Some (n1, []) | Some t \<Rightarrow> target_data_handler lib ps t n1 }"

definition nav_configuration_data_handler ::
    "configuration_record \<Rightarrow> float32 \<Rightarrow> nav_cloud_publisher \<Rightarrow> nav_cloud_publisher acted" where
  "nav_configuration_data_handler cfg metres n =
     (let n1 = n\<lparr>node_azimuth_samples := uint (c_azimuth_samples cfg), node_bin_size := f32_of_f64 (c_bin_size cfg),
                node_range_in_bins := uint (c_range_in_bins cfg),
                node_rotation_rate := uint (c_expected_rotation_rate cfg),
                node_config_message := configuration_message_of cfg, nav_config_data := Some (cfg, metres)\<rparr>;
          acts = [Publish_configuration (configuration_message_of cfg)]
      in if process_locally n1
         then (update_local_navigation_config n1, acts @ [Radar_start_non_contour_fft_data])
         else (let (n2, acts2) = update_navigation_config (n1, acts) in (n2, acts2 @ [Radar_start_navigation_data])))"

section \<open>Properties\<close>

text \<open>
  When the parameter of the last bin is valid, the check stores the parameter of the last
  azimuth in its place.
\<close>

theorem nav_end_bin_is_end_azimuth:
  assumes "0 \<le> int_of_param ps ''end_bin''" "int_of_param ps ''end_bin'' \<le> node_range_in_bins n"
  shows "node_end_bin (fst (check_nav_sector ps (n, acts))) = word_of_int (int_of_param ps ''end_azimuth'')"
proof -
  have "node_range_in_bins (fst (c ps y)) = node_range_in_bins (fst y)"
    if "c \<in> {check_azimuth_offset, check_start_azimuth, check_end_azimuth, check_start_bin}"
    for c and y :: "nav_cloud_publisher acted"
    using that by (cases y) (auto simp: check_defs Let_def)
  then have "node_range_in_bins (fst (check_start_bin ps (check_end_azimuth ps (check_start_azimuth ps
      (check_azimuth_offset ps (n, acts)))))) = node_range_in_bins n" by simp
  then show ?thesis
    using assms unfolding check_nav_sector_def
    by (auto simp: check_nav_end_bin_def Let_def split_beta)
qed

definition nav_params :: ros_params where
  "nav_params =
     \<lparr>int_param = (\<lambda>p. if p = ''end_azimuth'' then 400 else if p = ''end_bin'' then 1000 else 0),
      double_param = (\<lambda>p. f64_of_int 110), bool_param = (\<lambda>p. True), string_param = (\<lambda>p. [])\<rparr>"

definition nav_node :: nav_cloud_publisher where
  "nav_node = (fst (new_nav_cloud_publisher nav_params new_peak_finder))
     \<lparr>node_azimuth_samples := 400, node_range_in_bins := 1000, node_bin_size := f32_of_int 1\<rparr>"

lemmas nav_node_defs = nav_node_def new_nav_cloud_publisher_def new_cloud_node_def new_sector_node_def
  new_rotation_node_def rotation_node.defs sector_node.defs cloud_node.defs nav_params_def u16_of_param_def
  u32_of_param_def

theorem nav_end_bin_is_end_azimuth_witness:
  "node_end_bin (fst (check_nav_sector nav_params (nav_node, []))) = 400"
  using nav_end_bin_is_end_azimuth [of nav_params nav_node "[]"]
  by (simp add: nav_node_defs int_of_param_def to_int32_def)

text \<open>The points of the peaks of an azimuth.\<close>

definition peak_bin :: "nav_cloud_publisher \<Rightarrow> float32 \<times> u16 \<Rightarrow> int option" where
  "peak_bin n peak = fp_to_int (- (2 ^ 31)) (2 ^ 31 - 1) (val32 (f32_div (fst peak) (node_bin_size n)))"

definition peak_points :: "nav_cloud_publisher \<Rightarrow> int \<Rightarrow> (float32 \<times> u16) list \<Rightarrow> point list" where
  "peak_points n adj peaks = concat (map (\<lambda>p. case peak_bin n p of None \<Rightarrow> [] | Some bin \<Rightarrow>
     if uint (node_start_bin n) \<le> bin \<and> bin < uint (node_end_bin n)
     then [(f32_of_int adj, f32_of_int bin, f32_of_f64 (f64_div (f64_of_int (uint (snd p))) (f64_of_int 10)))] else []) peaks)"

lemma push_peak_points:
  assumes "peak_bin n p = Some bin"
  shows "push_peak adj p (with_points pts n) = Some (with_points (pts @ peak_points n adj [p]) n)"
proof -
  have "node_bin_size (with_points pts n) = node_bin_size n" by (simp add: with_points_def)
  then show ?thesis using assms by (simp add: push_peak_def peak_points_def peak_bin_def Let_def)
qed

lemma push_peaks_points:
  "\<forall>p \<in> set peaks. peak_bin n p \<noteq> None \<Longrightarrow>
    push_peaks adj peaks (with_points pts n) = Some (with_points (pts @ peak_points n adj peaks) n)"
proof (induction peaks arbitrary: pts)
  case (Cons p peaks)
  obtain bin where "peak_bin n p = Some bin" using Cons.prems by auto
  then show ?case using Cons by (simp add: push_peak_points) (simp add: peak_points_def)
qed (simp add: peak_points_def)

text \<open>
  Before the azimuth wraps around, an azimuth inside the sector adds to the cloud, in their
  order, exactly its peaks whose bin lies between the limits, with their power divided by 10.
\<close>

theorem nav_peaks_collected:
  assumes "azimuth_index (n_angle nav) (node_azimuth_samples n) = Some idx" "in_sector idx n"
    "\<forall>p \<in> set (n_peaks nav). peak_bin n p \<noteq> None" "\<not> wrapped (n_azimuth nav) n" "\<not> parameters_due n"
  shows "navigation_data_handler lib ps nav (with_points pts n) =
    Some (with_points (pts @ peak_points n (adjusted_azimuth_index idx n) (n_peaks nav))
      (n\<lparr>node_last_azimuth := uint (n_azimuth nav)\<rparr>), [])"
proof -
  have due: "\<not> parameters_due (n\<lparr>node_last_azimuth := a\<rparr>)" for a using assms(5) by (simp add: parameters_due_def)
  show ?thesis
    using assms(2-4) due
    by (simp add: navigation_data_handler_def assms(1) push_peaks_points check_config_publish_def Let_def)
qed

definition nav_sample :: navigation_record where
  "nav_sample = \<lparr>n_angle = azimuth_angle 28 5600, n_azimuth = 28, n_ntp_seconds = 1, n_ntp_split_seconds = 2,
     n_peaks = [(f32_of_int 0, 900)]\<rparr>"

theorem nav_peaks_collected_witness:
  "\<exists>n' pts. navigation_data_handler \<lparr>cosf = id, sinf = id\<rparr> nav_params nav_sample (with_points [] nav_node) = Some (with_points pts n', [])"
proof -
  have z: "val32 (f32_of_int 0) = Fin 0" "val32 (f32_of_int 1) = Fin 1" using val32_of_int [of 0] val32_of_int [of 1] by simp_all
  have "val32 (f32_div (f32_of_int 0) (f32_of_int 1)) = Fin 0"
    by (simp add: f32_div_def z fp_div_def signed_zero_def val32_mk32 rep_def)
  then have "peak_bin nav_node (f32_of_int 0, 900) \<noteq> None"
    by (simp add: peak_bin_def nav_node_defs fp_to_int_def rat_trunc_def)
  then show ?thesis
    using nav_peaks_collected [of nav_sample nav_node 1 "\<lparr>cosf = id, sinf = id\<rparr>" nav_params "[]"]
    by (fastforce simp: nav_sample_def nav_node_defs azimuth_indices_14 in_sector_def wrapped_def parameters_due_def)
qed

section \<open>Local processing of a flat window\<close>

text \<open>
  The peak finder and the publisher together: on an azimuth whose peak has a flat parabola the
  finder reports a distance that is no number, and the publisher converts its quotient to an
  \<open>int\<close>, which is undefined behaviour, when the azimuth lies in the sector.
\<close>

theorem local_processing_undefined:
  assumes "nav_peak_finder n = configure (config\<lparr>c_range_in_bins := 16\<rparr>) metres (Fin 110) 5 5 Off 10 10 (set_target_callback True new_peak_finder)"
    "azimuth_index (f_angle fft) (node_azimuth_samples n) = Some idx" "in_sector idx n" "f_data fft = notched"
  shows "nav_fft_data_handler m lib ps fft n = None"
proof -
  have fft: "fft\<lparr>f_data := notched\<rparr> = fft" using assms(4) by simp
  have v: "val32 (mk32 NaN) = NaN" by (simp add: val32_mk32 rep_def)
  have "push_peak adj (mk32 NaN, w) n' = None" for adj w n'
    by (simp add: push_peak_def f32_div_def v fp_div_def val32_mk32 rep_def fp_to_int_def)
  moreover have "in_sector idx (n\<lparr>nav_peak_finder := pf\<rparr>)" for pf
    using assms(3) by (simp add: in_sector_def)
  ultimately show ?thesis
    using flat_window_handled [of m fft config metres]
    by (simp add: nav_fft_data_handler_def assms(1,2) fft target_data_handler_def fp_cast_def navigation_data_handler_def Let_def
        split: Option.bind_split)
qed

definition local_node :: nav_cloud_publisher where
  "local_node = nav_node\<lparr>nav_peak_finder := configure (sample_config\<lparr>c_range_in_bins := 16\<rparr>) (f32_of_int 1) (Fin 110) 5 5 Off 10 10
     (set_target_callback True new_peak_finder)\<rparr>"

theorem local_processing_undefined_witness:
  "nav_fft_data_handler \<lparr>lib_pow10 = id, lib_log10f = id\<rparr> \<lparr>cosf = id, sinf = id\<rparr> nav_params (sample_fft 28 notched) local_node = None"
  by (rule local_processing_undefined [where idx = 1 and config = sample_config and metres = "f32_of_int 1"])
    (simp_all add: local_node_def nav_node_defs sample_fft_def azimuth_indices_14 in_sector_def)

end
