(* ===== verification/Legacy_Messages.thy ===== *)
theory Legacy_Messages
  imports Colossus_Views
begin

text \<open>
  The messages of the predecessor SDK in \<open>cpp\<close>: \<open>cndpnetworkdatamessage.h\<close>,
  \<open>cndpconfigurationmessage.h\<close> and \<open>cndpfftdatamessage.h\<close>.  Its structs are packed, so a struct and
  its bytes determine each other; a member holds the bytes as they are on the wire (a multi-byte
  number is swapped by the setters and getters).  The last section relates them to the messages of
  \<open>cpp_17\<close>.
\<close>

section \<open>Message types\<close>

datatype cndp_type =
    Invalid | KeepAlive | Configuration | ConfigurationRequest | StartFFTData | StopFFTData
  | StartHealthMsgs | StopHealthMsgs | ReCalibrateRfHealth | StartTracks | StopTracks
  | TransmitOn | TransmitOff | FFTData | HighPrecisionFFTData | Health | ContourUpdate
  | TrackUpdate | TrackerConfiguration | TrackerPlaybackCommand | TrackerSaveClutterMap
  | TrackerLegacyHealthUnits | TrackerDataSourceUpdate | TrackerDistributionUpdate
  | SystemRestart | LoggingLevels | LoggingLevelsRequest | SetAutoTune | StartNavData
  | StopNavData | SetNavThreshold | NavigationData | SetNavRangeOffsetAndGain
  | CalibrateAccelerometer | StartAccelerometer | StopAccelerometer | AccelerometerData
  | StartNonContourFFTData | SetNavBufferModeAndLength | SetNavBinOperation
  | NavigationAlarmData | SetNavAreaRules | NavRadarReset | NavRadarHalt | KeyExchange
  | ContentEncryptionKey | EncryptedData

fun cndp_code :: "cndp_type \<Rightarrow> byte" where
  "cndp_code Invalid = 0"
| "cndp_code KeepAlive = 1"
| "cndp_code Configuration = 10"
| "cndp_code ConfigurationRequest = 20"
| "cndp_code StartFFTData = 21"
| "cndp_code StopFFTData = 22"
| "cndp_code StartHealthMsgs = 23"
| "cndp_code StopHealthMsgs = 24"
| "cndp_code ReCalibrateRfHealth = 25"
| "cndp_code StartTracks = 26"
| "cndp_code StopTracks = 27"
| "cndp_code TransmitOn = 28"
| "cndp_code TransmitOff = 29"
| "cndp_code FFTData = 30"
| "cndp_code HighPrecisionFFTData = 31"
| "cndp_code Health = 40"
| "cndp_code ContourUpdate = 50"
| "cndp_code TrackUpdate = 60"
| "cndp_code TrackerConfiguration = 70"
| "cndp_code TrackerPlaybackCommand = 71"
| "cndp_code TrackerSaveClutterMap = 72"
| "cndp_code TrackerLegacyHealthUnits = 73"
| "cndp_code TrackerDataSourceUpdate = 74"
| "cndp_code TrackerDistributionUpdate = 75"
| "cndp_code SystemRestart = 76"
| "cndp_code LoggingLevels = 90"
| "cndp_code LoggingLevelsRequest = 100"
| "cndp_code SetAutoTune = 110"
| "cndp_code StartNavData = 120"
| "cndp_code StopNavData = 121"
| "cndp_code SetNavThreshold = 122"
| "cndp_code NavigationData = 123"
| "cndp_code SetNavRangeOffsetAndGain = 124"
| "cndp_code CalibrateAccelerometer = 125"
| "cndp_code StartAccelerometer = 126"
| "cndp_code StopAccelerometer = 127"
| "cndp_code AccelerometerData = 128"
| "cndp_code StartNonContourFFTData = 140"
| "cndp_code SetNavBufferModeAndLength = 141"
| "cndp_code SetNavBinOperation = 142"
| "cndp_code NavigationAlarmData = 143"
| "cndp_code SetNavAreaRules = 144"
| "cndp_code NavRadarReset = 145"
| "cndp_code NavRadarHalt = 146"
| "cndp_code KeyExchange = 200"
| "cndp_code ContentEncryptionKey = 201"
| "cndp_code EncryptedData = 202"

section \<open>The header\<close>

record ndm_header =
  ndm_signature :: "byte list"   \<comment> \<open>16 bytes\<close>
  ndm_version :: byte
  messageid :: byte
  payloadsize :: u32

definition ndm_header_length :: nat where
  "ndm_header_length = 16 + 1 + 1 + 4"

definition max_payload_size :: u32 where
  "max_payload_size = 1048576"

definition ndm_signature_bytes :: "byte list" where
  "ndm_signature_bytes = [0x00, 0x01, 0x03, 0x03, 0x07, 0x07, 0x0f, 0x0f,
     0x1f, 0x1f, 0x3f, 0x3f, 0x7f, 0x7f, 0xfe, 0xfe]"

definition init_header :: "ndm_header \<Rightarrow> ndm_header" where
  "init_header h = \<lparr>ndm_signature = ndm_signature_bytes, ndm_version = 1, messageid = cndp_code Invalid, payloadsize = 0\<rparr>"

definition set_message_id :: "cndp_type \<Rightarrow> ndm_header \<Rightarrow> ndm_header" where
  "set_message_id t h = h\<lparr>messageid := cndp_code t\<rparr>"

definition set_payload_length :: "u32 \<Rightarrow> ndm_header \<Rightarrow> ndm_header" where
  "set_payload_length n h = h\<lparr>payloadsize := htonl n\<rparr>"

definition payload_length :: "ndm_header \<Rightarrow> u32" where
  "payload_length h = ntohl (payloadsize h)"

text \<open>The three checks are all made; their results are combined.\<close>

definition header_is_valid :: "ndm_header \<Rightarrow> bool" where
  "header_is_valid h \<longleftrightarrow>
     (\<forall>i \<in> {..<16}. ndm_signature_bytes ! i = ndm_signature h ! i) \<and>
     (1 \<le> ndm_version h \<and> ndm_version h \<le> 1) \<and> payload_length h \<le> max_payload_size"

definition header_to_data :: "ndm_header \<Rightarrow> byte list" where
  "header_to_data h = ndm_signature h @ [ndm_version h] @ [messageid h] @ mem32 (payloadsize h)"

text \<open>The struct that \<open>memcpy\<close> makes of its bytes.\<close>

definition header_of_data :: "byte list \<Rightarrow> ndm_header" where
  "header_of_data bs = \<lparr>ndm_signature = take 16 bs, ndm_version = bs ! 16, messageid = bs ! 17,
     payloadsize = load32 (take 4 (drop 18 bs))\<rparr>"

section \<open>Messages\<close>

record network_message =
  nm_header :: ndm_header
  nm_payload :: "byte list"

definition message_with :: "ndm_header \<Rightarrow> byte list \<Rightarrow> network_message" where
  "message_with h bytes = \<lparr>nm_header = h, nm_payload = bytes\<rparr>"

definition message_without_payload :: "ndm_header \<Rightarrow> network_message" where
  "message_without_payload h = message_with h []"

text \<open>From a pointer and a size; reading past what the pointer points into is undefined.\<close>

definition message_with_range :: "ndm_header \<Rightarrow> byte list \<Rightarrow> nat \<Rightarrow> network_message option" where
  "message_with_range h buf n = map_option (message_with h) (peek_at 0 n buf)"

definition get_payload :: "network_message \<Rightarrow> byte list" where
  "get_payload m = nm_payload m"

definition message_id :: "network_message \<Rightarrow> byte" where
  "message_id m = messageid (nm_header m)"

definition get_payload_size :: "network_message \<Rightarrow> u32" where
  "get_payload_size m = payload_length (nm_header m)"

definition get_version :: "network_message \<Rightarrow> byte" where
  "get_version m = ndm_version (nm_header m)"

definition message_valid :: "network_message \<Rightarrow> bool" where
  "message_valid m \<longleftrightarrow> header_is_valid (nm_header m)"

definition message_data :: "network_message \<Rightarrow> byte list" where
  "message_data m = header_to_data (nm_header m) @ nm_payload m"

section \<open>Configuration\<close>

record cndp_configuration =
  cfg_header :: ndm_header
  azimuthsamples :: u16
  binsize :: u16
  rangeinbins :: u16
  encodersize :: u16
  rotationspeed :: u16
  packetrate :: u16
  rangegain :: u32
  rangeoffset :: u32

definition configuration_header_length :: nat where
  "configuration_header_length = 20"

definition init_configuration :: "cndp_configuration \<Rightarrow> cndp_configuration" where
  "init_configuration c =
     \<lparr>cfg_header = (init_header (cfg_header c))\<lparr>messageid := cndp_code Configuration\<rparr>, azimuthsamples = 0, binsize = 0,
      rangeinbins = 0, encodersize = 0, rotationspeed = 0, packetrate = 0, rangegain = 1, rangeoffset = 0\<rparr>"

definition set_protocol_buffer_length :: "u32 \<Rightarrow> cndp_configuration \<Rightarrow> cndp_configuration" where
  "set_protocol_buffer_length n c =
     c\<lparr>cfg_header := set_payload_length (of_nat configuration_header_length + n) (cfg_header c)\<rparr>"

definition set_azimuthsamples :: "u16 \<Rightarrow> cndp_configuration \<Rightarrow> cndp_configuration" where
  "set_azimuthsamples v c = c\<lparr>azimuthsamples := htons v\<rparr>"

definition set_binsize :: "u16 \<Rightarrow> cndp_configuration \<Rightarrow> cndp_configuration" where
  "set_binsize v c = c\<lparr>binsize := htons v\<rparr>"

definition set_rangeinbins :: "u16 \<Rightarrow> cndp_configuration \<Rightarrow> cndp_configuration" where
  "set_rangeinbins v c = c\<lparr>rangeinbins := htons v\<rparr>"

definition set_encodersize :: "u16 \<Rightarrow> cndp_configuration \<Rightarrow> cndp_configuration" where
  "set_encodersize v c = c\<lparr>encodersize := htons v\<rparr>"

definition set_rotationspeed :: "u16 \<Rightarrow> cndp_configuration \<Rightarrow> cndp_configuration" where
  "set_rotationspeed v c = c\<lparr>rotationspeed := htons v\<rparr>"

definition set_packetrate :: "u16 \<Rightarrow> cndp_configuration \<Rightarrow> cndp_configuration" where
  "set_packetrate v c = c\<lparr>packetrate := htons v\<rparr>"

definition set_rangegain :: "float32 \<Rightarrow> cndp_configuration \<Rightarrow> cndp_configuration" where
  "set_rangegain v c = c\<lparr>rangegain := htonl (bits32 v)\<rparr>"

definition set_rangeoffset :: "float32 \<Rightarrow> cndp_configuration \<Rightarrow> cndp_configuration" where
  "set_rangeoffset v c = c\<lparr>rangeoffset := htonl (bits32 v)\<rparr>"

definition configuration_to_data :: "cndp_configuration \<Rightarrow> byte list" where
  "configuration_to_data c =
     mem16 (azimuthsamples c) @ mem16 (binsize c) @ mem16 (rangeinbins c) @ mem16 (encodersize c) @
     mem16 (rotationspeed c) @ mem16 (packetrate c) @ mem32 (rangegain c) @ mem32 (rangeoffset c)"

text \<open>The struct that \<open>memcpy\<close> makes of its 42 bytes.\<close>

definition configuration_of_data :: "byte list \<Rightarrow> cndp_configuration" where
  "configuration_of_data bs =
     \<lparr>cfg_header = header_of_data bs,
      azimuthsamples = load16 (take 2 (drop 22 bs)), binsize = load16 (take 2 (drop 24 bs)),
      rangeinbins = load16 (take 2 (drop 26 bs)), encodersize = load16 (take 2 (drop 28 bs)),
      rotationspeed = load16 (take 2 (drop 30 bs)), packetrate = load16 (take 2 (drop 32 bs)),
      rangegain = load32 (take 4 (drop 34 bs)), rangeoffset = load32 (take 4 (drop 38 bs))\<rparr>"

section \<open>FFT data\<close>

record cndp_fft =
  cf_header :: ndm_header
  fftdataoffset :: u16
  sweepcounter :: u16
  cf_azimuth :: u16
  cf_seconds :: u32
  splitseconds :: u32

definition fft_header_length :: nat where
  "fft_header_length = 14"

text \<open>The sweep counter and the azimuth keep what they were.\<close>

definition init_fft :: "cndp_fft \<Rightarrow> cndp_fft" where
  "init_fft f = f\<lparr>cf_header := (init_header (cf_header f))\<lparr>messageid := cndp_code FFTData\<rparr>,
     fftdataoffset := htons (of_nat fft_header_length), cf_seconds := 0, splitseconds := 0\<rparr>"

definition set_fft_data_length :: "u32 \<Rightarrow> cndp_fft \<Rightarrow> cndp_fft" where
  "set_fft_data_length n f = f\<lparr>cf_header := set_payload_length (of_nat fft_header_length + n) (cf_header f)\<rparr>"

definition set_sweepcounter :: "u16 \<Rightarrow> cndp_fft \<Rightarrow> cndp_fft" where
  "set_sweepcounter v f = f\<lparr>sweepcounter := htons v\<rparr>"

definition set_azimuth :: "u16 \<Rightarrow> cndp_fft \<Rightarrow> cndp_fft" where
  "set_azimuth v f = f\<lparr>cf_azimuth := htons v\<rparr>"

definition set_seconds :: "u32 \<Rightarrow> cndp_fft \<Rightarrow> cndp_fft" where
  "set_seconds v f = f\<lparr>cf_seconds := htonl v\<rparr>"

definition set_splitseconds :: "u32 \<Rightarrow> cndp_fft \<Rightarrow> cndp_fft" where
  "set_splitseconds v f = f\<lparr>splitseconds := ntohl v\<rparr>"

definition fft_fields :: "cndp_fft \<Rightarrow> byte list" where
  "fft_fields f = mem16 (fftdataoffset f) @ mem16 (sweepcounter f) @ mem16 (cf_azimuth f) @
     mem32 (cf_seconds f) @ mem32 (splitseconds f)"

text \<open>The vector has the length of the whole payload; with less room than the fields the copy leaves it.\<close>

definition fft_to_data :: "cndp_fft \<Rightarrow> byte list option" where
  "fft_to_data f = poke_at 0 (fft_fields f) (replicate (unat (payload_length (cf_header f))) 0)"

definition fft_of_data :: "byte list \<Rightarrow> cndp_fft" where
  "fft_of_data bs =
     \<lparr>cf_header = header_of_data bs,
      fftdataoffset = load16 (take 2 (drop 22 bs)), sweepcounter = load16 (take 2 (drop 24 bs)),
      cf_azimuth = load16 (take 2 (drop 26 bs)), cf_seconds = load32 (take 4 (drop 28 bs)),
      splitseconds = load32 (take 4 (drop 32 bs))\<rparr>"

section \<open>The two generations\<close>

lemma ndm_signature_same: "ndm_signature_bytes = signature"
  by (simp add: ndm_signature_bytes_def signature_def)

lemma F32_bits [simp]: "F32 (bits32 x) = x"
  by (cases x) simp

lemma header_frame:
  assumes "messageid h = c" "ndm_signature h = ndm_signature_bytes" "ndm_version h = 1"
    "payload_length h = of_nat (length pl)"
  shows "header_to_data h @ pl = frame c pl"
proof -
  have "payloadsize h = htonl (of_nat (length pl))"
    using assms(4) by (metis payload_length_def ntohl_htonl(2))
  then show ?thesis using assms(1-3)
    by (simp add: header_to_data_def frame_def be32_def ndm_signature_same version_def)
qed

lemma header_of_frame:
  "header_of_data (frame c pl) =
     \<lparr>ndm_signature = signature, ndm_version = 1, messageid = c, payloadsize = htonl (of_nat (length pl))\<rparr>"
  using frame_code [of c pl] frame_version [of c pl] frame_peek_size [of c pl]
  by (simp add: header_of_data_def nth_opt_def peek_at_def be32_def version_def)
    (simp add: frame_def)

lemma frame_valid_for_legacy:
  "length pl < 2 ^ 32 \<Longrightarrow> header_is_valid (header_of_data (frame c pl)) \<longleftrightarrow> length pl \<le> 1048576"
  by (simp add: header_of_frame header_is_valid_def ndm_signature_same payload_length_def max_payload_size_def
      word_le_nat_alt unsigned_of_nat take_bit_nat_eq_self)

text \<open>
  A message of the predecessor is, byte for byte, the message of its successor with the same type
  and payload, so either end may be of either generation.  They differ in what they accept: the
  predecessor payloads of up to 1,048,576 bytes, the successor less than 1,000,000.
\<close>

theorem legacy_message_is_message:
  assumes "length pl < 2 ^ 32" "h = set_payload_length (of_nat (length pl)) (set_message_id t (init_header h0))"
  shows "message_data (message_with h pl) = frame (cndp_code t) pl \<and>
    (message_valid (message_with h pl) \<longleftrightarrow> length pl \<le> 1048576) \<and>
    (is_valid (message_of (message_data (message_with h pl))) = Some (length pl < 1000000))"
proof -
  have data: "message_data (message_with h pl) = frame (cndp_code t) pl"
    using header_frame [of h "cndp_code t" pl] assms(2)
    by (simp add: message_data_def message_with_def set_payload_length_def set_message_id_def init_header_def
        payload_length_def)
  have "message_valid (message_with h pl) \<longleftrightarrow> length pl \<le> 1048576"
    using frame_valid_for_legacy [OF assms(1), of "cndp_code t"] assms(2)
    by (simp add: header_of_frame message_valid_def message_with_def set_payload_length_def set_message_id_def
        init_header_def ndm_signature_same)
  moreover have "framed (cndp_code t) pl (message_of (frame (cndp_code t) pl))"
    by (simp add: framed_def message_of_def replace_def)
  from is_valid_framed [OF this] assms(1) have "is_valid (message_of (frame (cndp_code t) pl)) = Some (length pl < 1000000)"
    by (simp add: largest_payload_def)
  ultimately show ?thesis using data by simp
qed

definition zero_header :: ndm_header where
  "zero_header = \<lparr>ndm_signature = replicate 16 0, ndm_version = 0, messageid = 0, payloadsize = 0\<rparr>"

theorem legacy_message_is_message_witness:
  "message_data (message_with (set_payload_length 2 (set_message_id SetNavThreshold (init_header zero_header))) [0, 10]) =
     signature @ [1, 122, 0, 0, 0, 2, 0, 10]"
  using legacy_message_is_message [of "[0, 10]" _ SetNavThreshold zero_header, OF _ refl]
  by (simp add: frame_def version_def be32_bytes)

text \<open>
  What the predecessor's setters put into a configuration message, the successor's getters read,
  whatever protocol buffer follows.
\<close>

theorem legacy_configuration_seen:
  assumes "length pb < 1000000"
    "c = set_protocol_buffer_length (of_nat (length pb)) (set_azimuthsamples a (set_binsize b (set_rangeinbins r
       (set_encodersize e (set_rotationspeed s (set_packetrate p (set_rangegain g (set_rangeoffset f
         (init_configuration c0)))))))))"
    "m = message_of (header_to_data (cfg_header c) @ configuration_to_data c @ pb)"
  shows "\<exists>v. view_configuration m = Some v \<and> azimuth_samples v = a \<and> bin_size v = b \<and> range_in_bins v = r \<and>
    encoder_size v = e \<and> rotation_speed v = s \<and> packet_rate v = p \<and> range_gain v = g \<and> range_offset v = f \<and>
    message_code m = Some 10 \<and> protobuf_vector configuration_size m = Some pb"
proof -
  define v where "v = \<lparr>azi_samples = htons a, bin_sz = htons b, range_bins = htons r, encoder_sz = htons e,
    rotation_spd = htons s, pckt_rate = htons p, gain = htonl (bits32 g), offset = htonl (bits32 f)\<rparr>"
  have fields: "configuration_to_data c = configuration_image v"
    by (simp add: assms(2) v_def configuration_to_data_def configuration_image_def init_configuration_def
        set_protocol_buffer_length_def set_azimuthsamples_def set_binsize_def set_rangeinbins_def set_encodersize_def
        set_rotationspeed_def set_packetrate_def set_rangegain_def set_rangeoffset_def)
  have "header_to_data (cfg_header c) @ (configuration_image v @ pb) = frame 10 (configuration_image v @ pb)"
    by (rule header_frame) (simp_all add: assms(2) init_configuration_def set_protocol_buffer_length_def
        set_azimuthsamples_def set_binsize_def set_rangeinbins_def set_encodersize_def set_rotationspeed_def
        set_packetrate_def set_rangegain_def set_rangeoffset_def init_header_def set_payload_length_def
        payload_length_def configuration_view.image_size configuration_size_def configuration_header_length_def)
  then have m: "framed 10 (configuration_image v @ pb) m"
    using fields by (simp add: assms(3) framed_def message_of_def replace_def)
  have "view_configuration m = Some v"
    using configuration_view.view_frame [OF m] by (simp add: view_configuration_def)
  moreover have "protobuf_vector configuration_size m = Some pb"
    using configuration_view.payload_frame [OF m] assms(1) by (simp add: configuration_view.image_size configuration_size_def)
  moreover have "message_code m = Some 10" using m by (simp add: message_code_def framed_def frame_code)
  ultimately show ?thesis
    by (simp add: v_def azimuth_samples_def bin_size_def range_in_bins_def encoder_size_def rotation_speed_def
        packet_rate_def range_gain_def range_offset_def to_uint16_host_def from_uint32_network_def)
qed

definition sample_legacy_configuration :: cndp_configuration where
  "sample_legacy_configuration =
     set_protocol_buffer_length 1 (set_azimuthsamples 400 (set_binsize 1752 (set_rangeinbins 2856
       (set_encodersize 5600 (set_rotationspeed 4000 (set_packetrate 1600 (set_rangegain (F32 0x3F800000)
         (set_rangeoffset (F32 0) (init_configuration
           \<lparr>cfg_header = zero_header, azimuthsamples = 0, binsize = 0, rangeinbins = 0, encodersize = 0,
            rotationspeed = 0, packetrate = 0, rangegain = 0, rangeoffset = 0\<rparr>)))))))))"

theorem legacy_configuration_seen_witness:
  "\<exists>v. view_configuration (message_of (header_to_data (cfg_header sample_legacy_configuration) @
       configuration_to_data sample_legacy_configuration @ [7])) = Some v \<and>
     azimuth_samples v = 400 \<and> encoder_size v = 5600"
  using legacy_configuration_seen [of "[7]", OF _ _ refl] sample_legacy_configuration_def by fastforce

end
