(* ===== verification/Legacy_Tcp_Client.thy ===== *)
theory Legacy_Tcp_Client
  imports Tcp_Radar_Client Legacy_Messages
begin

text \<open>
  \<open>cpp/tcpsocket.h\<close>, \<open>cpp/tcpsocket.cpp\<close>, \<open>cpp/tcpradarclient.h\<close> and \<open>cpp/tcpradarclient.cpp\<close>: the
  connection of the predecessor SDK.  The classes \<open>ThreadedClass\<close>, \<open>ThreadedQueue\<close> and \<open>Timer\<close> under
  \<open>cpp\<close> have the statements of those under \<open>cpp_17/utility\<close> (a thread that is no longer joinable is
  there a null pointer), so the models of the theories \<open>Threaded_Queue\<close> and \<open>Timer\<close> serve for them.
  The calls of the operating system are those of \<open>os_calls\<close>.
\<close>

section \<open>The socket\<close>

record legacy_socket =
  ls_sock :: int
  ls_destination :: string
  ls_port :: u16
  ls_sin_port :: u16

text \<open>The constructor has a parameter for the port, but leaves the member at its initial value.\<close>

definition legacy_make_socket :: "string \<Rightarrow> u16 \<Rightarrow> legacy_socket" where
  "legacy_make_socket dest prt = \<lparr>ls_sock = - 1, ls_destination = dest, ls_port = 6317, ls_sin_port = 0\<rparr>"

definition legacy_is_valid :: "legacy_socket \<Rightarrow> bool" where
  "legacy_is_valid t \<longleftrightarrow> ls_sock t \<noteq> - 1"

definition legacy_destroy :: "'s os_calls \<Rightarrow> legacy_socket \<Rightarrow> 's \<Rightarrow> 's" where
  "legacy_destroy os t s = (if legacy_is_valid t then snd (sys_close os (ls_sock t) s) else s)"

definition legacy_create :: "'s os_calls \<Rightarrow> u32 \<Rightarrow> legacy_socket \<Rightarrow> 's \<Rightarrow> bool \<times> legacy_socket \<times> 's" where
  "legacy_create os receive_timeout t s =
     (let (fd, s1) = sys_socket os s;
          t1 = t\<lparr>ls_sock := fd\<rparr>
      in if \<not> legacy_is_valid t1 then (False, t1, s1)
      else (let (ok1, s2) = sys_setsockopt os fd Reuse_address s1 in
        if \<not> ok1 then (False, t1, s2)
        else (let (ok2, s3) = sys_setsockopt os fd Linger s2 in
          if \<not> ok2 then (False, t1, s3)
          else (let s4 = (if 0 < receive_timeout
                          then snd (sys_setsockopt os fd (Receive_timeout receive_timeout) s3) else s3)
            in (True, t1, s4)))))"

definition legacy_set_send_timeout :: "'s os_calls \<Rightarrow> u32 \<Rightarrow> legacy_socket \<Rightarrow> 's \<Rightarrow> 's" where
  "legacy_set_send_timeout os timeout t s =
     (if 0 < timeout then snd (sys_setsockopt os (ls_sock t) (Send_timeout timeout) s) else s)"

definition legacy_connect_socket :: "'s os_calls \<Rightarrow> legacy_socket \<Rightarrow> 's \<Rightarrow> bool \<times> legacy_socket \<times> 's" where
  "legacy_connect_socket os t s =
     (if \<not> legacy_is_valid t then (False, t, s)
      else (let t1 = t\<lparr>ls_sin_port := htons (ls_port t)\<rparr>;
                (ok, s1) = sys_connect os (ls_sock t1) (ls_destination t1) (ls_sin_port t1) s
            in (ok, t1, s1)))"

definition legacy_send_socket :: "'s os_calls \<Rightarrow> legacy_socket \<Rightarrow> byte list \<Rightarrow> 's \<Rightarrow> u32 \<times> 's" where
  "legacy_send_socket os t bytes s =
     (case sys_send os (ls_sock t) bytes s of
        (Send_failed errno, s1) \<Rightarrow> (errno, s1)
      | (Sent n, s1) \<Rightarrow> (0, s1))"

text \<open>The loop is that of \<open>cpp_17\<close>, on the descriptor of this socket; \<open>data\<close> is what it appends.\<close>

definition legacy_receive ::
    "'s os_calls \<Rightarrow> legacy_socket \<Rightarrow> int \<Rightarrow> bool \<Rightarrow> 's \<Rightarrow> (u32 \<times> byte list \<times> 's) option" where
  "legacy_receive os t bytes_to_read peek s =
     receive os ((make_socket localhost 0)\<lparr>sock := ls_sock t\<rparr>) bytes_to_read (if peek then Peek else Consume) s"

definition legacy_close :: "'s os_calls \<Rightarrow> bool \<Rightarrow> legacy_socket \<Rightarrow> 's \<Rightarrow> bool \<times> legacy_socket \<times> 's" where
  "legacy_close os shutdown t s =
     (if \<not> legacy_is_valid t then (False, t, s)
      else (let s1 = (if shutdown then sys_shutdown os (ls_sock t) s else s);
                (ok, s2) = sys_close os (ls_sock t) s1
            in if \<not> ok then (False, t, s2) else (True, t\<lparr>ls_sock := - 1\<rparr>, s2)))"

section \<open>The client\<close>

record 's legacy_client =
  lc_queue :: "network_message threaded_queue"
  lc_address :: string
  lc_port :: u16
  lc_socket :: legacy_socket
  lc_connect_thread :: bool
  lc_read_thread :: bool
  lc_check_timer :: timer
  lc_state :: connection_state
  lc_reading :: bool
  lc_running :: bool
  lc_connect_signals :: nat
  lc_env :: 's

definition legacy_check_timeout :: int where
  "legacy_check_timeout = 15000"

definition legacy_read_timeout :: u32 where
  "legacy_read_timeout = 60"

definition legacy_send_timeout :: u32 where
  "legacy_send_timeout = 10"

definition legacy_make_client :: "string \<Rightarrow> u16 \<Rightarrow> 's \<Rightarrow> 's legacy_client" where
  "legacy_make_client a p s =
     \<lparr>lc_queue = fresh_queue, lc_address = a, lc_port = p, lc_socket = legacy_make_socket a p,
      lc_connect_thread = False, lc_read_thread = False, lc_check_timer = timer_of legacy_check_timeout,
      lc_state = Disconnected, lc_reading = False, lc_running = False, lc_connect_signals = 0, lc_env = s\<rparr>"

definition legacy_set_receive_data_callback :: "bool \<Rightarrow> 's legacy_client \<Rightarrow> 's legacy_client" where
  "legacy_set_receive_data_callback given c = c\<lparr>lc_queue := set_dequeue_callback given (lc_queue c)\<rparr>"

definition legacy_connection_state :: "'s legacy_client \<Rightarrow> connection_state" where
  "legacy_connection_state c = (if \<not> lc_running c then Disconnected else lc_state c)"

definition legacy_set_connection_state :: "connection_state \<Rightarrow> 's legacy_client \<Rightarrow> 's legacy_client" where
  "legacy_set_connection_state st c =
     (if \<not> lc_running c then c else if lc_state c = st then c else c\<lparr>lc_state := st\<rparr>)"

definition legacy_notify :: "'s legacy_client \<Rightarrow> 's legacy_client" where
  "legacy_notify c = c\<lparr>lc_connect_signals := lc_connect_signals c + 1\<rparr>"

definition legacy_start :: "'s legacy_client \<Rightarrow> 's legacy_client" where
  "legacy_start c =
     (if lc_running c then c
      else (let c1 = c\<lparr>lc_queue := start_queue (lc_queue c), lc_running := True, lc_connect_thread := True\<rparr>;
                c2 = legacy_notify c1
            in c2\<lparr>lc_check_timer := enable_timer True (set_timer_callback True (lc_check_timer c2))\<rparr>))"

definition legacy_stop :: "'s os_calls \<Rightarrow> 's legacy_client \<Rightarrow> 's legacy_client" where
  "legacy_stop os c =
     (if \<not> lc_running c then c
      else (let c1 = c\<lparr>lc_queue := stop_queue False (lc_queue c),
                       lc_check_timer := set_timer_callback False (enable_timer False (lc_check_timer c)),
                       lc_running := False\<rparr>;
                (ok, t, s) = legacy_close os True (lc_socket c1) (lc_env c1);
                c2 = legacy_notify (c1\<lparr>lc_socket := t, lc_env := s\<rparr>)
            in c2\<lparr>lc_connect_thread := False, lc_connect_signals := 0, lc_reading := False, lc_read_thread := False\<rparr>))"

definition legacy_connection_check :: "'s legacy_client \<Rightarrow> 's legacy_client" where
  "legacy_connection_check c =
     (if legacy_connection_state c \<noteq> Disconnected then c else legacy_notify c)"

definition legacy_send :: "'s os_calls \<Rightarrow> byte list \<Rightarrow> 's legacy_client \<Rightarrow> 's legacy_client" where
  "legacy_send os bytes c =
     (if legacy_connection_state c \<noteq> Connected then c
      else (let (status, s1) = legacy_send_socket os (lc_socket c) bytes (lc_env c);
                c1 = c\<lparr>lc_env := s1\<rparr>
            in if status \<noteq> 0 then legacy_set_connection_state Disconnected c1 else c1))"

definition legacy_client_receive ::
    "'s os_calls \<Rightarrow> int \<Rightarrow> bool \<Rightarrow> 's legacy_client \<Rightarrow> (int \<times> byte list \<times> 's legacy_client) option" where
  "legacy_client_receive os n peek c = do {
     (res, d, s1) \<leftarrow> legacy_receive os (lc_socket c) n peek (lc_env c);
     Some (sint res, d, c\<lparr>lc_env := s1\<rparr>) }"

definition legacy_enqueue :: "network_message \<Rightarrow> 's legacy_client \<Rightarrow> 's legacy_client" where
  "legacy_enqueue m c = c\<lparr>lc_queue := enqueue m (lc_queue c)\<rparr>"

definition legacy_handle_data :: "'s os_calls \<Rightarrow> 's legacy_client \<Rightarrow> (bool \<times> 's legacy_client) option" where
  "legacy_handle_data os c = do {
     (bytes_read, d, c1) \<leftarrow> legacy_client_receive os (int ndm_header_length) False c;
     if bytes_read \<le> 0 \<or> \<not> lc_reading c1 \<or> \<not> lc_running c1
     then Some (False, legacy_set_connection_state Disconnected c1)
     else (let h = header_of_data d in
       if header_is_valid h \<and> payload_length h \<noteq> 0 then do {
         (bytes_transferred, payload, c2) \<leftarrow> legacy_client_receive os (sint (payload_length h)) False c1;
         if bytes_transferred \<le> 0 \<or> \<not> lc_reading c2 \<or> \<not> lc_running c2
         then Some (False, legacy_set_connection_state Disconnected c2)
         else do {
           m \<leftarrow> message_with_range h payload (unat (payload_length h));
           Some (True, legacy_enqueue m c2) } }
       else if header_is_valid h then Some (True, legacy_enqueue (message_without_payload h) c1)
       else Some (True, c1)) }"

text \<open>The comparison of 16 bytes, all of them read.\<close>

definition signature_matches :: "byte list \<Rightarrow> bool option" where
  "signature_matches sig =
     (if length sig < 16 then None else Some (\<forall>i \<in> {..<16}. ndm_signature_bytes ! i = sig ! i))"

definition legacy_read_pass :: "'s os_calls \<Rightarrow> 's legacy_client \<Rightarrow> (loop_control \<times> 's legacy_client) option" where
  "legacy_read_pass os c = do {
     (bytes_read, sig, c1) \<leftarrow> legacy_client_receive os 16 True c;
     if bytes_read = 0 then Some (Continue, c1)
     else if bytes_read < 0 \<or> \<not> lc_reading c1 \<or> \<not> lc_running c1
     then Some (Break, legacy_set_connection_state Disconnected c1)
     else do {
       result \<leftarrow> signature_matches sig;
       if \<not> result then do {
         (bytes_read2, sig2, c2) \<leftarrow> legacy_client_receive os 1 False c1;
         if bytes_read2 \<le> 0 \<or> \<not> lc_reading c2 \<or> \<not> lc_running c2
         then Some (Break, legacy_set_connection_state Disconnected c2)
         else Some (Continue, c2) }
       else do {
         (ok, c2) \<leftarrow> legacy_handle_data os c1;
         if \<not> ok \<or> \<not> lc_reading c2 \<or> \<not> lc_running c2
         then Some (Break, legacy_set_connection_state Disconnected c2)
         else Some (Continue, c2) } } }"

fun legacy_read_run :: "'s os_calls \<Rightarrow> nat \<Rightarrow> 's legacy_client \<Rightarrow> 's legacy_client option" where
  "legacy_read_run os 0 c = Some c"
| "legacy_read_run os (Suc n) c =
     (if lc_reading c \<and> lc_running c then
        (case legacy_read_pass os c of
           None \<Rightarrow> None
         | Some (Continue, c1) \<Rightarrow> legacy_read_run os n c1
         | Some (Break, c1) \<Rightarrow> Some (c1\<lparr>lc_reading := False\<rparr>))
      else Some (c\<lparr>lc_reading := False\<rparr>))"

text \<open>
  Joining the read thread while it makes \<open>n\<close> passes: the join returns if the loop has ended by then.
\<close>

definition legacy_join_read_thread :: "'s os_calls \<Rightarrow> nat \<Rightarrow> 's legacy_client \<Rightarrow> 's legacy_client option" where
  "legacy_join_read_thread os n c =
     (if \<not> lc_read_thread c then Some c
      else do { c1 \<leftarrow> legacy_read_run os n c; if lc_reading c1 then None else Some (c1\<lparr>lc_read_thread := False\<rparr>) })"

definition legacy_connect :: "'s os_calls \<Rightarrow> nat \<Rightarrow> 's legacy_client \<Rightarrow> 's legacy_client option" where
  "legacy_connect os n c =
     (if legacy_connection_state c = Connected then Some c
      else (let c1 = legacy_set_connection_state Connecting c;
                (closed, t1, s1) = legacy_close os False (lc_socket c1) (lc_env c1);
                (created, t2, s2) = legacy_create os legacy_read_timeout t1 s1;
                s3 = legacy_set_send_timeout os legacy_send_timeout t2 s2;
                (ok, t3, s4) = legacy_connect_socket os t2 s3;
                c2 = c1\<lparr>lc_socket := t3, lc_env := s4\<rparr>
            in if ok then do {
                 c3 \<leftarrow> legacy_join_read_thread os n c2;
                 Some ((legacy_set_connection_state Connected c3)\<lparr>lc_reading := True, lc_read_thread := True\<rparr>) }
               else Some (legacy_set_connection_state Disconnected c2)))"

definition legacy_connect_thread_turn :: "'s os_calls \<Rightarrow> nat \<Rightarrow> 's legacy_client \<Rightarrow> 's legacy_client option" where
  "legacy_connect_thread_turn os n c =
     (if \<not> lc_running c \<or> lc_connect_signals c = 0 then Some c
      else legacy_connect os n (c\<lparr>lc_connect_signals := 0\<rparr>))"

section \<open>Framing\<close>

definition legacy_live :: "stream legacy_client \<Rightarrow> bool" where
  "legacy_live c \<longleftrightarrow> lc_reading c \<and> lc_running c \<and> descriptor (lc_env c) \<noteq> - 1 \<and>
     list_all (\<lambda>p. p \<noteq> []) (pieces (lc_env c))"

lemma legacy_live_receive:
  assumes "legacy_live c" "0 < n" "n < 2 ^ 31" "n \<le> int (length (stream_pending (lc_env c)))"
  shows "\<exists>s1. legacy_client_receive stream_os n False c =
      Some (n, take (nat n) (stream_pending (lc_env c)), c\<lparr>lc_env := s1\<rparr>) \<and>
    stream_pending s1 = drop (nat n) (stream_pending (lc_env c)) \<and> legacy_live (c\<lparr>lc_env := s1\<rparr>)"
  using stream_receive_kept [of "lc_env c" n "(make_socket localhost 0)\<lparr>sock := ls_sock (lc_socket c)\<rparr>"] assms
  by (auto simp: legacy_client_receive_def legacy_receive_def sint_small legacy_live_def)

lemma legacy_live_peek:
  assumes "legacy_live c" "pieces (lc_env c) = p # ps" "16 \<le> length p"
  shows "legacy_client_receive stream_os 16 True c = Some (16, take 16 p, c)"
  using assms
  by (simp add: legacy_client_receive_def legacy_receive_def receive_def receive_loop.simps [of _ _ 16]
      stream_recv_def legacy_live_def)

lemma legacy_handle_frame:
  assumes "legacy_live c" "stream_pending (lc_env c) = frame t pl @ rest" "length pl \<le> 1048576"
  shows "\<exists>s1. legacy_handle_data stream_os c =
      Some (True, c\<lparr>lc_env := s1, lc_queue := enqueue (message_with (header_of_data (frame t pl)) pl) (lc_queue c)\<rparr>) \<and>
    stream_pending s1 = rest \<and> legacy_live (c\<lparr>lc_env := s1\<rparr>)"
proof -
  let ?h = "header_of_data (frame t pl)"
  define hd where "hd = take 22 (frame t pl)"
  have hd: "length hd = 22" "take 22 (stream_pending (lc_env c)) = hd"
      "drop 22 (stream_pending (lc_env c)) = pl @ rest"
    using assms(2) by (simp_all add: hd_def, simp add: frame_def)
  have h: "header_of_data hd = ?h" by (simp add: header_of_data_def hd_def drop_take)
  have n: "length pl < 2 ^ 31" using assms(3) by simp
  have valid: "header_is_valid ?h" using frame_valid_for_legacy [of pl t] assms(3) by simp
  have len: "payload_length ?h = of_nat (length pl)" by (simp add: header_of_frame payload_length_def)
  have empty: "(of_nat (length pl) :: u32) = 0 \<longleftrightarrow> pl = []"
    using n by (simp add: word_unat_eq_iff unsigned_of_nat take_bit_nat_eq_self)
  have size: "sint (of_nat (length pl) :: u32) = int (length pl)" "unat (of_nat (length pl) :: u32) = length pl"
    using n sint_small [of "int (length pl)"] by (simp_all add: unsigned_of_nat take_bit_nat_eq_self)
  obtain s1 where s1: "legacy_client_receive stream_os 22 False c = Some (22, hd, c\<lparr>lc_env := s1\<rparr>)"
      "stream_pending s1 = pl @ rest" "legacy_live (c\<lparr>lc_env := s1\<rparr>)"
    using legacy_live_receive [of c 22] assms(1,2) hd(2,3) by auto
  have live: "lc_reading c" "lc_running c" using assms(1) by (simp_all add: legacy_live_def)
  show ?thesis
  proof (cases "pl = []")
    case True
    then show ?thesis
      using s1 live valid len empty
      by (intro exI [of _ s1]) (simp add: legacy_handle_data_def ndm_header_length_def h legacy_enqueue_def
          message_without_payload_def Let_def)
  next
    case False
    obtain s2 where s2: "legacy_client_receive stream_os (int (length pl)) False (c\<lparr>lc_env := s1\<rparr>) =
        Some (int (length pl), pl, c\<lparr>lc_env := s2\<rparr>)" "stream_pending s2 = rest" "legacy_live (c\<lparr>lc_env := s2\<rparr>)"
      using legacy_live_receive [OF s1(3), of "int (length pl)"] s1(2) False n by auto
    show ?thesis
      using s2(2,3) False live valid len empty size
      by (intro exI [of _ s2]) (simp add: legacy_handle_data_def ndm_header_length_def s1(1) h s2(1) legacy_enqueue_def
          message_with_range_def peek_at_def Let_def)
  qed
qed

lemma legacy_read_frame:
  assumes "legacy_live c" "pieces (lc_env c) = p # ps" "16 \<le> length p"
    "stream_pending (lc_env c) = frame t pl @ rest" "length pl \<le> 1048576"
  shows "\<exists>s1. legacy_read_pass stream_os c =
      Some (Continue, c\<lparr>lc_env := s1, lc_queue := enqueue (message_with (header_of_data (frame t pl)) pl) (lc_queue c)\<rparr>) \<and>
    stream_pending s1 = rest \<and> legacy_live (c\<lparr>lc_env := s1\<rparr>)"
proof -
  have "take 16 p = take 16 (stream_pending (lc_env c))"
    using assms(2,3) by (simp add: stream_pending_def)
  also have "\<dots> = signature" using assms(4) by (simp add: frame_def)
  finally have "signature_matches (take 16 p) = Some True"
    by (simp add: signature_matches_def ndm_signature_same)
  moreover obtain s1 where "legacy_handle_data stream_os c =
      Some (True, c\<lparr>lc_env := s1, lc_queue := enqueue (message_with (header_of_data (frame t pl)) pl) (lc_queue c)\<rparr>)"
      "stream_pending s1 = rest" "legacy_live (c\<lparr>lc_env := s1\<rparr>)"
    using legacy_handle_frame [OF assms(1,4,5)] by blast
  ultimately show ?thesis
    using legacy_live_peek [OF assms(1-3)] assms(1)
    by (intro exI [of _ s1]) (simp add: legacy_read_pass_def legacy_live_def)
qed

lemma signature_matches_16: "length d = 16 \<Longrightarrow> signature_matches d = Some (d = signature)"
  by (auto simp: signature_matches_def ndm_signature_same list_eq_iff_nth_eq)

lemma legacy_skip_a_byte:
  assumes "legacy_live c" "pieces (lc_env c) = p # ps" "take 16 p \<noteq> signature"
  shows "\<exists>s1. legacy_read_pass stream_os c = Some (Continue, c\<lparr>lc_env := s1\<rparr>) \<and>
    pieces s1 = tail_pieces (p # ps) \<and> legacy_live (c\<lparr>lc_env := s1\<rparr>)"
proof -
  have "p \<noteq> []" using assms(1,2) by (simp add: legacy_live_def)
  then obtain x xs where x: "p = x # xs" by (cases p) auto
  let ?s1 = "(lc_env c)\<lparr>pieces := tail_pieces (p # ps)\<rparr>"
  have "\<exists>d. legacy_client_receive stream_os 16 True c = Some (16, d, c) \<and> signature_matches d = Some False"
  proof (cases "16 \<le> length p")
    case True
    then show ?thesis using legacy_live_peek [OF assms(1,2)] assms(3) by (simp add: signature_matches_16)
  next
    case False
    let ?t = "(make_socket localhost 0)\<lparr>sock := ls_sock (lc_socket c)\<rparr>"
    obtain d where d: "receive_loop stream_os ?t 16 True 0 [] (lc_env c) = (16, d, lc_env c)"
        "length d = 16" "\<forall>i < length d. d ! i = p ! (i mod length p)"
      using peek_loop_repeats [OF assms(2) \<open>p \<noteq> []\<close>, of 0 16 "[]" ?t] assms(1) by (auto simp: legacy_live_def)
    then have "d \<noteq> signature" using short_piece_differs [of d p] \<open>p \<noteq> []\<close> False by simp
    then show ?thesis using d by (simp add: legacy_client_receive_def legacy_receive_def receive_def signature_matches_16)
  qed
  moreover have "legacy_client_receive stream_os 1 False c = Some (1, take 1 p, c\<lparr>lc_env := ?s1\<rparr>)"
    using assms(1,2) x
    by (cases xs) (simp_all add: legacy_client_receive_def legacy_receive_def receive_def receive_loop.simps [of _ _ 1]
        stream_recv_def legacy_live_def)
  moreover have "list_all (\<lambda>p. p \<noteq> []) (pieces ?s1)" using assms(1,2) x by (auto simp: legacy_live_def)
  ultimately show ?thesis
    using assms(1) by (intro exI [of _ ?s1]) (auto simp: legacy_read_pass_def legacy_live_def)
qed

lemma legacy_resynchronise:
  assumes "legacy_live c" "stream_pending (lc_env c) = junk @ frame t pl @ rest"
    "whole_signature_at (length junk) (pieces (lc_env c))" "length pl \<le> 1048576"
    "\<forall>i < length junk. take 16 (drop i (junk @ frame t pl)) \<noteq> signature"
  shows "\<exists>s1. legacy_read_run stream_os (length junk + 1) c =
      Some (c\<lparr>lc_env := s1, lc_queue := enqueue (message_with (header_of_data (frame t pl)) pl) (lc_queue c)\<rparr>) \<and>
    stream_pending s1 = rest"
  using assms
proof (induction junk arbitrary: c)
  case Nil
  have "stream_pending (lc_env c) \<noteq> []" using Nil.prems(2) by (simp add: frame_def)
  then obtain p ps where p: "pieces (lc_env c) = p # ps" by (cases "pieces (lc_env c)") (simp_all add: stream_pending_def)
  then have "16 \<le> length p" using first_piece_whole [of p ps] Nil.prems(1,3) by (simp add: legacy_live_def)
  then obtain s1 where s1: "legacy_read_pass stream_os c =
      Some (Continue, c\<lparr>lc_env := s1, lc_queue := enqueue (message_with (header_of_data (frame t pl)) pl) (lc_queue c)\<rparr>)"
      "stream_pending s1 = rest"
    using legacy_read_frame [OF Nil.prems(1) p, of t pl rest] Nil.prems(2,4) by auto
  then show ?case using Nil.prems(1) by (auto simp: legacy_live_def)
next
  case (Cons b junk)
  obtain p ps where p: "pieces (lc_env c) = p # ps"
    using Cons.prems(2) by (cases "pieces (lc_env c)") (simp_all add: stream_pending_def)
  have ok: "list_all (\<lambda>p. p \<noteq> []) (p # ps)" using Cons.prems(1) p by (simp add: legacy_live_def)
  have "take 16 p \<noteq> signature" using junk_differs [of "lc_env c" p ps b junk t pl rest] p Cons.prems(2,5) by blast
  then obtain s1 where s1: "legacy_read_pass stream_os c = Some (Continue, c\<lparr>lc_env := s1\<rparr>)"
      "pieces s1 = tail_pieces (p # ps)" "legacy_live (c\<lparr>lc_env := s1\<rparr>)"
    using legacy_skip_a_byte [OF Cons.prems(1) p] by blast
  have "stream_pending s1 = tl (stream_pending (lc_env c))"
    using concat_tail_pieces [OF ok] s1(2) p by (simp add: stream_pending_def)
  moreover have "whole_signature_at (length junk) (pieces s1)"
    using whole_signature_tail [of "length junk" "p # ps"] Cons.prems(3) ok s1(2) p by simp
  moreover have "\<forall>i < length junk. take 16 (drop i (junk @ frame t pl)) \<noteq> signature"
    using Cons.prems(5) by (metis Suc_less_eq append_Cons drop_Suc_Cons length_Cons)
  ultimately have "\<exists>s2. legacy_read_run stream_os (length junk + 1) (c\<lparr>lc_env := s1\<rparr>) =
      Some (c\<lparr>lc_env := s2, lc_queue := enqueue (message_with (header_of_data (frame t pl)) pl) (lc_queue c)\<rparr>) \<and>
      stream_pending s2 = rest"
    using Cons.IH [of "c\<lparr>lc_env := s1\<rparr>"] s1(3) Cons.prems(2,4) by simp
  then show ?case using s1(1) Cons.prems(1) by (simp add: legacy_live_def)
qed

text \<open>
  C16: the two clients are interchangeable on the wire.  From the same stream, some bytes that are no message and
  then a message, either read thread drops these bytes one by one, takes the message and leaves the same
  rest, and the message that the predecessor hands to its queue has the bytes that the successor hands to its own.
  The stream may arrive in any pieces, provided that none ends inside of the 16 bytes of the message's
  signature and that no signature starts among the dropped bytes; the payload is below 1,000,000 bytes.
\<close>

theorem clients_take_the_same_message:
  assumes "live c" "legacy_live l" "lc_env l = env c" "stream_pending (env c) = junk @ frame t pl @ rest"
    "whole_signature_at (length junk) (pieces (env c))" "length pl < 1000000"
    "\<forall>i < length junk. take 16 (drop i (junk @ frame t pl)) \<noteq> signature"
  shows "\<exists>s1 s2 m. read_thread_run stream_os (length junk + 1) c =
      Some (c\<lparr>env := s1, receive_queue := enqueue (frame t pl) (receive_queue c)\<rparr>) \<and>
    legacy_read_run stream_os (length junk + 1) l = Some (l\<lparr>lc_env := s2, lc_queue := enqueue m (lc_queue l)\<rparr>) \<and>
    stream_pending s1 = rest \<and> stream_pending s2 = rest \<and> message_data m = frame t pl \<and> message_valid m"
proof -
  obtain s1 where 1: "read_thread_run stream_os (length junk + 1) c =
      Some (c\<lparr>env := s1, receive_queue := enqueue (frame t pl) (receive_queue c)\<rparr>)" "stream_pending s1 = rest"
    using resynchronise [OF assms(1,4-7)] by blast
  obtain s2 where 2: "legacy_read_run stream_os (length junk + 1) l =
      Some (l\<lparr>lc_env := s2, lc_queue := enqueue (message_with (header_of_data (frame t pl)) pl) (lc_queue l)\<rparr>)"
      "stream_pending s2 = rest"
    using legacy_resynchronise [OF assms(2), of junk t pl rest] assms(3-7) by auto
  have "message_data (message_with (header_of_data (frame t pl)) pl) = frame t pl"
    using header_frame [of "header_of_data (frame t pl)" t pl]
    by (simp add: message_data_def message_with_def header_of_frame ndm_signature_same payload_length_def)
  moreover have "message_valid (message_with (header_of_data (frame t pl)) pl)"
    using frame_valid_for_legacy [of pl t] assms(6) by (simp add: message_valid_def message_with_def)
  ultimately show ?thesis using 1 2 by blast
qed

definition legacy_on_stream :: "byte list list \<Rightarrow> stream legacy_client" where
  "legacy_on_stream ps = (legacy_make_client ''127.0.0.1'' 6317 (sample_stream\<lparr>pieces := ps\<rparr>))
     \<lparr>lc_running := True, lc_reading := True, lc_queue := start_queue (set_dequeue_callback True fresh_queue)\<rparr>"

lemma legacy_on_stream_simps:
  "lc_env (legacy_on_stream ps) = env (on_stream ps)"
  "list_all (\<lambda>p. p \<noteq> []) ps \<Longrightarrow> legacy_live (legacy_on_stream ps)"
  by (simp_all add: legacy_on_stream_def legacy_make_client_def on_stream_def legacy_live_def sample_stream_def)

theorem clients_take_the_same_message_witness:
  "\<exists>s2 m. legacy_read_run stream_os 2 (legacy_on_stream [[5], frame 30 [], [7]]) = Some (
     (legacy_on_stream [[5], frame 30 [], [7]])\<lparr>lc_env := s2, lc_queue := enqueue m (lc_queue (legacy_on_stream [[5], frame 30 [], [7]]))\<rparr>) \<and>
     stream_pending s2 = [7] \<and> message_data m = frame 30 []"
proof -
  let ?ps = "[[5], frame 30 [], [7]]"
  have ne: "list_all (\<lambda>p. p \<noteq> []) ?ps" by (simp add: frame_def)
  have "take 16 (5 # frame 30 []) \<noteq> signature"
    by (simp add: take_Cons' signature_def)
  then have "\<forall>i < length [5 :: byte]. take 16 (drop i ([5] @ frame 30 [])) \<noteq> signature" by simp
  moreover have "whole_signature_at 1 ?ps"
    by (auto simp: whole_signature_at_def frame_def take_Cons')
  ultimately show ?thesis
    using clients_take_the_same_message [of "on_stream ?ps" "legacy_on_stream ?ps" "[5]" 30 "[]" "[7]", OF live_on_stream [OF ne]
        legacy_on_stream_simps(2) [OF ne] legacy_on_stream_simps(1)]
    by (auto simp: numeral_2_eq_2 simp del: read_thread_run.simps legacy_read_run.simps)
qed

section \<open>Where the connection goes wrong\<close>

text \<open>
  The port given to the client does not reach the operating system: it connects to port 6317.
\<close>

theorem legacy_port_ignored:
  assumes "legacy_connect_socket os (lc_socket (legacy_make_client a p s)\<lparr>ls_sock := fd\<rparr>) s = (ok, t, s1)"
    "fd \<noteq> - 1"
  shows "(ok, s1) = sys_connect os fd a (htons 6317) s"
  using assms
  by (auto simp: legacy_connect_socket_def legacy_make_client_def legacy_make_socket_def legacy_is_valid_def
      Let_def split: prod.splits)

theorem legacy_port_ignored_witness:
  "\<exists>ok t s1. legacy_connect_socket stream_os (lc_socket (legacy_make_client ''10.0.0.1'' 700 sample_stream)\<lparr>ls_sock := 3\<rparr>)
     sample_stream = (ok, t, s1) \<and> (ok, s1) = sys_connect stream_os 3 ''10.0.0.1'' (htons 6317) sample_stream"
  using legacy_port_ignored [where os = stream_os and fd = 3 and a = "''10.0.0.1''" and p = 700 and s = sample_stream] by (metis prod_cases3 numeral_neq_neg_one)

text \<open>
  The clock readings of a waiting loop whose turns take \<open>d\<close> milliseconds each.
\<close>

fun steady_turns :: "int \<Rightarrow> int \<Rightarrow> nat \<Rightarrow> (int \<times> int \<times> int \<times> bool) list" where
  "steady_turns d t 0 = []"
| "steady_turns d t (Suc n) = (t, t + d, t + d, False) # steady_turns d (t + d) n"

lemma steady_wait_endless:
  "0 < d \<Longrightarrow> \<not> d dvd 15000 \<Longrightarrow> d dvd t - now \<Longrightarrow> t - now < 15000 \<Longrightarrow>
    \<not> wait_loop 15000 now (steady_turns d t n)"
proof (induction n arbitrary: t now)
  case (Suc n)
  have dv: "d dvd t + d - now" using Suc.prems(3) by (metis add_diff_eq diff_add_eq dvd_add dvd_refl add.commute)
  show ?case
  proof (cases "15000 < t + d - now")
    case True
    then show ?thesis using Suc.IH [of "t + d" "t + d"] Suc.prems by (simp add: Let_def)
  next
    case False
    moreover have "t + d - now \<noteq> 15000" using dv Suc.prems(2) by metis
    ultimately have "t + d - now < 15000" by linarith
    then show ?thesis using Suc.IH [OF Suc.prems(1,2) dv] Suc.prems(4) False by (simp add: Let_def)
  qed
qed simp

text \<open>
  The connection check of the predecessor waits 15,000 milliseconds, the very time after which
  the timer moves its starting point: when the turns of the waiting loop take \<open>d\<close> milliseconds
  and \<open>d\<close> does not divide 15,000, the check never runs, and a lost connection is never renewed.
\<close>

theorem legacy_check_never_runs:
  assumes "0 < d" "\<not> d dvd 15000"
  shows "timer_work now (steady_turns d now n) (lc_check_timer (legacy_make_client a p s)) = None"
  using steady_wait_endless [OF assms, of now now]
  by (simp add: timer_work_def legacy_make_client_def timer_of_def legacy_check_timeout_def)

theorem legacy_check_never_runs_witness:
  "timer_work 0 (steady_turns 11 0 5000) (lc_check_timer (legacy_make_client ''10.0.0.1'' 6317 sample_stream)) = None"
  using legacy_check_never_runs [of 11 0 5000] by simp

end
