(* ===== verification/Legacy_Radar_Client.thy ===== *)
theory Legacy_Radar_Client
  imports Legacy_Tcp_Client Radar_Client
begin

text \<open>
  \<open>cpp/radarclient.h\<close> and \<open>cpp/radarclient.cpp\<close>: the commands and the handlers of the predecessor
  SDK.  A callback that is set is called by appending an event.  The last sections compare it with
  the radar client of \<open>cpp_17\<close>.
\<close>

section \<open>The client\<close>

record legacy_fft_record =
  lf_angle :: float32
  lf_azimuth :: u16
  lf_sweep_counter :: u16
  lf_ntp_seconds :: u32
  lf_ntp_split_seconds :: u32
  lf_data :: "byte list"

record legacy_navigation_record =
  ln_angle :: float32
  ln_azimuth :: u16
  ln_ntp_seconds :: u32
  ln_ntp_split_seconds :: u32
  ln_peaks :: "(float32 \<times> u16) list"

record legacy_configuration_record =
  lg_azimuth_samples :: u16
  lg_encoder_size :: u16
  lg_bin_size :: u16
  lg_range_in_bins :: u16
  lg_expected_rotation_rate :: u16

datatype legacy_event =
    Legacy_fft legacy_fft_record
  | Legacy_navigation legacy_navigation_record
  | Legacy_configuration legacy_configuration_record

record 's legacy_radar =
  lr_client :: "'s legacy_client"
  lr_running :: bool
  lr_send_radar_data :: bool
  lr_fft_callback :: bool
  lr_navigation_callback :: bool
  lr_configuration_callback :: bool
  lr_encoder_size :: u16
  lr_bin_size :: u16
  lr_range_in_bins :: u16
  lr_azimuth_samples :: u16
  lr_expected_rotation_rate :: u16
  lr_events :: "legacy_event list"

definition legacy_make_radar :: "string \<Rightarrow> u16 \<Rightarrow> 's \<Rightarrow> 's legacy_radar" where
  "legacy_make_radar a p s =
     \<lparr>lr_client = legacy_make_client a p s, lr_running = False, lr_send_radar_data = False,
      lr_fft_callback = False, lr_navigation_callback = False, lr_configuration_callback = False,
      lr_encoder_size = 0, lr_bin_size = 0, lr_range_in_bins = 0, lr_azimuth_samples = 0,
      lr_expected_rotation_rate = 0, lr_events = []\<rparr>"

definition legacy_set_fft_callback :: "bool \<Rightarrow> 's legacy_radar \<Rightarrow> 's legacy_radar" where
  "legacy_set_fft_callback fn r = r\<lparr>lr_fft_callback := fn\<rparr>"

definition legacy_set_navigation_callback :: "bool \<Rightarrow> 's legacy_radar \<Rightarrow> 's legacy_radar" where
  "legacy_set_navigation_callback fn r = r\<lparr>lr_navigation_callback := fn\<rparr>"

definition legacy_set_configuration_callback :: "bool \<Rightarrow> 's legacy_radar \<Rightarrow> 's legacy_radar" where
  "legacy_set_configuration_callback fn r = r\<lparr>lr_configuration_callback := fn\<rparr>"

definition legacy_start_radar :: "'s legacy_radar \<Rightarrow> 's legacy_radar" where
  "legacy_start_radar r =
     (if lr_running r then r
      else r\<lparr>lr_client := legacy_start (legacy_set_receive_data_callback True (lr_client r)), lr_running := True\<rparr>)"

definition legacy_stop_radar :: "'s os_calls \<Rightarrow> 's legacy_radar \<Rightarrow> 's legacy_radar" where
  "legacy_stop_radar os r =
     (if \<not> lr_running r then r else r\<lparr>lr_running := False, lr_client := legacy_stop os (lr_client r)\<rparr>)"

section \<open>Commands\<close>

definition legacy_connected :: "'s legacy_radar \<Rightarrow> bool" where
  "legacy_connected r \<longleftrightarrow> legacy_connection_state (lr_client r) = Connected"

text \<open>The header on the stack is initialised before it is used; what it held does not matter.\<close>

definition zeroed_header :: ndm_header where
  "zeroed_header = \<lparr>ndm_signature = [], ndm_version = 0, messageid = 0, payloadsize = 0\<rparr>"

definition legacy_send_message :: "'s os_calls \<Rightarrow> network_message \<Rightarrow> 's legacy_radar \<Rightarrow> 's legacy_radar" where
  "legacy_send_message os m r = r\<lparr>lr_client := legacy_send os (message_data m) (lr_client r)\<rparr>"

definition legacy_send_simple :: "'s os_calls \<Rightarrow> cndp_type \<Rightarrow> 's legacy_radar \<Rightarrow> 's legacy_radar" where
  "legacy_send_simple os t r =
     (if \<not> legacy_connected r then r
      else legacy_send_message os (message_without_payload (set_message_id t (init_header zeroed_header))) r)"

definition legacy_start_fft :: "'s os_calls \<Rightarrow> 's legacy_radar \<Rightarrow> 's legacy_radar" where
  "legacy_start_fft os r = (legacy_send_simple os StartFFTData r)\<lparr>lr_send_radar_data := True\<rparr>"

definition legacy_stop_fft :: "'s os_calls \<Rightarrow> 's legacy_radar \<Rightarrow> 's legacy_radar" where
  "legacy_stop_fft os r = (legacy_send_simple os StopFFTData r)\<lparr>lr_send_radar_data := False\<rparr>"

definition legacy_start_navigation :: "'s os_calls \<Rightarrow> 's legacy_radar \<Rightarrow> 's legacy_radar" where
  "legacy_start_navigation os r = legacy_send_simple os StartNavData r"

definition legacy_stop_navigation :: "'s os_calls \<Rightarrow> 's legacy_radar \<Rightarrow> 's legacy_radar" where
  "legacy_stop_navigation os r = legacy_send_simple os StopNavData r"

definition legacy_set_threshold :: "'s os_calls \<Rightarrow> u16 \<Rightarrow> 's legacy_radar \<Rightarrow> 's legacy_radar" where
  "legacy_set_threshold os thr r =
     (if \<not> legacy_connected r then r
      else legacy_send_message os
        (message_with (set_payload_length 2 (set_message_id SetNavThreshold (init_header zeroed_header)))
          (mem16 (ntohs thr))) r)"

text \<open>\<open>static_cast<uint32_t>(gain * RANGEMULTIPLIER)\<close>; the multiplier is converted to \<open>float\<close>.\<close>

definition legacy_set_gain_and_offset :: "'s os_calls \<Rightarrow> float32 \<Rightarrow> float32 \<Rightarrow> 's legacy_radar \<Rightarrow> 's legacy_radar option" where
  "legacy_set_gain_and_offset os g ofs r =
     (if \<not> legacy_connected r then Some r
      else do {
        g' \<leftarrow> f32_to_u32 (f32_mul g range_multiplier);
        ofs' \<leftarrow> f32_to_u32 (f32_mul ofs range_multiplier);
        Some (legacy_send_message os
          (message_with (set_payload_length (4 + 4) (set_message_id SetNavRangeOffsetAndGain (init_header zeroed_header)))
            (mem32 (htonl g') @ mem32 (htonl ofs'))) r) })"

definition legacy_update_contour :: "'s os_calls \<Rightarrow> byte list \<Rightarrow> 's legacy_radar \<Rightarrow> 's legacy_radar option" where
  "legacy_update_contour os contour_data r =
     (if \<not> legacy_connected r then Some r
      else do {
        contour \<leftarrow> (if length contour_data = 720
          then contour_scale (f64_div (f64_of_int (uint (lr_bin_size r))) (f64_of_int 10000)) contour_data
          else Some []);
        Some (legacy_send_message os
          (message_with (set_payload_length (of_nat (length contour)) (set_message_id ContourUpdate (init_header zeroed_header)))
            contour) r) })"

section \<open>Handlers\<close>

definition legacy_emit :: "legacy_event \<Rightarrow> 's legacy_radar \<Rightarrow> 's legacy_radar" where
  "legacy_emit e r = r\<lparr>lr_events := lr_events r @ [e]\<rparr>"

definition legacy_angle :: "u16 \<Rightarrow> u16 \<Rightarrow> float32" where
  "legacy_angle az esz = f32_div (f32_mul (f32_of_int (uint az)) (f32_of_int 360)) (f32_of_int (uint esz))"

definition legacy_handle_configuration :: "'s os_calls \<Rightarrow> network_message \<Rightarrow> 's legacy_radar \<Rightarrow> 's legacy_radar option" where
  "legacy_handle_configuration os m r = do {
     bytes \<leftarrow> peek_at 0 (ndm_header_length + configuration_header_length) (message_data m);
     let c = configuration_of_data bytes;
     let r1 = r\<lparr>lr_azimuth_samples := ntohs (azimuthsamples c), lr_bin_size := ntohs (binsize c),
       lr_range_in_bins := ntohs (rangeinbins c), lr_encoder_size := ntohs (encodersize c),
       lr_expected_rotation_rate := ntohs (rotationspeed c) div 1000\<rparr>;
     let r2 = (if lr_send_radar_data r1 then legacy_send_simple os StartFFTData r1 else r1);
     Some (if lr_configuration_callback r2 then legacy_emit (Legacy_configuration
       \<lparr>lg_azimuth_samples = lr_azimuth_samples r2, lg_encoder_size = lr_encoder_size r2, lg_bin_size = lr_bin_size r2,
        lg_range_in_bins = lr_range_in_bins r2, lg_expected_rotation_rate = lr_expected_rotation_rate r2\<rparr>) r2
       else r2) }"

text \<open>The time is reported as it is stored, without conversion from network order.\<close>

definition legacy_handle_fft :: "network_message \<Rightarrow> 's legacy_radar \<Rightarrow> 's legacy_radar option" where
  "legacy_handle_fft m r =
     (if \<not> lr_fft_callback r then Some r
      else do {
        bytes \<leftarrow> peek_at 0 (ndm_header_length + fft_header_length) (message_data m);
        let f = fft_of_data bytes;
        let n = uint (payload_length (cf_header f)) - int fft_header_length;
        content \<leftarrow> (if n < 0 then None
          else peek_at (ndm_header_length + fft_header_length) (nat n) (message_data m));
        Some (legacy_emit (Legacy_fft
          \<lparr>lf_angle = legacy_angle (ntohs (cf_azimuth f)) (lr_encoder_size r), lf_azimuth = ntohs (cf_azimuth f),
           lf_sweep_counter = ntohs (sweepcounter f), lf_ntp_seconds = cf_seconds f,
           lf_ntp_split_seconds = splitseconds f, lf_data = content\<rparr>) r) })"

definition legacy_handle_navigation :: "network_message \<Rightarrow> 's legacy_radar \<Rightarrow> 's legacy_radar option" where
  "legacy_handle_navigation m r =
     (if \<not> lr_navigation_callback r then Some r
      else do {
        az \<leftarrow> peek_at 0 2 (get_payload m);
        secs \<leftarrow> peek_at 2 4 (get_payload m);
        parts \<leftarrow> peek_at 6 4 (get_payload m);
        let n = uint (get_payload_size m) - 10;
        targets \<leftarrow> (if n < 0 then None else peek_at 10 (nat n div 6 * 6) (get_payload m));
        Some (legacy_emit (Legacy_navigation
          \<lparr>ln_angle = legacy_angle (ntohs (load16 az)) (lr_encoder_size r), ln_azimuth = ntohs (load16 az),
           ln_ntp_seconds = ntohl (load32 secs), ln_ntp_split_seconds = ntohl (load32 parts),
           ln_peaks = read_peaks (nat n div 6) targets\<rparr>) r) })"

definition legacy_handle_message :: "'s os_calls \<Rightarrow> network_message \<Rightarrow> 's legacy_radar \<Rightarrow> 's legacy_radar option" where
  "legacy_handle_message os m r =
     (if message_id m = cndp_code Configuration then legacy_handle_configuration os m r
      else if message_id m = cndp_code FFTData then legacy_handle_fft m r
      else if message_id m = cndp_code NavigationData then legacy_handle_navigation m r
      else Some r)"

section \<open>The two generations on the wire\<close>

definition legacy_wrote :: "stream legacy_radar \<Rightarrow> stream legacy_radar \<Rightarrow> byte list \<Rightarrow> bool" where
  "legacy_wrote r r' bytes \<longleftrightarrow>
     sent (lc_env (lr_client r')) = sent (lc_env (lr_client r)) @ bytes \<and> lr_events r' = lr_events r"

lemma legacy_send_stream:
  "legacy_connection_state c = Connected \<Longrightarrow>
    legacy_send stream_os bytes c = c\<lparr>lc_env := (lc_env c)\<lparr>sent := sent (lc_env c) @ bytes\<rparr>\<rparr>"
  by (simp add: legacy_send_def legacy_send_socket_def stream_os_def)

lemma htonl_0 [simp]: "htonl 0 = 0"
  by code_simp

lemma legacy_data_frame:
  "length pl < 2 ^ 32 \<Longrightarrow> n = of_nat (length pl) \<Longrightarrow>
    message_data (message_with (set_payload_length n (set_message_id t (init_header h))) pl) = frame (cndp_code t) pl"
  "message_data (message_without_payload (set_message_id t (init_header h))) = frame (cndp_code t) []"
  by (simp_all add: message_data_def message_with_def message_without_payload_def header_to_data_def frame_def
      set_payload_length_def set_message_id_def init_header_def ndm_signature_same version_def be32_def)

lemma contour_maps_same:
  assumes "legacy_connected l" "is_connected r"
    "rc_bin_size r = f64_div (f64_of_int (uint (lr_bin_size l))) (f64_of_int 10000)"
  shows "legacy_update_contour stream_os cd l = None \<and> update_contour_map stream_os cd r = None \<or>
      (\<exists>l' out. legacy_update_contour stream_os cd l = Some l' \<and> length out \<le> 720 \<and>
        legacy_wrote l l' (frame 50 out) \<and> wrote r (update_contour_map stream_os cd r) (frame 50 out))"
    and "length cd \<noteq> 720 \<Longrightarrow>
      (\<exists>l'. legacy_update_contour stream_os cd l = Some l' \<and> legacy_wrote l l' (frame 50 [])) \<and>
      wrote r (update_contour_map stream_os cd r) (frame 50 [])"
proof -
  have sent: "\<exists>l'. legacy_update_contour stream_os cd l = Some l' \<and> legacy_wrote l l' (frame 50 out)"
      "wrote r (update_contour_map stream_os cd r) (frame 50 out)"
    if "(if length cd = 720 then contour_scale (rc_bin_size r) cd else Some []) = Some out" "length out \<le> 720" for out
    using assms that
    by (cases "length cd = 720"; simp add: wrote_def radar_commands is_connected_def send_client_stream legacy_wrote_def
        legacy_send_message_def legacy_connected_def legacy_send_stream legacy_data_frame legacy_update_contour_def)+
  show "legacy_update_contour stream_os cd l = None \<and> update_contour_map stream_os cd r = None \<or>
      (\<exists>l' out. legacy_update_contour stream_os cd l = Some l' \<and> length out \<le> 720 \<and>
        legacy_wrote l l' (frame 50 out) \<and> wrote r (update_contour_map stream_os cd r) (frame 50 out))"
  proof (cases "if length cd = 720 then contour_scale (rc_bin_size r) cd else Some []")
    case None
    then have "length cd = 720" "contour_scale (rc_bin_size r) cd = None" by (auto split: if_splits)
    then show ?thesis using assms by (simp add: legacy_update_contour_def update_contour_map_def)
  next
    case (Some out)
    then have l: "length out \<le> 720" using contour_scale_length [of "rc_bin_size r" cd out] by (auto split: if_splits)
    show ?thesis using sent [OF Some l] l by blast
  qed
  show "length cd \<noteq> 720 \<Longrightarrow>
      (\<exists>l'. legacy_update_contour stream_os cd l = Some l' \<and> legacy_wrote l l' (frame 50 [])) \<and>
      wrote r (update_contour_map stream_os cd r) (frame 50 [])"
    using sent [of "[]"] by simp
qed


definition connected_legacy :: "stream legacy_radar" where
  "connected_legacy = (legacy_make_radar ''127.0.0.1'' 6317 sample_stream)
     \<lparr>lr_client := (legacy_on_stream [])\<lparr>lc_state := Connected\<rparr>\<rparr>"


lemma fft_of_frame:
  "fft_of_data (frame c (fft_image h @ bs)) = \<lparr>cf_header = header_of_data (frame c (fft_image h @ bs)),
     fftdataoffset = data_offset h, sweepcounter = sweep h, cf_azimuth = azi h, cf_seconds = seconds h,
     splitseconds = split_seconds h\<rparr>"
proof -
  define top where "top = signature @ [version, c] @ be32 (int (length (fft_image h @ bs)))"
  have "frame c (fft_image h @ bs) = top @ fft_image h @ bs" "length top = 22"
    by (simp_all add: top_def frame_def)
  then have "drop n (frame c (fft_image h @ bs)) = drop (n - 22) (fft_image h @ bs)" if "22 \<le> n" for n
    using that by simp
  then show ?thesis by (simp add: fft_of_data_def fft_image_def)
qed

lemma fft_of_prefix: "fft_of_data (take 36 bytes) = fft_of_data bytes"
  by (simp add: fft_of_data_def header_of_data_def drop_take)

text \<open>
  C18: from one FFT data message both generations report the same azimuth, sweep counter, time and
  bytes to their callbacks, the time in both as it is stored on the wire, and the same angle (in
  the successor widened to \<open>double\<close>).
\<close>

theorem generations_report_the_same:
  assumes "lr_fft_callback l" "cb_fft (callbacks r)" "\<not> cb_raw_fft (callbacks r)"
    "lr_encoder_size l = rc_encoder_size r" "length bs < 900000"
    "bytes = frame 30 (fft_image h @ bs)" "m = message_with (header_of_data bytes) (fft_image h @ bs)"
  shows "\<exists>f e. legacy_handle_message los m l = Some (legacy_emit (Legacy_fft f) l) \<and>
    handle_message os pb bytes r = Some (r\<lparr>events := events r @ [Fft_event e]\<rparr>) \<and>
    f_azimuth e = lf_azimuth f \<and> f_sweep_counter e = lf_sweep_counter f \<and> f_data e = lf_data f \<and> lf_data f = bs \<and>
    f_angle e = f64_of_f32 (lf_angle f) \<and>
    f_ntp_seconds e = seconds h \<and> lf_ntp_seconds f = seconds h \<and>
    f_ntp_split_seconds e = split_seconds h \<and> lf_ntp_split_seconds f = split_seconds h"
proof -
  let ?pl = "fft_image h @ bs"
  have len: "length ?pl = 14 + length bs" by (simp add: fft_view.image_size fft_size_def)
  have data: "message_data m = bytes"
    using header_frame [of "header_of_data bytes" 30 ?pl]
    by (simp add: assms(6,7) message_data_def message_with_def header_of_frame ndm_signature_same payload_length_def)
  have id: "message_id m = 30" by (simp add: assms(6,7) message_id_def message_with_def header_of_frame)
  have small: "k < 1000000 \<Longrightarrow> uint (of_nat k :: u32) = int k" for k
    by (simp add: unsigned_of_nat take_bit_nat_eq_self)
  have size: "uint (payload_length (header_of_data bytes)) = int (length ?pl)"
    using small [of "length ?pl"] len assms(5)
    by (simp only: assms(6) header_of_frame payload_length_def ndm_header.simps ntohl_htonl)
  have head: "peek_at 0 36 bytes = Some (take 36 bytes)" using len by (simp add: peek_at_def assms(6))
  have body: "peek_at 36 (length bs) bytes = Some bs"
    using peek_at_mid [of "signature @ [version, 30] @ be32 (int (length ?pl)) @ fft_image h" bs "[]"]
    by (simp add: assms(6) frame_def fft_view.image_size fft_size_def)
  have overlay: "fft_of_data (take 36 bytes) = \<lparr>cf_header = header_of_data bytes,
     fftdataoffset = data_offset h, sweepcounter = sweep h, cf_azimuth = azi h, cf_seconds = seconds h,
     splitseconds = split_seconds h\<rparr>"
    unfolding fft_of_prefix unfolding assms(6) by (rule fft_of_frame)
  define f where "f = \<lparr>lf_angle = legacy_angle (ntohs (azi h)) (lr_encoder_size l), lf_azimuth = ntohs (azi h),
    lf_sweep_counter = ntohs (sweep h), lf_ntp_seconds = seconds h, lf_ntp_split_seconds = split_seconds h,
    lf_data = bs\<rparr>"
  have legacy: "legacy_handle_message los m l = Some (legacy_emit (Legacy_fft f) l)"
    using assms(1) head body size len
    by (simp add: legacy_handle_message_def id legacy_handle_fft_def data ndm_header_length_def fft_header_length_def
        overlay f_def)
  have new: "handle_message os pb bytes r = Some (r\<lparr>events := events r @ [Fft_event (fft_event (rc_encoder_size r) h bs)]\<rparr>)"
    using fft_message_handled [of bs os pb h r] assms(2,3,5,6) by simp
  show ?thesis
    by (intro exI conjI, rule legacy, rule new)
      (simp_all add: f_def assms(4) fft_event_def fft_azimuth_def sweep_counter_def to_uint16_host_def
        azimuth_angle_def legacy_angle_def)
qed

theorem generations_report_the_same_witness:
  "\<exists>f. legacy_handle_message stream_os (message_with (header_of_data (frame 30 (fft_image sample_fft @ [9, 8])))
      (fft_image sample_fft @ [9, 8])) (legacy_set_fft_callback True connected_legacy) =
    Some (legacy_emit (Legacy_fft f) (legacy_set_fft_callback True connected_legacy)) \<and>
    lf_data f = [9, 8] \<and> lf_ntp_seconds f = 4"
proof -
  have "lr_fft_callback (legacy_set_fft_callback True connected_legacy)"
      "cb_fft (callbacks (set_fft_data_callback True idle_radar))"
      "\<not> cb_raw_fft (callbacks (set_fft_data_callback True idle_radar))"
      "lr_encoder_size (legacy_set_fft_callback True connected_legacy) =
        rc_encoder_size (set_fft_data_callback True idle_radar)"
      "length [9 :: byte, 8] < 900000"
    by (simp_all add: legacy_set_fft_callback_def set_fft_data_callback_def connected_legacy_def legacy_make_radar_def
        idle_radar_def make_radar_client_def no_callbacks_def)
  from generations_report_the_same [OF this refl refl, of stream_os sample_fft stream_os sample_protobufs]
  show ?thesis by (auto simp: sample_fft_def)
qed

section \<open>The configuration\<close>

text \<open>
  A configuration message of either generation sets the members from its fields, in whole
  rotations each second, asks for FFT data again when a user wants it, and is reported.
\<close>

theorem legacy_configuration_handled:
  assumes "m = message_with (cfg_header c) (configuration_to_data c @ pb)" "message_id m = 10"
    "length (ndm_signature (cfg_header c)) = 16"
  shows "\<exists>l'. legacy_handle_message stream_os m l = Some l' \<and>
    lr_azimuth_samples l' = ntohs (azimuthsamples c) \<and> lr_encoder_size l' = ntohs (encodersize c) \<and>
    lr_bin_size l' = ntohs (binsize c) \<and> lr_range_in_bins l' = ntohs (rangeinbins c) \<and>
    lr_expected_rotation_rate l' = ntohs (rotationspeed c) div 1000 \<and>
    sent (lc_env (lr_client l')) = sent (lc_env (lr_client l)) @
      (if lr_send_radar_data l \<and> legacy_connected l then frame 21 [] else []) \<and>
    lr_events l' = lr_events l @ (if lr_configuration_callback l then [Legacy_configuration
      \<lparr>lg_azimuth_samples = ntohs (azimuthsamples c), lg_encoder_size = ntohs (encodersize c),
       lg_bin_size = ntohs (binsize c), lg_range_in_bins = ntohs (rangeinbins c),
       lg_expected_rotation_rate = ntohs (rotationspeed c) div 1000\<rparr>] else [])"
proof -
  define bytes where "bytes = take 42 (message_data m)"
  have top: "length (header_to_data (cfg_header c)) = 22" using assms(3) by (simp add: header_to_data_def)
  have head: "peek_at 0 42 (message_data m) = Some bytes"
    using top by (simp add: bytes_def peek_at_def assms(1) message_data_def message_with_def configuration_to_data_def)
  have "drop n (message_data m) = drop (n - 22) (configuration_to_data c @ pb)" if "22 \<le> n" for n
    using that top by (simp add: assms(1) message_data_def message_with_def)
  then have fields: "azimuthsamples (configuration_of_data bytes) = azimuthsamples c"
      "binsize (configuration_of_data bytes) = binsize c" "rangeinbins (configuration_of_data bytes) = rangeinbins c"
      "encodersize (configuration_of_data bytes) = encodersize c"
      "rotationspeed (configuration_of_data bytes) = rotationspeed c"
    by (simp_all add: bytes_def configuration_of_data_def drop_take configuration_to_data_def)
  show ?thesis
    using head fields
    by (auto simp: legacy_handle_message_def assms(2) legacy_handle_configuration_def ndm_header_length_def
        configuration_header_length_def legacy_emit_def legacy_send_simple_def legacy_send_message_def
        legacy_connected_def legacy_send_stream legacy_data_frame Let_def)
qed

end
