(* ===== verification/Ros1_Colraw.thy ===== *)
theory Ros1_Colraw
  imports Radar_Client IEEE_Eval
begin

text \<open>
  \<open>ros1/src/RosToColraw.cpp\<close>: a node that writes the polar images of the radar to files of records,
  each a message of the radar behind 13 bytes of length, type and time stamp.  The clock, the
  parameter server, the answers on the terminal and the arithmetic of \<open>ros::Time\<close> are parameters;
  what is written to a file is an action.
\<close>

section \<open>State\<close>

record ros_time =
  time_sec :: u32
  time_nsec :: u32

text \<open>
  The difference of two times, its value in seconds, and the time of a number of seconds.  The
  library throws (\<open>None\<close>) when a result does not fit.
\<close>

record ros_duration =
  dur_sec :: u32
  dur_nsec :: u32

record time_lib =
  time_minus :: "ros_time \<Rightarrow> ros_time \<Rightarrow> ros_duration option"
  to_sec :: "ros_duration \<Rightarrow> float64"
  time_of_seconds :: "float64 \<Rightarrow> ros_time option"

record colraw_params =
  cp_range_res :: float32
  cp_range_in_bins :: u16
  cp_azimuths :: u16
  cp_encoder_size :: u16
  cp_rotation_speed :: u16
  cp_packet_rate :: u16
  cp_range_gain :: float32
  cp_range_offset :: float32

record colraw_state =
  cw_params :: colraw_params
  cw_begin :: ros_time
  previousticks :: u64
  previoustime :: ros_time
  cw_sweep_counter :: u16
  filename :: string
  firstpass :: bool

datatype file_action = Write_file string "byte list" | Append_file string "byte list"

text \<open>The local time, printed as 14 digits, is an argument.\<close>

definition set_filename :: "string \<Rightarrow> string" where
  "set_filename digits = ''Ride1_1_'' @ digits @ ''_group1.colraw''"

definition footprint :: "byte list" where
  "footprint = [0x00, 0x01, 0x03, 0x03, 0x07, 0x07, 0x0f, 0x0f, 0x1f, 0x1f, 0x3f, 0x3f, 0x7f, 0x7f, 0xfe, 0xfe]"

section \<open>The configuration record\<close>

definition config_record :: "colraw_params \<Rightarrow> byte list option" where
  "config_record p = do {
     bin_size \<leftarrow> f32_to_u16 (f32_mul (cp_range_res p) (f32_of_int 10000));
     Some (mem32 42 @ [10] @ mem32 (htonl 0) @ mem32 25903964 @ footprint @ [1] @ [10] @ mem32 (htonl 20) @
       mem16 (htons (cp_azimuths p)) @ mem16 (htons bin_size) @ mem16 (htons (cp_range_in_bins p)) @
       mem16 (htons (cp_encoder_size p)) @ mem16 (htons (cp_rotation_speed p)) @ mem16 (htons (cp_packet_rate p)) @
       mem32 (htonl (bits32 (cp_range_gain p))) @ mem32 (htonl (bits32 (cp_range_offset p)))) }"

text \<open>The file is opened for writing from its beginning; when it cannot be opened nothing is written.\<close>

definition write_config_to_file :: "bool \<Rightarrow> colraw_state \<Rightarrow> file_action list option" where
  "write_config_to_file opens s = do {
     bytes \<leftarrow> config_record (cw_params s);
     Some (if opens then [Write_file (filename s) bytes] else []) }"

section \<open>The parameters\<close>

text \<open>
  What an extraction from the terminal would store for a real number and for a 16-bit number, and
  whether it succeeds.  When the terminal has no more to read the program asks for ever (\<open>None\<close>).
\<close>

record answer =
  as_float :: "float32 \<times> bool"
  as_u16 :: "u16 \<times> bool"

record param_server =
  server_range_res :: "float32 option"
  server_azimuths :: "int option"
  server_range_in_bins :: "int option"

definition ask ::
    "(answer list \<Rightarrow> colraw_params \<Rightarrow> (answer list \<times> colraw_params) option) \<Rightarrow> (answer \<Rightarrow> 'v \<times> bool) \<Rightarrow>
     ('v \<Rightarrow> colraw_params \<Rightarrow> colraw_params) \<Rightarrow> answer list \<times> colraw_params \<Rightarrow> (answer list \<times> colraw_params) option" where
  "ask again read store = (\<lambda>(answers, p). case answers of
       [] \<Rightarrow> None
     | a # rest \<Rightarrow>
         (let (v, success) = read a; p' = store v p in if success then Some (rest, p') else again rest p'))"

text \<open>
  The function calls itself after an answer it cannot read, and then goes on where it was.  The
  first argument bounds the depth of these calls; each one has used up an answer.
\<close>

fun set_params :: "nat \<Rightarrow> param_server \<Rightarrow> answer list \<Rightarrow> colraw_params \<Rightarrow> (answer list \<times> colraw_params) option" where
  "set_params 0 server answers p = None"
| "set_params (Suc depth) server answers p = do {
     let again = set_params depth server;
     x1 \<leftarrow> (case server_range_res server of
        Some v \<Rightarrow> Some (answers, p\<lparr>cp_range_res := v\<rparr>)
      | None \<Rightarrow> ask again as_float (\<lambda>v p. p\<lparr>cp_range_res := v\<rparr>) (answers, p));
     x2 \<leftarrow> (case server_azimuths server of
        Some v \<Rightarrow> Some (fst x1, (snd x1)\<lparr>cp_azimuths := word_of_int v\<rparr>)
      | None \<Rightarrow> ask again as_u16 (\<lambda>v p. p\<lparr>cp_azimuths := v\<rparr>) x1);
     x3 \<leftarrow> (case server_range_in_bins server of
        Some v \<Rightarrow> Some (fst x2, (snd x2)\<lparr>cp_range_in_bins := word_of_int v\<rparr>)
      | None \<Rightarrow> ask again as_u16 (\<lambda>v p. p\<lparr>cp_range_in_bins := v\<rparr>) x2);
     x4 \<leftarrow> ask again as_u16 (\<lambda>v p. p\<lparr>cp_encoder_size := v\<rparr>) x3;
     x5 \<leftarrow> ask again as_u16 (\<lambda>v p. p\<lparr>cp_rotation_speed := v\<rparr>) x4;
     (rest, q) \<leftarrow> ask again as_u16 (\<lambda>v p. p\<lparr>cp_packet_rate := v\<rparr>) x5;
     Some (rest, q\<lparr>cp_range_gain := f32_of_rat (99964375 / 100000000),
       cp_range_offset := f32_of_rat (- 311984064 / 1000000000)\<rparr>) }"

section \<open>The data records\<close>

definition bswap64 :: "u64 \<Rightarrow> u64" where
  "bswap64 w = load64 (rev (mem64 w))"

text \<open>
  The divisor \<open>azimuths * rotation_speed\<close> is computed as an \<open>int\<close>: an overflow and a division by
  zero are undefined.
\<close>

definition tick_divisor :: "colraw_params \<Rightarrow> int option" where
  "tick_divisor p =
     (let d = uint (cp_azimuths p) * uint (cp_rotation_speed p) in if d = 0 \<or> 2 ^ 31 \<le> d then None else Some d)"

definition ticks_of :: "int \<Rightarrow> int \<Rightarrow> u64" where
  "ticks_of n d = of_int (n * 10 * 1000000000 div d)"

text \<open>Top and bottom half of the time stamp, as the code computes them.\<close>

definition top_bytes :: "u64 \<Rightarrow> byte list" where
  "top_bytes ticks = mem32 (htonl (of_int (uint (and (bswap64 ticks) 0xFFFFFFFF00000000))))"

definition bottom_bytes :: "u64 \<Rightarrow> byte list" where
  "bottom_bytes ticks = mem32 (htonl (of_int (uint (drop_bit 32 (bswap64 ticks)))))"

text \<open>The column of an azimuth, one byte for each bin; an image is its rows.\<close>

definition image_column :: "byte list list \<Rightarrow> nat \<Rightarrow> nat \<Rightarrow> byte list option" where
  "image_column img bins az = those (map (\<lambda>bin. Option.bind (nth_opt img bin) (\<lambda>row. nth_opt row az)) [0..<bins])"

definition data_record ::
    "colraw_params \<Rightarrow> u64 \<Rightarrow> u16 \<Rightarrow> u32 \<Rightarrow> u32 \<Rightarrow> byte list list \<Rightarrow> nat \<Rightarrow> byte list option" where
  "data_record p ticks sweep_count secs nsecs img az = do {
     samples \<leftarrow> image_column img (unat (cp_range_in_bins p)) az;
     let payload_size = of_int (uint (cp_range_in_bins p) + 14);
     let azimuth_for_writing = of_nat (az * 14);
     Some (mem32 (of_int (14 + uint (cp_range_in_bins p) + 22)) @ [30] @ top_bytes ticks @ bottom_bytes ticks @
       footprint @ [1] @ [30] @ mem32 (htonl payload_size) @
       mem16 (htons 14) @ mem16 (htons sweep_count) @ mem16 (htons azimuth_for_writing) @ mem32 secs @ mem32 nsecs @ samples) }"

text \<open>
  One turn of the loop over the azimuths: the state's sweep counter and the record of the azimuth.
\<close>

definition azimuth_time :: "time_lib \<Rightarrow> colraw_params \<Rightarrow> ros_time \<Rightarrow> ros_time \<Rightarrow> nat \<Rightarrow> ros_duration option" where
  "azimuth_time lib p now previous az = do {
     elapsed \<leftarrow> time_minus lib now previous;
     let n = uint (cp_azimuths p);
     back \<leftarrow> time_of_seconds lib
       (f64_div (f64_mul (f64_of_int (n - 1 - int az)) (to_sec lib elapsed)) (f64_of_int n));
     time_minus lib now back }"

definition write_azimuth ::
    "bool \<Rightarrow> time_lib \<Rightarrow> byte list list \<Rightarrow> ros_time \<Rightarrow> u64 \<Rightarrow> int \<Rightarrow> nat \<Rightarrow> colraw_state \<Rightarrow> (colraw_state \<times> file_action list) option" where
  "write_azimuth opens lib img now currenttick d az s = do {
     t \<leftarrow> azimuth_time lib (cw_params s) now (previoustime s) az;
     bytes \<leftarrow> data_record (cw_params s) (currenttick + ticks_of (int az) d) (cw_sweep_counter s) (dur_sec t) (dur_nsec t) img az;
     Some (s\<lparr>cw_sweep_counter := if cw_sweep_counter s < 65535 then cw_sweep_counter s + 1 else 0\<rparr>,
       if opens then [Append_file (filename s) bytes] else []) }"

fun write_azimuths ::
    "bool \<Rightarrow> time_lib \<Rightarrow> byte list list \<Rightarrow> ros_time \<Rightarrow> u64 \<Rightarrow> int \<Rightarrow> nat list \<Rightarrow> colraw_state \<Rightarrow> (colraw_state \<times> file_action list) option" where
  "write_azimuths opens lib img now tick d [] s = Some (s, [])"
| "write_azimuths opens lib img now tick d (az # azs) s = do {
     (s1, acts1) \<leftarrow> write_azimuth opens lib img now tick d az s;
     (s2, acts2) \<leftarrow> write_azimuths opens lib img now tick d azs s1;
     Some (s2, acts1 @ acts2) }"

text \<open>
  The handler: \<open>clock\<close> is \<open>ros::Time::now()\<close>, \<open>digits\<close> the time for a new file's name and \<open>stamp\<close>
  the time stamp of the image.  (The flag to ignore the stamp is never set.)
\<close>

definition data_handler ::
    "bool \<Rightarrow> time_lib \<Rightarrow> ros_time \<Rightarrow> string \<Rightarrow> ros_time \<Rightarrow> byte list list \<Rightarrow> colraw_state \<Rightarrow> (colraw_state \<times> file_action list) option" where
  "data_handler opens lib clock digits stamp img s = do {
     d \<leftarrow> tick_divisor (cw_params s);
     if firstpass s then
       (let t = (if time_sec stamp = 0 then clock else stamp) in
        Some (s\<lparr>firstpass := False, cw_begin := t, previoustime := t,
          previousticks := 36530730 - of_int (10 * 100000000 div d)\<rparr>, []))
     else do {
       let now = (if time_sec stamp = 0 then clock else stamp);
       sofar \<leftarrow> time_minus lib now (cw_begin s);
       (s1, acts1) \<leftarrow> (if f64_less (f64_of_int 60000) (to_sec lib sofar) then do {
            let s' = s\<lparr>cw_begin := now, filename := set_filename digits\<rparr>;
            acts \<leftarrow> write_config_to_file opens s';
            Some (s', acts) }
          else Some (s, []));
       let currenttick = previousticks s1 + ticks_of 1 d;
       (s2, acts2) \<leftarrow> write_azimuths opens lib img now currenttick d [0..<unat (cp_azimuths (cw_params s1))] s1;
       Some (s2\<lparr>previousticks := currenttick + ticks_of (uint (cp_azimuths (cw_params s1)) - 1) d, previoustime := now\<rparr>,
         acts1 @ acts2) } }"

text \<open>\<open>main\<close>: the parameters, the first file, the configuration record.\<close>

definition start_colraw :: "nat \<Rightarrow> param_server \<Rightarrow> answer list \<Rightarrow> string \<Rightarrow> bool \<Rightarrow> colraw_state \<Rightarrow> (colraw_state \<times> file_action list) option" where
  "start_colraw depth server answers digits opens s = do {
     (rest, p) \<leftarrow> set_params depth server answers (cw_params s);
     let s1 = s\<lparr>cw_params := p, filename := set_filename digits\<rparr>;
     acts \<leftarrow> write_config_to_file opens s1;
     Some (s1, acts) }"

section \<open>The records are messages\<close>

definition record_of :: "byte \<Rightarrow> byte list \<Rightarrow> byte list \<Rightarrow> byte list" where
  "record_of c stamp msg = mem32 (of_nat (length msg)) @ [c] @ stamp @ msg"

definition fft_header_of :: "u16 \<Rightarrow> nat \<Rightarrow> u32 \<Rightarrow> u32 \<Rightarrow> fft_hdr" where
  "fft_header_of sweep_count az secs nsecs =
     \<lparr>data_offset = htons 14, sweep = htons sweep_count, azi = htons (of_nat (az * 14)),
      seconds = secs, split_seconds = nsecs\<rparr>"

lemma footprint_signature: "footprint = signature" "version = 1"
  by (simp_all add: footprint_def signature_def version_def)

lemma top_bytes_zero: "top_bytes ticks = [0, 0, 0, 0]"
proof -
  let ?w = "and (bswap64 ticks) (0xFFFFFFFF00000000 :: u64)"
  have "take_bit 32 (uint ?w) = 0"
    by (simp add: uint_and flip: take_bit_eq_mod)
  then have "uint ?w mod 2 ^ 32 = 0" by (simp add: take_bit_eq_mod)
  then have "uint (of_int (uint ?w) :: u32) = 0" by (simp only: uint_word_of_int) simp
  then have "(of_int (uint ?w) :: u32) = 0" by (simp only: uint_0_iff)
  then show ?thesis unfolding top_bytes_def mem_htonl by (simp add: mem32_def numeral_eq_Suc)
qed

lemma column_length: "image_column img bins az = Some samples \<Longrightarrow> length samples = bins"
proof -
  have "those xs = Some ys \<Longrightarrow> length ys = length xs" for xs :: "byte option list" and ys
    by (induction xs arbitrary: ys) (auto split: option.splits)
  then show "image_column img bins az = Some samples \<Longrightarrow> length samples = bins"
    unfolding image_column_def by fastforce
qed

lemma data_record_is_message:
  "data_record p ticks sweep_count secs nsecs img az = Some bytes \<longleftrightarrow>
   (\<exists>samples. image_column img (unat (cp_range_in_bins p)) az = Some samples \<and>
     bytes = record_of 30 ([0, 0, 0, 0] @ bottom_bytes ticks) (frame 30 (fft_image (fft_header_of sweep_count az secs nsecs) @ samples)))"
  by (auto simp: data_record_def Let_def record_of_def fft_image_def fft_header_of_def frame_def be32_def footprint_signature top_bytes_zero
     ac_simps dest!: column_length split: Option.bind_splits)

section \<open>Reading a file back\<close>

function read_records :: "byte list \<Rightarrow> byte list list option" where
  "read_records bs =
     (if bs = [] then Some []
      else if length bs < 13 then None
      else (let n = unat (load32 (take 4 bs)) in
        if length bs < 13 + n then None
        else map_option (Cons (take n (drop 13 bs))) (read_records (drop (13 + n) bs))))"
  by auto
termination by (relation "measure length") auto

declare read_records.simps [simp del]

lemma read_records_Nil [simp]: "read_records [] = Some []"
  by (simp add: read_records.simps)

lemma read_records_record [simp]:
  assumes "length msg < 2 ^ 32" "length stamp = 8"
  shows "read_records (record_of c stamp msg @ rest) = map_option (Cons msg) (read_records rest)"
proof -
  have "unat (of_nat (length msg) :: u32) = length msg"
    using assms by (simp add: unsigned_of_nat take_bit_nat_eq_self)
  moreover have "drop (13 + n) (record_of c stamp msg @ rest) = drop n (msg @ rest)" for n
    using assms drop_drop [of n 13 "record_of c stamp msg @ rest"] by (simp add: record_of_def add.commute)
  moreover from this [of 0] have "drop 13 (record_of c stamp msg @ rest) = msg @ rest" by simp
  moreover have "take 4 (record_of c stamp msg @ rest) = mem32 (of_nat (length msg))"
    "length (record_of c stamp msg @ rest) = 13 + length msg + length rest"
    using assms by (simp_all add: record_of_def)
  moreover from this(2) have "record_of c stamp msg @ rest \<noteq> []" by (metis list.size(3) add_is_0 zero_neq_numeral)
  ultimately show ?thesis
    by (subst read_records.simps) (simp add: Let_def)
qed

lemma read_records_append:
  "read_records xs = Some msgs \<Longrightarrow> read_records (xs @ ys) = map_option ((@) msgs) (read_records ys)"
proof (induction xs arbitrary: msgs rule: read_records.induct)
  case (1 bs)
  show ?case
  proof (cases "bs = []")
    case False
    let ?n = "unat (load32 (take 4 bs))"
    have *: "13 \<le> length bs" "13 + ?n \<le> length bs"
      using "1.prems" False by (auto simp: read_records.simps [of bs] Let_def split: if_splits)
    obtain more where more: "read_records (drop (13 + ?n) bs) = Some more" "msgs = take ?n (drop 13 bs) # more"
      using "1.prems" False by (auto simp: read_records.simps [of bs] Let_def split: if_splits)
    have "read_records (drop (13 + ?n) bs @ ys) = map_option ((@) more) (read_records ys)"
      using "1.IH" [OF False _ refl _ more(1)] * by simp
    then show ?thesis
      using False * more(2)
      by (subst read_records.simps) (cases "read_records ys"; simp add: Let_def)
  qed (use "1.prems" in \<open>cases "read_records ys"; simp\<close>)
qed

section \<open>The files\<close>

text \<open>What opening a file for writing or appending, writing and closing it does to the files.\<close>

fun run_action :: "file_action \<Rightarrow> (string \<Rightarrow> byte list) \<Rightarrow> (string \<Rightarrow> byte list)" where
  "run_action (Write_file f bs) fs = fs(f := bs)"
| "run_action (Append_file f bs) fs = fs(f := fs f @ bs)"

definition run_actions :: "file_action list \<Rightarrow> (string \<Rightarrow> byte list) \<Rightarrow> (string \<Rightarrow> byte list)" where
  "run_actions acts fs = fold run_action acts fs"

text \<open>The messages of an image, for the azimuths of a list.\<close>

fun image_messages ::
    "time_lib \<Rightarrow> colraw_params \<Rightarrow> ros_time \<Rightarrow> ros_time \<Rightarrow> byte list list \<Rightarrow> nat list \<Rightarrow> u16 \<Rightarrow> byte list list option" where
  "image_messages lib p now previous img [] count = Some []"
| "image_messages lib p now previous img (az # azs) count = do {
     t \<leftarrow> azimuth_time lib p now previous az;
     samples \<leftarrow> image_column img (unat (cp_range_in_bins p)) az;
     rest \<leftarrow> image_messages lib p now previous img azs (count + 1);
     Some (frame 30 (fft_image (fft_header_of count az (dur_sec t) (dur_nsec t)) @ samples) # rest) }"

lemma next_sweep: "(if c < 65535 then c + 1 else 0) = (c + 1 :: u16)"
proof (cases "c < 65535")
  case False
  then have "uint c = uint (65535 :: u16)" using uint_bounds [of c] by (simp add: word_less_def)
  then have "c = 65535" by (rule word_uint_eqI)
  then show ?thesis by simp
qed simp

lemma write_azimuths_facts:
  assumes "write_azimuths True lib img now tick d azs s = Some (s', acts)" "read_records (fs (filename s)) = Some old"
  shows "s' = s\<lparr>cw_sweep_counter := cw_sweep_counter s + of_nat (length azs)\<rparr> \<and>
    (\<exists>msgs. image_messages lib (cw_params s) now (previoustime s) img azs (cw_sweep_counter s) = Some msgs \<and>
       read_records (run_actions acts fs (filename s)) = Some (old @ msgs) \<and>
       (\<forall>f. f \<noteq> filename s \<longrightarrow> run_actions acts fs f = fs f))"
  using assms
proof (induction azs arbitrary: s acts fs old)
  case Nil
  then show ?case by (auto simp: run_actions_def)
next
  case (Cons az azs)
  from Cons.prems(1) obtain s1 acts1 acts2 where
    1: "write_azimuth True lib img now tick d az s = Some (s1, acts1)"
    "write_azimuths True lib img now tick d azs s1 = Some (s', acts2)" "acts = acts1 @ acts2"
    by (auto split: Option.bind_splits prod.splits)
  from 1(1) obtain t samples where
    t: "azimuth_time lib (cw_params s) now (previoustime s) az = Some t"
    "image_column img (unat (cp_range_in_bins (cw_params s))) az = Some samples"
    "s1 = s\<lparr>cw_sweep_counter := cw_sweep_counter s + 1\<rparr>"
    "acts1 = [Append_file (filename s) (record_of 30 ([0, 0, 0, 0] @ bottom_bytes (tick + ticks_of (int az) d))
       (frame 30 (fft_image (fft_header_of (cw_sweep_counter s) az (dur_sec t) (dur_nsec t)) @ samples)))]"
    unfolding write_azimuth_def next_sweep
    by (auto simp: data_record_is_message Let_def split: Option.bind_splits)
  let ?m = "frame 30 (fft_image (fft_header_of (cw_sweep_counter s) az (dur_sec t) (dur_nsec t)) @ samples)"
  let ?r = "record_of 30 ([0, 0, 0, 0] @ bottom_bytes (tick + ticks_of (int az) d)) ?m"
  define fs2 where "fs2 = fs(filename s := fs (filename s) @ ?r)"
  have "length ?m < 2 ^ 32"
    using column_length [OF t(2)] unsigned_less [of "cp_range_in_bins (cw_params s)", where ?'a = nat]
    by (simp add: fft_view.image_size fft_size_def)
  then have r: "read_records (fs2 (filename s)) = Some (old @ [?m])"
    using read_records_append [OF Cons.prems(2), of ?r] read_records_record [of ?m _ 30 "[]"]
    by (simp add: bottom_bytes_def fs2_def)
  have run: "run_actions acts fs = run_actions acts2 fs2"
    by (simp add: run_actions_def 1(3) t(4) fs2_def)
  have other: "f \<noteq> filename s \<Longrightarrow> fs2 f = fs f" for f by (simp add: fs2_def)
  show ?case
    using Cons.IH [of s1 acts2 fs2 "old @ [?m]"] 1(2) r t(1,2) other unfolding run by (auto simp: t(3) ac_simps)
qed

text \<open>A new file is due, and the configuration header the first record of a file holds.\<close>

definition split_due :: "time_lib \<Rightarrow> ros_time \<Rightarrow> colraw_state \<Rightarrow> bool" where
  "split_due lib now s = (case time_minus lib now (cw_begin s) of
     Some t \<Rightarrow> f64_less (f64_of_int 60000) (to_sec lib t) | None \<Rightarrow> False)"

definition written_configuration :: "colraw_params \<Rightarrow> u16 \<Rightarrow> configuration_hdr" where
  "written_configuration p bsize =
     \<lparr>azi_samples = htons (cp_azimuths p), bin_sz = htons bsize, range_bins = htons (cp_range_in_bins p),
      encoder_sz = htons (cp_encoder_size p), rotation_spd = htons (cp_rotation_speed p),
      pckt_rate = htons (cp_packet_rate p), gain = htonl (bits32 (cp_range_gain p)),
      offset = htonl (bits32 (cp_range_offset p))\<rparr>"

lemma config_record_is_message:
  "config_record p = map_option (\<lambda>bsize. record_of 10 (mem32 (htonl 0) @ mem32 25903964)
     (frame 10 (configuration_image (written_configuration p bsize))))
     (f32_to_u16 (f32_mul (cp_range_res p) (f32_of_int 10000)))"
  by (auto simp: config_record_def record_of_def frame_def be32_def footprint_signature configuration_image_def
      written_configuration_def map_option_case split: option.splits Option.bind_splits)

lemma read_config_record:
  assumes "write_config_to_file True s = Some acts"
  shows "\<exists>bsize. f32_to_u16 (f32_mul (cp_range_res (cw_params s)) (f32_of_int 10000)) = Some bsize \<and>
     read_records (run_actions acts fs (filename s)) =
       Some [frame 10 (configuration_image (written_configuration (cw_params s) bsize))] \<and>
     (\<forall>f. f \<noteq> filename s \<longrightarrow> run_actions acts fs f = fs f)"
proof -
  obtain bs where bs: "f32_to_u16 (f32_mul (cp_range_res (cw_params s)) (f32_of_int 10000)) = Some bs"
    "acts = [Write_file (filename s) (record_of 10 (mem32 (htonl 0) @ mem32 25903964)
       (frame 10 (configuration_image (written_configuration (cw_params s) bs))))]"
    using assms by (auto simp: write_config_to_file_def config_record_is_message split: Option.bind_splits)
  then show ?thesis
    using read_records_record [of "frame 10 (configuration_image (written_configuration (cw_params s) bs))"
        "mem32 (htonl 0) @ mem32 25903964" 10 "[]"]
    by (simp add: run_actions_def configuration_view.image_size configuration_size_def)
qed

text \<open>
  C21: an image after the first is written as one record for each azimuth, in order: what the file
  held is followed by the messages of the image, or, when a new file is due, the new file holds the
  configuration message and then the messages.  The sweep counter goes on by the number of azimuths
  and no other file changes.
\<close>

theorem colraw_file_grows:
  assumes "data_handler True lib clock digits stamp img s = Some (s', acts)" "\<not> firstpass s"
    and "now = (if time_sec stamp = 0 then clock else stamp)"
    and "read_records (fs (filename s)) = Some old"
  shows "\<exists>msgs. image_messages lib (cw_params s) now (previoustime s) img
       [0..<unat (cp_azimuths (cw_params s))] (cw_sweep_counter s) = Some msgs \<and>
     previoustime s' = now \<and> cw_sweep_counter s' = cw_sweep_counter s + cp_azimuths (cw_params s) \<and>
     (if split_due lib now s
      then filename s' = set_filename digits \<and> (\<exists>bsize. f32_to_u16 (f32_mul (cp_range_res (cw_params s)) (f32_of_int 10000)) = Some bsize \<and>
        read_records (run_actions acts fs (filename s')) =
        Some (frame 10 (configuration_image (written_configuration (cw_params s) bsize)) # msgs))
      else filename s' = filename s \<and> read_records (run_actions acts fs (filename s')) = Some (old @ msgs)) \<and>
     (\<forall>f. f \<noteq> filename s' \<longrightarrow> run_actions acts fs f = fs f)"
proof -
  obtain d sofar s1 acts1 s2 acts2 where
    1: "time_minus lib now (cw_begin s) = Some sofar"
    "(if f64_less (f64_of_int 60000) (to_sec lib sofar)
      then map_option (Pair (s\<lparr>cw_begin := now, filename := set_filename digits\<rparr>))
        (write_config_to_file True (s\<lparr>cw_begin := now, filename := set_filename digits\<rparr>))
      else Some (s, [])) = Some (s1, acts1)"
    and 2: "write_azimuths True lib img now (previousticks s1 + ticks_of 1 d) d
       [0..<unat (cp_azimuths (cw_params s1))] s1 = Some (s2, acts2)"
    and 3: "acts = acts1 @ acts2"
    "s' = s2\<lparr>previousticks := previousticks s1 + ticks_of 1 d + ticks_of (uint (cp_azimuths (cw_params s1)) - 1) d, previoustime := now\<rparr>"
    using assms(1,2) unfolding assms(3)
    by (auto simp: data_handler_def Let_def map_option_case split: Option.bind_splits if_splits prod.splits)
  have run: "run_actions acts fs = run_actions acts2 (run_actions acts1 fs)"
    by (simp add: run_actions_def 3(1))
  show ?thesis
  proof (cases "split_due lib now s")
    case True
    then have s1: "s1 = s\<lparr>cw_begin := now, filename := set_filename digits\<rparr>"
      "write_config_to_file True s1 = Some acts1"
      using 1 by (auto simp: split_due_def)
    then show ?thesis
      using read_config_record [OF s1(2), of fs] write_azimuths_facts [OF 2, of "run_actions acts1 fs"] True
      unfolding run by (auto simp: 3(2))
  next
    case False
    then have s1: "s1 = s" "acts1 = []"
      using 1 by (auto simp: split_due_def)
    then show ?thesis
      using write_azimuths_facts [OF 2, of "run_actions acts1 fs"] assms(4) False
      unfolding run by (auto simp: 3(2) run_actions_def)
  qed
qed

text \<open>
  The file a run starts with holds one configuration message, whose view gives back the
  parameters that were read.
\<close>

theorem colraw_file_starts:
  assumes "start_colraw depth server answers digits True s = Some (s', acts)"
  shows "\<exists>bsize h. read_records (run_actions acts fs (filename s')) = Some [frame 10 (configuration_image h)] \<and>
     filename s' = set_filename digits \<and>
     f32_to_u16 (f32_mul (cp_range_res (cw_params s')) (f32_of_int 10000)) = Some bsize \<and>
     view_configuration (message_of (frame 10 (configuration_image h))) = Some h \<and>
     azimuth_samples h = cp_azimuths (cw_params s') \<and> bin_size h = bsize \<and>
     range_in_bins h = cp_range_in_bins (cw_params s') \<and> encoder_size h = cp_encoder_size (cw_params s') \<and>
     rotation_speed h = cp_rotation_speed (cw_params s') \<and> packet_rate h = cp_packet_rate (cw_params s') \<and>
     range_gain h = cp_range_gain (cw_params s') \<and> range_offset h = cp_range_offset (cw_params s')"
proof -
  obtain q where q: "s' = s\<lparr>cw_params := q, filename := set_filename digits\<rparr>" "write_config_to_file True s' = Some acts"
    using assms by (auto simp: start_colraw_def Let_def split: Option.bind_splits prod.splits)
  then obtain bsize where b: "f32_to_u16 (f32_mul (cp_range_res (cw_params s')) (f32_of_int 10000)) = Some bsize"
    "read_records (run_actions acts fs (filename s')) =
       Some [frame 10 (configuration_image (written_configuration (cw_params s') bsize))]"
    using read_config_record [OF q(2), of fs] by blast
  let ?h = "written_configuration (cw_params s') bsize"
  have "view_configuration (message_of (frame 10 (configuration_image ?h))) = Some ?h"
    using configuration_view.view_frame [of 10 ?h "[]" "message_of (frame 10 (configuration_image ?h))"]
    by (simp add: framed_def message_of_def replace_def view_configuration_def)
  moreover have "F32 (bits32 x) = x" for x by (cases x) simp
  then have "azimuth_samples ?h = cp_azimuths (cw_params s') \<and> bin_size ?h = bsize \<and>
     range_in_bins ?h = cp_range_in_bins (cw_params s') \<and> encoder_size ?h = cp_encoder_size (cw_params s') \<and>
     rotation_speed ?h = cp_rotation_speed (cw_params s') \<and> packet_rate ?h = cp_packet_rate (cw_params s') \<and>
     range_gain ?h = cp_range_gain (cw_params s') \<and> range_offset ?h = cp_range_offset (cw_params s')"
    by (simp add: written_configuration_def azimuth_samples_def bin_size_def range_in_bins_def encoder_size_def
        rotation_speed_def packet_rate_def range_gain_def range_offset_def to_uint16_host_def from_uint32_network_def)
  moreover have "filename s' = set_filename digits" by (simp add: q(1))
  ultimately show ?thesis using b by blast
qed

text \<open>
  Each message written for an image is valid, and its view gives back the sweep counter,
  fourteen times the index of the azimuth, the time of the azimuth, and its bins as the payload.
\<close>

theorem image_message_views:
  assumes "image_messages lib p now previous img azs count = Some msgs"
  shows "length msgs = length azs \<and> (\<forall>i < length azs. \<exists>h t.
     view_fft (message_of (msgs ! i)) = Some h \<and> is_valid (message_of (msgs ! i)) = Some True \<and>
     sweep_counter h = count + of_nat i \<and> fft_azimuth h = of_nat (azs ! i * 14) \<and> fft_data_offset h = 14 \<and>
     azimuth_time lib p now previous (azs ! i) = Some t \<and> fft_ntp_seconds h = dur_sec t \<and>
     fft_ntp_split_seconds h = dur_nsec t \<and>
     protobuf_vector fft_size (message_of (msgs ! i)) = image_column img (unat (cp_range_in_bins p)) (azs ! i))"
  using assms
proof (induction azs arbitrary: count msgs)
  case (Cons az azs)
  obtain t samples rest where 1: "azimuth_time lib p now previous az = Some t"
    "image_column img (unat (cp_range_in_bins p)) az = Some samples"
    "image_messages lib p now previous img azs (count + 1) = Some rest"
    "msgs = frame 30 (fft_image (fft_header_of count az (dur_sec t) (dur_nsec t)) @ samples) # rest"
    using Cons.prems by (auto split: Option.bind_splits)
  let ?h = "fft_header_of count az (dur_sec t) (dur_nsec t)"
  let ?m = "message_of (frame 30 (fft_image ?h @ samples))"
  have f: "framed 30 (fft_image ?h @ samples) ?m" by (simp add: framed_def message_of_def replace_def)
  have len: "length samples < 65536" "length samples = unat (cp_range_in_bins p)"
    using column_length [OF 1(2)] unsigned_less [of "cp_range_in_bins p", where ?'a = nat] by simp_all
  have first: "view_fft ?m = Some ?h" "is_valid ?m = Some True" "protobuf_vector fft_size ?m = Some samples"
    "sweep_counter ?h = count" "fft_azimuth ?h = of_nat (az * 14)" "fft_data_offset ?h = 14"
    "fft_ntp_seconds ?h = dur_sec t" "fft_ntp_split_seconds ?h = dur_nsec t"
    using mod_pos_pos_trivial [of "14 + uint (cp_range_in_bins p)" "2 ^ 32"] uint_bounds [of "cp_range_in_bins p"]
      fft_view.view_frame [OF f] is_valid_framed [OF f] fft_view.payload_frame [OF f] len
    by (simp_all add: view_fft_def fft_view.image_size fft_size_def largest_payload_def sweep_counter_def
        fft_azimuth_def fft_data_offset_def fft_ntp_seconds_def fft_ntp_split_seconds_def fft_header_of_def to_uint16_host_def)
  show ?case
    using Cons.IH [OF 1(3)] 1(1,2) first by (auto simp: 1(4) nth_Cons less_Suc_eq_0_disj split: nat.splits)
qed simp

lemma image_messages_length:
  "image_messages lib p now previous img azs count = Some msgs \<Longrightarrow> length msgs = length azs"
  by (induction azs arbitrary: count msgs) (auto split: Option.bind_splits)

section \<open>The questions\<close>

lemma ask_shrinks:
  assumes "ask again read store (ans, p) = Some (rest, q)"
    and "\<And>r p' rest q. again r p' = Some (rest, q) \<Longrightarrow> length rest \<le> length r"
  shows "length rest \<le> length ans"
  using assms by (fastforce simp: ask_def Let_def split: list.splits prod.splits if_splits)

lemma set_params_shrinks:
  "set_params depth server ans p = Some (rest, q) \<Longrightarrow> length rest \<le> length ans"
proof (induction depth arbitrary: ans p rest q)
  case (Suc depth)
  note shrink = ask_shrinks [where again = "set_params depth server", OF _ Suc.IH]
  from Suc.prems show ?case
    by (auto simp: Let_def split: Option.bind_splits option.splits dest!: shrink)
qed simp

lemma ask_shrinks': "ask (set_params depth server) read store x = Some y \<Longrightarrow> length (fst y) \<le> length (fst x)"
  by (cases x; cases y) (use ask_shrinks set_params_shrinks in fastforce)

lemma ask_cong:
  assumes "\<And>r p. length r < length ans \<Longrightarrow> again r p = again' r p"
  shows "ask again read store (ans, p) = ask again' read store (ans, p)"
  using assms by (auto simp: ask_def Let_def split: list.splits prod.splits)

lemma ask_cong':
  assumes "length (fst x) \<le> length ans" "\<And>r p. length r < length ans \<Longrightarrow> again r p = again' r p"
  shows "ask again read store x = ask again' read store x"
  using ask_cong [of "fst x" again again' read store "snd x"] assms by simp

text \<open>
  The depth allowed for the calls is enough once it exceeds the number of answers left to read: the
  function then does not depend on it.
\<close>

lemma set_params_depth_facts:
  "length ans < m \<Longrightarrow> length ans < n \<Longrightarrow> set_params m server ans p = set_params n server ans p"
proof (induction m arbitrary: n ans p)
  case (Suc m)
  obtain k where n: "n = Suc k" using Suc.prems(2) by (cases n) auto
  have again: "set_params m server r q = set_params k server r q" if "length r < length ans" for r q
    using Suc.IH [of r k q] Suc.prems that n by simp
  note cong = ask_cong' [where ans = ans, OF _ again]
  have shrink: "length (fst y) \<le> length ans"
    if "ask (set_params k server) read store x = Some y" "length (fst x) \<le> length ans"
    for read :: "answer \<Rightarrow> 'v \<times> bool" and store x y
    using ask_shrinks' [OF that(1)] that(2) by simp
  show ?case unfolding n set_params.simps Let_def
    by (intro bind_option_cong) (auto simp: cong split: option.splits dest!: shrink)
qed simp

text \<open>
  The limit on the calls is not a limit of the program: once it exceeds the number of answers the
  parameters that are read do not depend on it.
\<close>

theorem set_params_depth:
  assumes "length ans < m" "length ans < n"
  shows "set_params m server ans p = set_params n server ans p"
  by (rule set_params_depth_facts [OF assms])

definition silent_server :: param_server where
  "silent_server = \<lparr>server_range_res = None, server_azimuths = None, server_range_in_bins = None\<rparr>"

definition no_params :: colraw_params where
  "no_params = \<lparr>cp_range_res = F32 0, cp_range_in_bins = 0, cp_azimuths = 0, cp_encoder_size = 0,
     cp_rotation_speed = 0, cp_packet_rate = 0, cp_range_gain = F32 0, cp_range_offset = F32 0\<rparr>"

definition good :: "u16 \<Rightarrow> answer" where
  "good v = \<lparr>as_float = (F32 (of_int (uint v)), True), as_u16 = (v, True)\<rparr>"

definition bad :: answer where
  "bad = \<lparr>as_float = (F32 0, False), as_u16 = (0, False)\<rparr>"

theorem set_params_depth_witness:
  "set_params 7 silent_server (map good [1, 2, 3, 4, 5, 6]) no_params =
   set_params 100 silent_server (map good [1, 2, 3, 4, 5, 6]) no_params"
  by (rule set_params_depth) simp_all

text \<open>
  When the first answer is rejected, the questions are asked again from the start, and after
  that the five questions that followed the rejected one are asked a second time: the first round
  only fixes the range resolution.
\<close>

theorem rejected_answer_asks_twice:
  assumes "\<not> snd (as_float a0)" "snd (as_float a1)" "list_all (\<lambda>a. snd (as_u16 a)) ([a2, a3, a4, a5, a6] @ [b2, b3, b4, b5, b6])"
    and "length rest + 12 < depth"
  shows "set_params depth silent_server ([a0, a1, a2, a3, a4, a5, a6, b2, b3, b4, b5, b6] @ rest) p =
    Some (rest, \<lparr>cp_range_res = fst (as_float a1), cp_range_in_bins = fst (as_u16 b3), cp_azimuths = fst (as_u16 b2),
      cp_encoder_size = fst (as_u16 b4), cp_rotation_speed = fst (as_u16 b5), cp_packet_rate = fst (as_u16 b6),
      cp_range_gain = f32_of_rat (99964375 / 100000000), cp_range_offset = f32_of_rat (- 311984064 / 1000000000)\<rparr>)"
proof -
  obtain d where d: "depth = Suc (Suc d)" using assms(4) by (cases depth; cases "depth - 1") auto
  obtain r n a e v k g o' where p: "p = \<lparr>cp_range_res = r, cp_range_in_bins = n, cp_azimuths = a, cp_encoder_size = e,
     cp_rotation_speed = v, cp_packet_rate = k, cp_range_gain = g, cp_range_offset = o'\<rparr>"
    by (cases p)
  show ?thesis
    using assms(1-3) by (simp add: d p silent_server_def ask_def Let_def split_beta)
qed

theorem rejected_answer_asks_twice_witness:
  "set_params 20 silent_server ([bad, good 1, good 2, good 3, good 4, good 5, good 6] @ [good 7, good 8, good 9, good 10, good 11]) no_params =
   Some ([], \<lparr>cp_range_res = F32 1, cp_range_in_bins = 8, cp_azimuths = 7, cp_encoder_size = 9, cp_rotation_speed = 10,
     cp_packet_rate = 11, cp_range_gain = f32_of_rat (99964375 / 100000000), cp_range_offset = f32_of_rat (- 311984064 / 1000000000)\<rparr>)"
  using rejected_answer_asks_twice [of bad "good 1" "good 2" "good 3" "good 4" "good 5" "good 6" "good 7" "good 8" "good 9" "good 10" "good 11"
      "[]" 20 no_params]
  by (simp add: bad_def good_def)

section \<open>Witnesses\<close>

definition still_time :: time_lib where
  "still_time = \<lparr>time_minus = (\<lambda>a b. Some \<lparr>dur_sec = time_sec a - time_sec b, dur_nsec = 0\<rparr>),
     to_sec = (\<lambda>_. F64 0), time_of_seconds = (\<lambda>_. Some \<lparr>time_sec = 0, time_nsec = 0\<rparr>)\<rparr>"

definition sample_params :: colraw_params where
  "sample_params = no_params\<lparr>cp_azimuths := 1, cp_rotation_speed := 1, cp_range_in_bins := 2\<rparr>"

definition sample_colraw :: colraw_state where
  "sample_colraw = \<lparr>cw_params = sample_params, cw_begin = \<lparr>time_sec = 0, time_nsec = 0\<rparr>, previousticks = 0,
     previoustime = \<lparr>time_sec = 5, time_nsec = 0\<rparr>, cw_sweep_counter = 65535, filename = ''f'', firstpass = False\<rparr>"

lemma not_late: "\<not> f64_less (f64_of_int 60000) (F64 0)"
proof -
  have "val64 (F64 0) = Fin 0 \<or> val64 (F64 0) = signed_zero False" by (simp add: fp_eval)
  then show ?thesis using val64_of_int [of 60000] by (auto simp: f64_less_def fp_less_def signed_zero_def)
qed

lemma two_bins: "[0..<2] = [0, 1 :: nat]"
  by (simp add: upt_rec)

definition at_second :: "u32 \<Rightarrow> ros_time" where
  "at_second t = \<lparr>time_sec = t, time_nsec = 0\<rparr>"

lemma sample_handled:
  "\<exists>acts. data_handler True still_time (at_second 0) [] (at_second 7) [[10], [20]] sample_colraw =
     Some (sample_colraw\<lparr>cw_sweep_counter := 0, previousticks := 10000000000, previoustime := at_second 7\<rparr>, acts)"
  by (simp add: data_handler_def tick_divisor_def sample_colraw_def sample_params_def no_params_def still_time_def Let_def
     not_late write_azimuth_def azimuth_time_def data_record_def image_column_def nth_opt_def ticks_of_def at_second_def
     two_bins)

lemma sample_facts:
  "unat (cp_azimuths (cw_params sample_colraw)) = 1" "filename sample_colraw = ''f''" "\<not> firstpass sample_colraw"
  "(if time_sec (at_second 7) = 0 then at_second 0 else at_second 7) = at_second 7"
  "\<not> split_due still_time (at_second 7) sample_colraw"
  by (simp_all add: sample_colraw_def sample_params_def at_second_def split_due_def still_time_def not_late)

theorem colraw_file_grows_witness:
  "\<exists>acts msgs. data_handler True still_time (at_second 0) [] (at_second 7) [[10], [20]] sample_colraw =
     Some (sample_colraw\<lparr>cw_sweep_counter := 0, previousticks := 10000000000, previoustime := at_second 7\<rparr>, acts) \<and>
     read_records (run_actions acts (\<lambda>_. []) ''f'') = Some msgs \<and> length msgs = 1"
proof -
  obtain acts where a: "data_handler True still_time (at_second 0) [] (at_second 7) [[10], [20]] sample_colraw =
     Some (sample_colraw\<lparr>cw_sweep_counter := 0, previousticks := 10000000000, previoustime := at_second 7\<rparr>, acts)"
    using sample_handled by blast
  have "read_records ((\<lambda>_. []) (filename sample_colraw)) = Some []" by simp
  from colraw_file_grows [OF a sample_facts(3) sample_facts(4) [symmetric] this] obtain msgs where
    "image_messages still_time (cw_params sample_colraw) (at_second 7) (previoustime sample_colraw) [[10], [20]]
       [0..<unat (cp_azimuths (cw_params sample_colraw))] (cw_sweep_counter sample_colraw) = Some msgs"
    "read_records (run_actions acts (\<lambda>_. []) (filename sample_colraw)) = Some ([] @ msgs)"
    unfolding if_not_P [OF sample_facts(5)] by fastforce
  then show ?thesis
    using a image_messages_length [of still_time "cw_params sample_colraw"] unfolding sample_facts(1,2) by fastforce
qed

theorem image_message_views_witness:
  "\<exists>h. view_fft (message_of (frame 30 (fft_image (fft_header_of 3 2 7 0) @ [10, 20]))) = Some h \<and> fft_azimuth h = 28"
proof -
  have "image_messages still_time sample_params (at_second 7) (at_second 5) [[0, 0, 10], [0, 0, 20]] [2] 3 =
    Some [frame 30 (fft_image (fft_header_of 3 2 7 0) @ [10, 20])]"
    by (simp add: azimuth_time_def still_time_def sample_params_def no_params_def at_second_def image_column_def nth_opt_def
        two_bins)
  from image_message_views [OF this] show ?thesis by fastforce
qed

lemma zero_resolution: "f32_to_u16 (f32_mul (F32 0) (f32_of_int 10000)) = Some 0"
proof -
  have z: "val32 (F32 0) = signed_zero False" by (simp add: fp_eval)
  have m: "f32_mul (F32 0) (f32_of_int 10000) = F32 0"
    using val32_of_int [of 10000] z by (simp add: f32_mul_def fp_mul_def signed_zero_def) (simp add: fp_eval)
  show ?thesis unfolding m by (simp add: f32_to_u16_def z fp_to_int_def signed_zero_def rat_trunc_def Let_def)
qed

theorem colraw_file_starts_witness:
  "\<exists>s acts h. start_colraw 10 silent_server (map good [0, 2, 3, 4, 5, 6]) [] True sample_colraw = Some (s, acts) \<and>
     read_records (run_actions acts (\<lambda>_. []) (filename s)) = Some [frame 10 (configuration_image h)] \<and>
     azimuth_samples h = cp_azimuths (cw_params s)"
proof -
  obtain q rest where "set_params 10 silent_server (map good [0, 2, 3, 4, 5, 6]) (cw_params sample_colraw) = Some (rest, q)"
    "cp_range_res q = F32 0"
    by (simp add: silent_server_def ask_def Let_def good_def numeral_eq_Suc)
  then have "\<exists>s acts. start_colraw 10 silent_server (map good [0, 2, 3, 4, 5, 6]) [] True sample_colraw = Some (s, acts)"
    by (auto simp: start_colraw_def Let_def write_config_to_file_def config_record_is_message zero_resolution)
  then show ?thesis using colraw_file_starts by fastforce
qed

end
