(* ===== verification/Bearing.thy ===== *)
theory Bearing
  imports IEEE_Eval
begin

text \<open>
  The column of an azimuth in an image, as the ROS 1 talker and the ROS 2 video writer compute it:
  the fraction of the encoder, times the number of azimuths, truncated, in \<open>double\<close>.
\<close>

lemma has_val_finite: "has_val x p \<Longrightarrow> x \<noteq> NaN \<and> \<not> is_inf x \<and> fp_val x = p"
  by (cases x) (auto simp: has_val_def)

lemma signed_zero_value: "has_val (signed_zero s) 0 \<and> rep f (signed_zero s)"
  by (simp add: signed_zero_def has_val_def rep_def)

lemma has_val_quotient:
  assumes "has_val x p" "has_val y q" "q \<noteq> 0" "\<bar>rnd f (p / q)\<bar> < 2 powi (bias f + 1)"
  shows "has_val (fp_div f x y) (rnd f (p / q)) \<and> rep f (fp_div f x y)"
  using has_val_finite [OF assms(1)] has_val_finite [OF assms(2)] assms(3) signed_zero_value
    has_val_to_fp [OF assms(4)] rep_to_fp
  by (cases "p = 0") (simp_all add: fp_div_def Let_def)

lemma has_val_product:
  assumes "has_val x p" "has_val y q" "\<bar>rnd f (p * q)\<bar> < 2 powi (bias f + 1)"
  shows "has_val (fp_mul f x y) (rnd f (p * q)) \<and> rep f (fp_mul f x y)"
  using has_val_finite [OF assms(1)] has_val_finite [OF assms(2)] signed_zero_value
    has_val_to_fp [OF assms(3)] rep_to_fp
  by (cases "p = 0 \<or> q = 0") (auto simp: fp_mul_def Let_def)

lemma bearing_value:
  assumes "0 \<le> a" "a < e" "e < 65536" "0 \<le> n" "n < 65536"
  shows "has_val (val64 (f64_mul (f64_div (f64_of_int a) (f64_of_int e)) (f64_of_int n)))
      (rnd b64 (rnd b64 (of_int a / of_int e) * of_int n)) \<and>
    0 \<le> rnd b64 (of_int a / of_int e) \<and> rnd b64 (of_int a / of_int e) \<le> 1"
proof -
  let ?q = "of_int a / of_int e :: rat" let ?x = "rnd b64 ?q"
  have v: "val64 (f64_of_int k) = Fin (of_int k)" if "0 \<le> k" "k < 65536" for k
    using val64_of_int [of k] that by simp
  have x: "0 \<le> ?x" "?x \<le> 1"
    using double.between_int [of 0 ?q 1] assms by simp_all
  then have lim: "\<bar>?x\<bar> < 2 powi (bias b64 + 1)" by (intro b64_limit) simp
  have d: "has_val (val64 (f64_div (f64_of_int a) (f64_of_int e))) ?x"
    using has_val_quotient [of "Fin (of_int a)" "of_int a" "Fin (of_int e)" "of_int e" b64] assms lim
    by (auto simp: f64_div_def v val64_mk64)
  have "0 \<le> ?x * of_int n" "?x * of_int n \<le> of_int n"
    using x assms mult_right_mono [of ?x 1 "of_int n"] by simp_all
  then have "0 \<le> rnd b64 (?x * of_int n)" "rnd b64 (?x * of_int n) \<le> of_int n"
    using double.between_int [of 0 "?x * of_int n" n] assms by simp_all
  moreover have "(of_int n :: rat) \<le> of_int 65536" using assms unfolding of_int_le_iff by simp
  ultimately have "\<bar>rnd b64 (?x * of_int n)\<bar> < 2 powi (bias b64 + 1)" by (intro b64_limit) simp
  from has_val_product [OF d _ this, of "Fin (of_int n)"] show ?thesis
    using x assms by (auto simp: f64_mul_def v val64_mk64)
qed

lemma bearing_error:
  assumes "0 \<le> a" "a < e" "e < 65536" "0 \<le> n" "n < 65536"
  shows "\<bar>rnd b64 (rnd b64 (of_int a / of_int e) * of_int n) - of_int a * of_int n / of_int e\<bar> < 1 / 65536"
proof -
  let ?q = "of_int a / of_int e :: rat" let ?x = "rnd b64 ?q"
  let ?u = "2 powi (- 53) :: rat" and ?v = "2 powi (- 1075) :: rat"
  have v: "?v \<le> ?u" by (rule pow2_mono) simp
  have n: "0 \<le> (of_int n :: rat)" "(of_int n :: rat) \<le> 65536" using assms by simp_all
  have "\<bar>?x - ?q\<bar> \<le> \<bar>?q\<bar> * ?u + ?v" using double.error [of ?q] by simp
  moreover have "\<bar>?q\<bar> * ?u \<le> 1 * ?u" using assms by (intro mult_right_mono) (simp_all add: divide_le_eq)
  ultimately have 1: "\<bar>?x - ?q\<bar> \<le> 2 * ?u" using v by simp
  have "\<bar>?x * of_int n - ?q * of_int n\<bar> = \<bar>?x - ?q\<bar> * of_int n"
    using n abs_mult [of "?x - ?q" "of_int n"] by (simp add: left_diff_distrib)
  also have "\<dots> \<le> 2 * ?u * 65536" using 1 n by (intro mult_mono) simp_all
  finally have 2: "\<bar>?x * of_int n - ?q * of_int n\<bar> \<le> 131072 * ?u" by simp
  have "0 \<le> ?x" "?x \<le> 1" using bearing_value [OF assms] by simp_all
  then have "\<bar>?x * of_int n\<bar> \<le> 65536" using n mult_mono [of ?x 1 "of_int n" 65536] by simp
  then have "\<bar>?x * of_int n\<bar> * ?u \<le> 65536 * ?u" by (intro mult_right_mono) simp_all
  moreover have "\<bar>rnd b64 (?x * of_int n) - ?x * of_int n\<bar> \<le> \<bar>?x * of_int n\<bar> * ?u + ?v"
    using double.error [of "?x * of_int n"] by simp
  ultimately have 3: "\<bar>rnd b64 (?x * of_int n) - ?x * of_int n\<bar> \<le> 65537 * ?u" using v by simp
  have "196609 * ?u < 1 / 65536" by (simp add: powi_numerals)
  moreover have "?q * of_int n = of_int a * of_int n / of_int e" by simp
  ultimately show ?thesis using 2 3 by linarith
qed

lemma bearing_exact:
  assumes "0 \<le> a" "a < e" "e < 65536" "0 \<le> n" "n < 65536"
  shows "\<exists>b. f64_to_int32 (f64_mul (f64_div (f64_of_int a) (f64_of_int e)) (f64_of_int n)) = Some b \<and> 0 \<le> b \<and>
    (b = a * n div e \<or> e dvd a * n \<and> b = a * n div e - 1)"
proof -
  let ?y = "rnd b64 (rnd b64 (of_int a / of_int e) * of_int n)" and ?k = "a * n div e" and ?r = "a * n mod e"
  have e: "0 < e" using assms by simp
  have split: "(of_int a * of_int n / of_int e :: rat) = of_int ?k + of_int ?r / of_int e"
    using e by (simp add: field_simps flip: of_int_mult of_int_add)
  have y0: "0 \<le> ?y"
    using bearing_value [OF assms] assms by (intro double.nonneg) simp
  have small: "1 / 65536 \<le> (1 / of_int e :: rat)" using assms e by (simp add: field_simps)
  have "of_int ?r \<le> (of_int (e - 1) :: rat)" using e pos_mod_bound [of e "a * n"] unfolding of_int_le_iff by linarith
  then have "of_int ?r / of_int e \<le> (1 - 1 / of_int e :: rat)" using e by (simp add: field_simps)
  then have up: "?y < of_int ?k + 1"
    using bearing_error [OF assms] small unfolding split by linarith
  have low: "of_int ?k \<le> ?y \<or> ?r = 0 \<and> of_int ?k - 1 \<le> ?y"
  proof (cases "?r = 0")
    case True
    then show ?thesis using bearing_error [OF assms] unfolding split by auto
  next
    case False
    then have "1 \<le> ?r" using e pos_mod_sign [of e "a * n"] by linarith
    then have "(1 :: rat) \<le> of_int ?r" by simp
    then have "1 / of_int e \<le> (of_int ?r / of_int e :: rat)" using e by (simp add: divide_le_cancel)
    then show ?thesis using bearing_error [OF assms] small unfolding split by linarith
  qed
  have "a * n \<le> e * n" using assms by (intro mult_right_mono) simp_all
  then have "?k \<le> n" using e zdiv_mono1 [of "a * n" "e * n" e] by simp
  then have "?y < 65537" using up assms by (simp add: less_le_trans [of ?y "of_int ?k + 1"])
  then have "rat_trunc ?y = \<lfloor>?y\<rfloor>" "\<lfloor>?y\<rfloor> < 65537" "0 \<le> \<lfloor>?y\<rfloor>"
    using y0 by (simp_all add: rat_trunc_def floor_less_iff)
  then have "f64_to_int32 (f64_mul (f64_div (f64_of_int a) (f64_of_int e)) (f64_of_int n)) = Some \<lfloor>?y\<rfloor>"
    using bearing_value [OF assms] by (simp add: f64_to_int32_def fp_to_int_def has_val_def Let_def)
  moreover have "0 \<le> \<lfloor>?y\<rfloor>" using y0 by simp
  moreover have "\<lfloor>?y\<rfloor> = ?k \<or> ?r = 0 \<and> \<lfloor>?y\<rfloor> = ?k - 1"
    using up low by (auto simp: floor_eq_iff) 
  ultimately show ?thesis by (auto simp: dvd_eq_mod_eq_0)
qed

end
