(* ===== verification/Ros1_Talker.thy ===== *)
theory Ros1_Talker
  imports Legacy_Radar_Client Ros_Node Ros1_Colraw Bearing
begin

text \<open>
  \<open>ros1/src/talker1.cpp\<close>: a node on top of the predecessor SDK that gathers the azimuths of a
  rotation in a polar image and publishes it.  What it publishes, the parameters it sets and the
  command it sends are actions.  The last section puts the recorder of \<open>Ros1_Colraw\<close> behind it.
\<close>

section \<open>The node\<close>

text \<open>
  The image is its rows; a cell outside of it is undefined (\<open>None\<close>), since \<open>cv::Mat::at\<close> does not
  check.  \<open>frame_number\<close> is a \<open>long\<close> counted up once a rotation.  Members that are only written
  (\<open>azimuth_counter\<close>, \<open>_lastRotationReset\<close>, \<open>diff\<close>) and the message that is filled in but not
  published are left out.
\<close>

record talker =
  packet_count :: u16
  tk_last_azimuth :: u16
  frame_number :: int
  polar :: "byte list list"
  check3 :: string
  publish_image :: bool
  tk_range_res :: float32
  tk_range_in_bins :: int
  tk_azimuths :: int
  tk_encoder_size :: int
  tk_bin_size :: int
  tk_expected_rotation_rate :: int

datatype talker_action =
    Publish_polar u32 u32 u32 "byte list list"   \<comment> \<open>sequence number, time and image\<close>
  | Set_ros_param string ros_value
  | Start_fft_data

definition new_talker :: talker where
  "new_talker = \<lparr>packet_count = 0, tk_last_azimuth = 0, frame_number = 0, polar = [], check3 = [],
     publish_image = False, tk_range_res = F32 0, tk_range_in_bins = 0, tk_azimuths = 0, tk_encoder_size = 0,
     tk_bin_size = 0, tk_expected_rotation_rate = 0\<rparr>"

section \<open>FFT data\<close>

definition talker_bearing :: "talker \<Rightarrow> u16 \<Rightarrow> int option" where
  "talker_bearing s az = f64_to_int32 (f64_mul (f64_div (f64_of_int (uint az)) (f64_of_int (tk_encoder_size s)))
     (f64_of_int (tk_azimuths s)))"

fun store_column :: "nat \<Rightarrow> int \<Rightarrow> byte list \<Rightarrow> byte list list \<Rightarrow> byte list list option" where
  "store_column i bearing [] img = Some img"
| "store_column i bearing (x # xs) img = do {
     row \<leftarrow> nth_opt img i;
     row' \<leftarrow> (if bearing < 0 then None else set_opt (nat bearing) x row);
     store_column (Suc i) bearing xs (img[i := row']) }"

definition talker_fft :: "legacy_fft_record \<Rightarrow> talker \<Rightarrow> (talker \<times> talker_action list) option" where
  "talker_fft d s = do {
     let s1 = s\<lparr>packet_count := packet_count s + 1\<rparr>;
     let (s2, acts) = (if lf_azimuth d < tk_last_azimuth s1
       then (s1\<lparr>frame_number := frame_number s1 + 1, packet_count := 0\<rparr>,
         if 2 < frame_number s1 \<and> publish_image s1
         then [Publish_polar (of_int (frame_number s1)) (lf_ntp_seconds d) (lf_ntp_split_seconds d) (polar s1)]
         else [])
       else (s1, []));
     s3 \<leftarrow> (if 2 < frame_number s2 then do {
          bearing \<leftarrow> talker_bearing s2 (lf_azimuth d);
          img \<leftarrow> store_column 0 bearing (lf_data d) (polar s2);
          Some (s2\<lparr>polar := img\<rparr>) }
        else Some s2);
     Some (s3\<lparr>tk_last_azimuth := lf_azimuth d\<rparr>, acts) }"

fun talker_ffts :: "legacy_fft_record list \<Rightarrow> talker \<Rightarrow> (talker \<times> talker_action list) option" where
  "talker_ffts [] s = Some (s, [])"
| "talker_ffts (d # ds) s = do {
     (s1, acts1) \<leftarrow> talker_fft d s;
     (s2, acts2) \<leftarrow> talker_ffts ds s1;
     Some (s2, acts1 @ acts2) }"

section \<open>Configuration\<close>

text \<open>The argument is the value of \<open>/talker1/param3\<close>, when it is set.\<close>

definition talker_configuration ::
    "string option \<Rightarrow> legacy_configuration_record \<Rightarrow> talker \<Rightarrow> talker \<times> talker_action list" where
  "talker_configuration param3 c s =
     (let s1 = s\<lparr>tk_range_res := f32_of_f64 (f64_div (f64_of_int (uint (lg_bin_size c))) (f64_of_int 10000)),
            tk_range_in_bins := uint (lg_range_in_bins c), tk_azimuths := uint (lg_azimuth_samples c),
            tk_encoder_size := uint (lg_encoder_size c), tk_bin_size := uint (lg_bin_size c),
            tk_expected_rotation_rate := uint (lg_expected_rotation_rate c), packet_count := 0, tk_last_azimuth := 0\<rparr>;
          s2 = (case param3 of Some v \<Rightarrow> s1\<lparr>check3 := v\<rparr> | None \<Rightarrow> s1);
          s3 = (if check3 s2 = ''image_on'' then s2\<lparr>publish_image := True\<rparr> else s2)
      in (s3\<lparr>polar := replicate (nat (tk_range_in_bins s3)) (replicate (nat (tk_azimuths s3)) 0)\<rparr>,
          [Set_ros_param ''/configuration_range_res'' (Ros_double (f64_of_f32 (tk_range_res s3))),
           Set_ros_param ''/configuration_azimuths'' (Ros_int (tk_azimuths s3)),
           Set_ros_param ''/configuration_range_in_bins'' (Ros_int (tk_range_in_bins s3)),
           Start_fft_data]))"

text \<open>The events of the client, in order, and the start and the end of \<open>main\<close>.\<close>

definition talker_event :: "string option \<Rightarrow> legacy_event \<Rightarrow> talker \<Rightarrow> (talker \<times> talker_action list) option" where
  "talker_event param3 e s = (case e of
     Legacy_fft d \<Rightarrow> talker_fft d s
   | Legacy_configuration c \<Rightarrow> Some (talker_configuration param3 c s)
   | Legacy_navigation _ \<Rightarrow> Some (s, []))"

definition talker_start :: "'s \<Rightarrow> 's legacy_radar" where
  "talker_start os = legacy_start_radar (legacy_set_configuration_callback True (legacy_set_fft_callback True
     (legacy_make_radar ''192.168.0.1'' 6317 os)))"

definition talker_stop :: "'s os_calls \<Rightarrow> 's legacy_radar \<Rightarrow> 's legacy_radar" where
  "talker_stop os r = legacy_stop_radar os (legacy_set_fft_callback False (legacy_set_configuration_callback False
     (legacy_stop_fft os (legacy_stop_navigation os r))))"

section \<open>The image\<close>

definition shaped :: "nat \<Rightarrow> nat \<Rightarrow> byte list list \<Rightarrow> bool" where
  "shaped n w img \<longleftrightarrow> length img = n \<and> list_all (\<lambda>row. length row = w) img"

lemma shaped_update: "shaped n w img \<Longrightarrow> i < n \<Longrightarrow> length row = w \<Longrightarrow> shaped n w (img[i := row])"
  by (auto simp: shaped_def list_all_length nth_list_update)

lemma store_column_stores:
  assumes "shaped n w img" "0 \<le> b" "b < int w" "i + length xs \<le> n"
  shows "\<exists>img'. store_column i b xs img = Some img' \<and> shaped n w img' \<and>
    (\<forall>r < n. \<forall>c < w. img' ! r ! c = (if int c = b \<and> i \<le> r \<and> r < i + length xs then xs ! (r - i) else img ! r ! c))"
  using assms
proof (induction xs arbitrary: i img)
  case (Cons x xs)
  let ?row = "(img ! i)[nat b := x]"
  have i: "i < length img" "length (img ! i) = w" "i < n"
    using Cons.prems by (auto simp: shaped_def list_all_length)
  from Cons.IH [of "img[i := ?row]" "Suc i"] shaped_update [OF Cons.prems(1) i(3), of ?row] Cons.prems i
  obtain img' where img': "store_column (Suc i) b xs (img[i := ?row]) = Some img'" "shaped n w img'"
    "\<And>r c. r < n \<Longrightarrow> c < w \<Longrightarrow> img' ! r ! c =
       (if int c = b \<and> Suc i \<le> r \<and> r < Suc i + length xs then xs ! (r - Suc i) else img[i := ?row] ! r ! c)"
    by auto
  have "img' ! r ! c = (if int c = b \<and> i \<le> r \<and> r < i + length (x # xs) then (x # xs) ! (r - i) else img ! r ! c)"
    if "r < n" "c < w" for r c
    using img'(3) [OF that] that i Cons.prems(2) by (cases "r = i") (auto simp: nth_Cons' nth_list_update nat_eq_iff)
  then show ?case
    using img'(1,2) i Cons.prems(2,3) by (auto simp: nth_opt_def set_opt_def)
qed auto

lemma store_column_outside:
  assumes "shaped n w img" "xs \<noteq> []" "i \<le> n" "b < 0 \<or> int w \<le> b \<or> n < i + length xs"
  shows "store_column i b xs img = None"
  using assms
proof (induction xs arbitrary: i img)
  case (Cons x xs)
  show ?case
  proof (cases "i < n \<and> 0 \<le> b \<and> b < int w")
    case True
    then have i: "i < length img" "length (img ! i) = w"
      using Cons.prems(1) by (auto simp: shaped_def list_all_length)
    have "xs \<noteq> []" using Cons.prems True by auto
    then show ?thesis
      using Cons.IH [of "img[i := (img ! i)[nat b := x]]" "Suc i"]
        shaped_update [OF Cons.prems(1), of i "(img ! i)[nat b := x]"] Cons.prems True i
      by (auto simp: nth_opt_def set_opt_def)
  next
    case False
    then show ?thesis
      using Cons.prems by (auto simp: nth_opt_def set_opt_def shaped_def list_all_length)
  qed
qed simp

lemma store_column_shaped:
  assumes "store_column i b xs img = Some img'" "shaped n w img" "i \<le> n"
  shows "shaped n w img'"
proof (cases "xs = []")
  case False
  then show ?thesis
    using store_column_outside [OF assms(2) False assms(3)] store_column_stores [OF assms(2), of b i xs] assms(1)
    by fastforce
qed (use assms in simp)

section \<open>What the node keeps\<close>

definition talker_ok :: "talker \<Rightarrow> bool" where
  "talker_ok s \<longleftrightarrow> shaped (nat (tk_range_in_bins s)) (nat (tk_azimuths s)) (polar s) \<and>
     0 \<le> tk_range_in_bins s \<and> 0 \<le> tk_azimuths s \<and> tk_azimuths s < 65536 \<and> 0 \<le> tk_encoder_size s \<and> tk_encoder_size s < 65536"

lemma talker_fft_ok:
  assumes "talker_fft d s = Some (s', acts)" "talker_ok s"
  shows "talker_ok s' \<and> (\<forall>seq secs parts img. Publish_polar seq secs parts img \<in> set acts \<longrightarrow>
     shaped (nat (tk_range_in_bins s)) (nat (tk_azimuths s)) img)"
  using assms store_column_shaped [of 0 _ "lf_data d" "polar s"]
  by (auto simp: talker_fft_def talker_ok_def Let_def split: if_splits Option.bind_splits)

text \<open>
  Whatever the client reports, the image has one row for each bin and one column for each
  azimuth of the last configuration, and so has every image that is published.
\<close>

theorem talker_keeps_image_shape:
  assumes "talker_event param3 e s = Some (s', acts)" "talker_ok s"
  shows "talker_ok s' \<and> (\<forall>seq secs parts img. Publish_polar seq secs parts img \<in> set acts \<longrightarrow>
     shaped (nat (tk_range_in_bins s)) (nat (tk_azimuths s)) img)"
proof (cases e)
  case (Legacy_configuration c)
  have "uint v < 65536" for v :: u16 using uint_bounds [of v] by simp
  then show ?thesis
    using assms Legacy_configuration
    by (auto simp: talker_event_def talker_configuration_def talker_ok_def Let_def shaped_def list_all_iff
        split: option.splits)
qed (use assms talker_fft_ok in \<open>auto simp: talker_event_def\<close>)

definition configured_talker :: talker where
  "configured_talker = fst (talker_configuration (Some ''image_on'')
     \<lparr>lg_azimuth_samples = 4, lg_encoder_size = 8, lg_bin_size = 10000, lg_range_in_bins = 2, lg_expected_rotation_rate = 4\<rparr>
     (new_talker\<lparr>frame_number := 3\<rparr>))"

lemma configured_talker_ok: "talker_ok configured_talker"
  by (simp add: configured_talker_def talker_configuration_def talker_ok_def shaped_def new_talker_def Let_def list_all_iff)

theorem talker_keeps_image_shape_witness:
  "\<exists>s' acts. talker_event None (Legacy_navigation undefined) configured_talker = Some (s', acts) \<and> talker_ok s'"
  using talker_keeps_image_shape [OF _ configured_talker_ok, of None "Legacy_navigation undefined"]
  by (auto simp: talker_event_def)

section \<open>A rotation\<close>

text \<open>A message that fits the configuration, and what the image holds after a list of messages.\<close>

definition fits :: "talker \<Rightarrow> legacy_fft_record \<Rightarrow> bool" where
  "fits s d \<longleftrightarrow> int (length (lf_data d)) = tk_range_in_bins s \<and> uint (lf_azimuth d) < tk_encoder_size s \<and> 0 < tk_azimuths s"

definition gathered :: "talker \<Rightarrow> legacy_fft_record list \<Rightarrow> nat \<Rightarrow> nat \<Rightarrow> byte" where
  "gathered s ds r c = (case find (\<lambda>d. talker_bearing s (lf_azimuth d) = Some (int c)) (rev ds) of
     Some d \<Rightarrow> lf_data d ! r | None \<Rightarrow> polar s ! r ! c)"

lemma talker_bearing_value:
  assumes "talker_ok s" "uint az < tk_encoder_size s"
  shows "\<exists>b. talker_bearing s az = Some b \<and> 0 \<le> b \<and>
    (b = uint az * tk_azimuths s div tk_encoder_size s \<or>
     tk_encoder_size s dvd uint az * tk_azimuths s \<and> b = uint az * tk_azimuths s div tk_encoder_size s - 1)"
  using bearing_exact [of "uint az" "tk_encoder_size s" "tk_azimuths s"] assms
  by (simp add: talker_ok_def talker_bearing_def)

lemma talker_bearing_column:
  assumes "talker_ok s" "uint az < tk_encoder_size s" "0 < tk_azimuths s"
  shows "\<exists>b. talker_bearing s az = Some b \<and> 0 \<le> b \<and> b < tk_azimuths s"
proof -
  have "uint az * tk_azimuths s < tk_azimuths s * tk_encoder_size s"
    using assms(2,3) by (simp add: mult.commute)
  moreover have "uint az * tk_azimuths s div tk_encoder_size s * tk_encoder_size s \<le> uint az * tk_azimuths s"
  proof -
    have "0 < tk_encoder_size s" using assms(2) uint_bounds [of az] by linarith
    from pos_mod_sign [OF this, of "uint az * tk_azimuths s"] show ?thesis by (simp add: minus_mod_eq_div_mult [symmetric])
  qed
  ultimately have "uint az * tk_azimuths s div tk_encoder_size s * tk_encoder_size s < tk_azimuths s * tk_encoder_size s"
    by linarith
  then have "uint az * tk_azimuths s div tk_encoder_size s < tk_azimuths s"
    using assms(2) uint_bounds [of az] by (simp add: mult_less_cancel_right)
  then show ?thesis using talker_bearing_value [OF assms(1,2)] by fastforce
qed

lemma talker_fft_stores:
  assumes "talker_ok s" "fits s d"
  shows "\<exists>b img. talker_bearing s (lf_azimuth d) = Some b \<and>
    store_column 0 b (lf_data d) (polar s) = Some img \<and> talker_ok (s\<lparr>polar := img\<rparr>) \<and>
    (\<forall>r < nat (tk_range_in_bins s). \<forall>c < nat (tk_azimuths s).
       img ! r ! c = (if int c = b then lf_data d ! r else polar s ! r ! c))"
proof -
  obtain b where b: "talker_bearing s (lf_azimuth d) = Some b" "0 \<le> b" "b < tk_azimuths s"
    using talker_bearing_column assms unfolding fits_def by blast
  moreover have "nat (tk_range_in_bins s) = length (lf_data d)" using assms(2) by (auto simp: fits_def nat_eq_iff)
  ultimately obtain img where "store_column 0 b (lf_data d) (polar s) = Some img"
    "shaped (nat (tk_range_in_bins s)) (nat (tk_azimuths s)) img"
    "\<forall>r < nat (tk_range_in_bins s). \<forall>c < nat (tk_azimuths s).
       img ! r ! c = (if int c = b then lf_data d ! r else polar s ! r ! c)"
    using store_column_stores [of "nat (tk_range_in_bins s)" "nat (tk_azimuths s)" "polar s" b 0 "lf_data d"] assms(1)
    by (auto simp: talker_ok_def)
  then show ?thesis using b(1) assms(1) by (auto simp: talker_ok_def)
qed

lemma talker_fft_same_rotation:
  assumes "talker_ok s" "fits s d" "2 < frame_number s" "tk_last_azimuth s \<le> lf_azimuth d"
  shows "\<exists>s'. talker_fft d s = Some (s', []) \<and> talker_ok s' \<and> tk_last_azimuth s' = lf_azimuth d \<and>
    frame_number s' = frame_number s \<and> publish_image s' = publish_image s \<and> tk_range_in_bins s' = tk_range_in_bins s \<and>
    tk_azimuths s' = tk_azimuths s \<and> tk_encoder_size s' = tk_encoder_size s \<and>
    (\<forall>r < nat (tk_range_in_bins s). \<forall>c < nat (tk_azimuths s). polar s' ! r ! c = gathered s [d] r c)"
proof -
  from talker_fft_stores [OF assms(1,2)] obtain b img where
    1: "talker_bearing s (lf_azimuth d) = Some b" "store_column 0 b (lf_data d) (polar s) = Some img"
    "talker_ok (s\<lparr>polar := img\<rparr>)" "\<And>r c. r < nat (tk_range_in_bins s) \<Longrightarrow> c < nat (tk_azimuths s) \<Longrightarrow>
       img ! r ! c = (if int c = b then lf_data d ! r else polar s ! r ! c)" by blast
  have "talker_bearing (s\<lparr>packet_count := n\<rparr>) = talker_bearing s" for n by (simp add: fun_eq_iff talker_bearing_def)
  then show ?thesis
    using 1 assms(3,4) by (auto simp: talker_fft_def Let_def talker_ok_def gathered_def)
qed

lemma gathered_append:
  assumes "\<And>az. talker_bearing s' az = talker_bearing s az" "polar s' ! r ! c = gathered s ds r c"
  shows "gathered s' es r c = gathered s (ds @ es) r c"
proof -
  have "find P (xs @ ys) = (case find P xs of None \<Rightarrow> find P ys | Some x \<Rightarrow> Some x)" for P xs and ys :: "legacy_fft_record list"
    by (induction xs) simp_all
  then show ?thesis using assms by (simp add: gathered_def split: option.splits)
qed

lemma talker_rotation:
  assumes "talker_ok s" "2 < frame_number s" "list_all (fits s) ds" "sorted (tk_last_azimuth s # map lf_azimuth ds)"
  shows "\<exists>s'. talker_ffts ds s = Some (s', []) \<and> talker_ok s' \<and> tk_last_azimuth s' = last (tk_last_azimuth s # map lf_azimuth ds) \<and>
    frame_number s' = frame_number s \<and> publish_image s' = publish_image s \<and> tk_range_in_bins s' = tk_range_in_bins s \<and>
    tk_azimuths s' = tk_azimuths s \<and> tk_encoder_size s' = tk_encoder_size s \<and>
    (\<forall>r < nat (tk_range_in_bins s). \<forall>c < nat (tk_azimuths s). polar s' ! r ! c = gathered s ds r c)"
  using assms
proof (induction ds arbitrary: s)
  case Nil
  then show ?case by (auto simp: gathered_def)
next
  case (Cons d ds)
  from talker_fft_same_rotation [of s d] Cons.prems obtain s1 where
    1: "talker_fft d s = Some (s1, [])" "talker_ok s1" "tk_last_azimuth s1 = lf_azimuth d"
    "frame_number s1 = frame_number s" "publish_image s1 = publish_image s" "tk_range_in_bins s1 = tk_range_in_bins s"
    "tk_azimuths s1 = tk_azimuths s" "tk_encoder_size s1 = tk_encoder_size s"
    "\<And>r c. r < nat (tk_range_in_bins s) \<Longrightarrow> c < nat (tk_azimuths s) \<Longrightarrow> polar s1 ! r ! c = gathered s [d] r c"
    by auto
  have b: "talker_bearing s1 az = talker_bearing s az" for az by (simp add: talker_bearing_def 1)
  have "fits s1 = fits s" by (simp add: fun_eq_iff fits_def 1)
  then obtain s2 where
    2: "talker_ffts ds s1 = Some (s2, [])" "talker_ok s2" "tk_last_azimuth s2 = last (tk_last_azimuth s1 # map lf_azimuth ds)"
    "frame_number s2 = frame_number s" "publish_image s2 = publish_image s" "tk_range_in_bins s2 = tk_range_in_bins s"
    "tk_azimuths s2 = tk_azimuths s" "tk_encoder_size s2 = tk_encoder_size s"
    "\<And>r c. r < nat (tk_range_in_bins s) \<Longrightarrow> c < nat (tk_azimuths s) \<Longrightarrow> polar s2 ! r ! c = gathered s1 ds r c"
    using Cons.IH [of s1] Cons.prems 1 by auto
  have "polar s2 ! r ! c = gathered s (d # ds) r c" if "r < nat (tk_range_in_bins s)" "c < nat (tk_azimuths s)" for r c
    using gathered_append [OF b, of r c "[d]" ds] 1(9) 2(9) that by simp
  then show ?case using 1 2 by auto
qed

lemma ceiling_rat_numerals: "\<lceil>numeral a / numeral b :: rat\<rceil> = - (- numeral a div numeral b)"
  by (simp add: ceiling_def)

lemma talker_ffts_append:
  "talker_ffts (ds @ es) s = (case talker_ffts ds s of None \<Rightarrow> None
     | Some (s1, acts1) \<Rightarrow> (case talker_ffts es s1 of None \<Rightarrow> None | Some (s2, acts2) \<Rightarrow> Some (s2, acts1 @ acts2)))"
  by (induction ds arbitrary: s) (auto split: option.splits prod.splits Option.bind_splits)

lemma talker_fft_wraps:
  assumes "talker_ok s" "fits s w" "2 < frame_number s" "publish_image s" "lf_azimuth w < tk_last_azimuth s"
  shows "\<exists>s'. talker_fft w s =
      Some (s', [Publish_polar (of_int (frame_number s)) (lf_ntp_seconds w) (lf_ntp_split_seconds w) (polar s)]) \<and>
    frame_number s' = frame_number s + 1 \<and> tk_last_azimuth s' = lf_azimuth w"
proof -
  from talker_fft_stores [OF assms(1,2)] obtain b img where
    2: "talker_bearing s (lf_azimuth w) = Some b" "store_column 0 b (lf_data w) (polar s) = Some img" by blast
  have "talker_bearing (s\<lparr>frame_number := f, packet_count := n\<rparr>) = talker_bearing s" for n f
    by (simp add: fun_eq_iff talker_bearing_def)
  then show ?thesis using assms(3-5) 2 by (simp add: talker_fft_def Let_def)
qed

text \<open>
  C20: from the fourth rotation on, and when the publishing of images has been switched on, a
  rotation of messages that fit the configuration is published as one image when the first message of the next rotation arrives: the column of an azimuth holds the
  bins of the last message that was mapped to it, every other column what it held before, and the
  image carries the time of the message that closed the rotation.
\<close>

theorem talker_publishes_rotation:
  assumes "talker_ok s" "2 < frame_number s" "publish_image s" "list_all (fits s) (ds @ [w])"
    and "sorted (tk_last_azimuth s # map lf_azimuth ds)" "lf_azimuth w < last (tk_last_azimuth s # map lf_azimuth ds)"
  shows "\<exists>s' img. talker_ffts (ds @ [w]) s =
      Some (s', [Publish_polar (of_int (frame_number s)) (lf_ntp_seconds w) (lf_ntp_split_seconds w) img]) \<and>
    frame_number s' = frame_number s + 1 \<and> tk_last_azimuth s' = lf_azimuth w \<and>
    shaped (nat (tk_range_in_bins s)) (nat (tk_azimuths s)) img \<and>
    (\<forall>r < nat (tk_range_in_bins s). \<forall>c < nat (tk_azimuths s). img ! r ! c = gathered s ds r c)"
proof -
  from assms have "list_all (fits s) ds" by simp
  from talker_rotation [OF assms(1,2) this assms(5)] obtain s1 where
    1: "talker_ffts ds s = Some (s1, [])" "talker_ok s1" "tk_last_azimuth s1 = last (tk_last_azimuth s # map lf_azimuth ds)"
    "frame_number s1 = frame_number s" "publish_image s1 = publish_image s" "tk_range_in_bins s1 = tk_range_in_bins s"
    "tk_azimuths s1 = tk_azimuths s" "tk_encoder_size s1 = tk_encoder_size s"
    "\<And>r c. r < nat (tk_range_in_bins s) \<Longrightarrow> c < nat (tk_azimuths s) \<Longrightarrow> polar s1 ! r ! c = gathered s ds r c"
    by auto
  have "fits s1 w" "lf_azimuth w < tk_last_azimuth s1" using assms(4,6) 1(3,6-8) by (simp_all add: fits_def)
  with talker_fft_wraps [OF 1(2)] 1(4,5) assms(2,3) obtain s2 where
    "talker_fft w s1 = Some (s2, [Publish_polar (of_int (frame_number s)) (lf_ntp_seconds w) (lf_ntp_split_seconds w) (polar s1)])"
    "frame_number s2 = frame_number s + 1" "tk_last_azimuth s2 = lf_azimuth w" by auto
  then show ?thesis
    using 1 unfolding talker_ffts_append by (auto simp: talker_ok_def)
qed

lemma published_column:
  assumes "shaped (length (lf_data d)) w img" "c < w" "\<And>r. r < length (lf_data d) \<Longrightarrow> img ! r ! c = lf_data d ! r"
  shows "image_column img (length (lf_data d)) c = Some (lf_data d)"
proof -
  have those_map: "(\<And>x. x \<in> set xs \<Longrightarrow> f x = Some (g x)) \<Longrightarrow> those (map f xs) = Some (map g xs)"
    for f :: "nat \<Rightarrow> byte option" and g xs
    by (induction xs) simp_all
  have "image_column img (length (lf_data d)) c = Some (map ((!) (lf_data d)) [0..<length (lf_data d)])"
    unfolding image_column_def using assms by (intro those_map) (auto simp: shaped_def list_all_length nth_opt_def)
  then show ?thesis by (simp add: map_nth)
qed

lemma data_record_reads_back:
  assumes "image_column img (unat (cp_range_in_bins p)) c = Some samples"
  shows "\<exists>bytes msg h. data_record p ticks swp secs nsecs img c = Some bytes \<and> read_records bytes = Some [msg] \<and>
    message_code (message_of msg) = Some 30 \<and> view_fft (message_of msg) = Some h \<and> fft_azimuth h = of_nat (c * 14) \<and>
    sweep_counter h = swp \<and> fft_ntp_seconds h = secs \<and> fft_ntp_split_seconds h = nsecs \<and>
    protobuf_vector fft_size (message_of msg) = Some samples"
proof -
  let ?h = "fft_header_of swp c secs nsecs"
  let ?m = "frame 30 (fft_image ?h @ samples)"
  let ?r = "record_of 30 ([0, 0, 0, 0] @ bottom_bytes ticks) ?m"
  have len: "length (fft_image ?h @ samples) < 2 ^ 16 + 14"
    using column_length [OF assms] unsigned_less [of "cp_range_in_bins p", where ?'a = nat]
    by (simp add: fft_view.image_size fft_size_def)
  have "read_records ?r = Some [?m]"
    using read_records_record [of ?m "[0, 0, 0, 0] @ bottom_bytes ticks" 30 "[]"] len by (simp add: bottom_bytes_def)
  moreover have "data_record p ticks swp secs nsecs img c = Some ?r"
    using assms by (simp add: data_record_is_message)
  moreover have "fft_azimuth ?h = of_nat (c * 14)" "sweep_counter ?h = swp" "fft_ntp_seconds ?h = secs"
      "fft_ntp_split_seconds ?h = nsecs"
    by (simp_all add: fft_azimuth_def sweep_counter_def fft_ntp_seconds_def fft_ntp_split_seconds_def fft_header_of_def
        to_uint16_host_def)
  ultimately show ?thesis
    using view_at [OF fft_view.overlay_axioms refl, of ?h samples 30] len by (auto simp: view_fft_def)
qed

text \<open>
  C22: the recorder replays the talker.  From the fourth rotation on, and when images are
  published, let a rotation of messages that fit the configuration hold a message that is the
  last one mapped to column \<open>c\<close>.  The image that the talker publishes of the rotation is one from
  which the recorder, set to the same number of bins, makes for the azimuth with index \<open>c\<close> a
  record that reads back as a single FFT message: with the bins of that message, the azimuth
  \<open>14 * c\<close> and the sweep counter and time that the recorder gives it.  (Its azimuth need not be the one
  the talker received: see the column that is never written.)
\<close>

theorem recorder_replays_talker:
  assumes "talker_ok s" "2 < frame_number s" "publish_image s" "list_all (fits s) (ds @ [w])"
    and "sorted (tk_last_azimuth s # map lf_azimuth ds)" "lf_azimuth w < last (tk_last_azimuth s # map lf_azimuth ds)"
    and "ds = before @ d # after" "talker_bearing s (lf_azimuth d) = Some (int c)"
    and "\<forall>e \<in> set after. talker_bearing s (lf_azimuth e) \<noteq> Some (int c)"
    and "uint (cp_range_in_bins p) = tk_range_in_bins s"
  shows "\<exists>s' img bytes msg h. talker_ffts (ds @ [w]) s =
      Some (s', [Publish_polar (of_int (frame_number s)) (lf_ntp_seconds w) (lf_ntp_split_seconds w) img]) \<and>
    data_record p ticks sweep_count secs nsecs img c = Some bytes \<and> read_records bytes = Some [msg] \<and>
    message_code (message_of msg) = Some 30 \<and> view_fft (message_of msg) = Some h \<and>
    fft_azimuth h = of_nat (c * 14) \<and> sweep_counter h = sweep_count \<and> fft_ntp_seconds h = secs \<and>
    fft_ntp_split_seconds h = nsecs \<and> protobuf_vector fft_size (message_of msg) = Some (lf_data d)"
proof -
  from assms(4) have all: "list_all (fits s) ds" "fits s d" "fits s w" by (simp_all add: assms(7))
  from talker_rotation [OF assms(1,2) all(1) assms(5)] obtain s1 where
    1: "talker_ffts ds s = Some (s1, [])" "talker_ok s1" "tk_last_azimuth s1 = last (tk_last_azimuth s # map lf_azimuth ds)"
    "frame_number s1 = frame_number s" "publish_image s1 = publish_image s" "tk_range_in_bins s1 = tk_range_in_bins s"
    "tk_azimuths s1 = tk_azimuths s" "tk_encoder_size s1 = tk_encoder_size s"
    "\<And>r c. r < nat (tk_range_in_bins s) \<Longrightarrow> c < nat (tk_azimuths s) \<Longrightarrow> polar s1 ! r ! c = gathered s ds r c"
    by auto
  have "fits s1 w" "lf_azimuth w < tk_last_azimuth s1" using all(3) assms(6) 1(3,6-8) by (simp_all add: fits_def)
  with talker_fft_wraps [OF 1(2)] 1(4,5) assms(2,3) obtain s2 where
    2: "talker_fft w s1 = Some (s2, [Publish_polar (of_int (frame_number s)) (lf_ntp_seconds w) (lf_ntp_split_seconds w) (polar s1)])"
    by auto
  have n: "int (length (lf_data d)) = tk_range_in_bins s" "unat (cp_range_in_bins p) = length (lf_data d)"
    using all(2) assms(10) by (simp_all add: fits_def flip: of_nat_eq_iff [where 'a = int])
  have c: "c < nat (tk_azimuths s)"
    using talker_bearing_column [OF assms(1), of "lf_azimuth d"] all(2) assms(8) by (auto simp: fits_def)
  have "find (\<lambda>d. talker_bearing s (lf_azimuth d) = Some (int c)) (rev after @ d # rev before) = Some d"
    using assms(8,9) by (induction after rule: rev_induct) auto
  then have "gathered s ds r c = lf_data d ! r" for r by (simp add: gathered_def assms(7))
  then have "image_column (polar s1) (length (lf_data d)) c = Some (lf_data d)"
    using 1(2,6,7,9) c n(1) nat_int [of "length (lf_data d)"]
    by (intro published_column [of d "nat (tk_azimuths s)"]) (auto simp: talker_ok_def simp del: nat_int)
  from data_record_reads_back [of _ p, unfolded n(2), OF this, of ticks sweep_count secs nsecs] obtain bytes msg h where
    "data_record p ticks sweep_count secs nsecs (polar s1) c = Some bytes" "read_records bytes = Some [msg]"
    "message_code (message_of msg) = Some 30" "view_fft (message_of msg) = Some h" "fft_azimuth h = of_nat (c * 14)"
    "sweep_counter h = sweep_count" "fft_ntp_seconds h = secs" "fft_ntp_split_seconds h = nsecs"
    "protobuf_vector fft_size (message_of msg) = Some (lf_data d)" by blast
  then show ?thesis using 1(1) 2 by (simp add: talker_ffts_append)
qed

text \<open>
  The column of an azimuth is the azimuth scaled to the number of columns and rounded down,
  except that an azimuth that lies exactly on a column may be put one column lower.
\<close>

theorem talker_bearing_rounds:
  assumes "talker_ok s" "uint az < tk_encoder_size s" "0 < tk_azimuths s"
  shows "\<exists>b. talker_bearing s az = Some b \<and> 0 \<le> b \<and> b < tk_azimuths s \<and>
    (b = uint az * tk_azimuths s div tk_encoder_size s \<or>
     tk_encoder_size s dvd uint az * tk_azimuths s \<and> b = uint az * tk_azimuths s div tk_encoder_size s - 1)"
  using talker_bearing_value [OF assms(1,2)] talker_bearing_column [OF assms] by auto

lemma talker_bearing_406:
  assumes "tk_encoder_size s = 5600" "tk_azimuths s = 400"
  shows "talker_bearing s 406 = Some 28"
proof -
  have 1: "rnd b64 (29 / 400) = 5224175567749775 / 72057594037927936"
    by (simp add: fp_eval rne_def ceiling_rat_numerals cong: let_weak_cong)
  have 2: "rnd b64 (130604389193744375 / 4503599627370496) = 8162774324609023 / 281474976710656"
    by (simp add: fp_eval rne_def ceiling_rat_numerals cong: let_weak_cong)
  from bearing_value [of 406 5600 400] have
    "has_val (val64 (f64_mul (f64_div (f64_of_int 406) (f64_of_int 5600)) (f64_of_int 400))) (8162774324609023 / 281474976710656)"
    by (simp add: 1 2)
  from has_val_cases [OF this] have
    "val64 (f64_mul (f64_div (f64_of_int 406) (f64_of_int 5600)) (f64_of_int 400)) = Fin (8162774324609023 / 281474976710656)"
    by simp
  then show ?thesis
    by (simp add: talker_bearing_def assms f64_to_int32_def fp_to_int_def has_val_def Let_def rat_trunc_def)
qed

lemma talker_bearing_420:
  assumes "tk_encoder_size s = 5600" "tk_azimuths s = 400"
  shows "talker_bearing s 420 \<noteq> Some 29"
proof -
  have 1: "rnd b64 (3 / 40) = 5404319552844595 / 72057594037927936"
    by (simp add: fp_eval rne_def ceiling_rat_numerals cong: let_weak_cong)
  have 2: "rnd b64 (135107988821114875 / 4503599627370496) = 30"
    by (simp add: fp_eval rne_def ceiling_rat_numerals cong: let_weak_cong)
  from bearing_value [of 420 5600 400] have
    "has_val (val64 (f64_mul (f64_div (f64_of_int 420) (f64_of_int 5600)) (f64_of_int 400))) 30"
    by (simp add: 1 2)
  from has_val_cases [OF this] have
    "val64 (f64_mul (f64_div (f64_of_int 420) (f64_of_int 5600)) (f64_of_int 400)) = Fin 30"
    by simp
  then show ?thesis
    by (simp add: talker_bearing_def assms f64_to_int32_def fp_to_int_def Let_def rat_trunc_def)
qed

text \<open>
  C26: with 400 azimuths of 14 encoder steps the column 29 of the image is never written: the azimuth
  406 that belongs to it is put into the column 28 by the rounding.
\<close>

theorem talker_column_never_written:
  assumes "talker_ok s" "tk_encoder_size s = 5600" "tk_azimuths s = 400"
    and "list_all (\<lambda>d. \<exists>k < 400. uint (lf_azimuth d) = 14 * k) ds"
  shows "gathered s ds r 29 = polar s ! r ! 29"
proof -
  have "talker_bearing s (lf_azimuth d) \<noteq> Some 29" if d: "d \<in> set ds" for d
  proof
    assume b: "talker_bearing s (lf_azimuth d) = Some 29"
    obtain k where k: "k < 400" "uint (lf_azimuth d) = 14 * k" using assms(4) d by (auto simp: list_all_iff)
    then have "29 = k \<or> 29 = k - 1"
      using talker_bearing_value [OF assms(1), of "lf_azimuth d"] b by (auto simp: assms(2,3))
    then have "lf_azimuth d = 406 \<or> lf_azimuth d = 420" using k(2) by (auto intro!: word_uint_eqI)
    then show False using b talker_bearing_406 [OF assms(2,3)] talker_bearing_420 [OF assms(2,3)] by auto
  qed
  then have "find (\<lambda>d. talker_bearing s (lf_azimuth d) = Some 29) (rev ds) = None" by (simp add: find_None_iff)
  then show ?thesis by (simp add: gathered_def)
qed

section \<open>Witnesses\<close>

definition sample_azimuth :: "u16 \<Rightarrow> byte \<Rightarrow> legacy_fft_record" where
  "sample_azimuth az x = \<lparr>lf_angle = F32 0, lf_azimuth = az, lf_sweep_counter = 0, lf_ntp_seconds = 7,
     lf_ntp_split_seconds = 0, lf_data = [x, x + 1]\<rparr>"

lemma configured_talker_fields:
  "tk_range_in_bins configured_talker = 2" "tk_azimuths configured_talker = 4" "tk_encoder_size configured_talker = 8"
  "frame_number configured_talker = 3" "publish_image configured_talker" "tk_last_azimuth configured_talker = 0"
  by (simp_all add: configured_talker_def talker_configuration_def new_talker_def Let_def)

theorem talker_publishes_rotation_witness:
  "\<exists>s' img. talker_ffts [sample_azimuth 0 1, sample_azimuth 2 3, sample_azimuth 1 5] configured_talker =
     Some (s', [Publish_polar 3 7 0 img]) \<and> frame_number s' = 4"
  using talker_publishes_rotation [OF configured_talker_ok, of "[sample_azimuth 0 1, sample_azimuth 2 3]" "sample_azimuth 1 5"]
  by (auto simp: configured_talker_fields fits_def sample_azimuth_def)

lemma configured_bearing_0: "talker_bearing configured_talker 0 = Some 0"
  using talker_bearing_value [OF configured_talker_ok, of 0] by (auto simp: configured_talker_fields)

theorem talker_bearing_rounds_witness:
  "\<exists>b. talker_bearing configured_talker 7 = Some b \<and> 0 \<le> b \<and> b < 4"
  using talker_bearing_rounds [OF configured_talker_ok, of 7] by (auto simp: configured_talker_fields)

theorem talker_column_never_written_witness:
  "gathered (configured_talker\<lparr>tk_encoder_size := 5600, tk_azimuths := 400, polar := replicate 2 (replicate 400 0)\<rparr>)
     [sample_azimuth 406 1, sample_azimuth 420 2] 1 29 = 0"
proof -
  let ?s = "configured_talker\<lparr>tk_encoder_size := 5600, tk_azimuths := 400, polar := replicate 2 (replicate 400 0)\<rparr>"
  have "talker_ok ?s" by (simp add: talker_ok_def shaped_def configured_talker_fields list_all_iff)
  moreover have "list_all (\<lambda>d. \<exists>k < 400. uint (lf_azimuth d) = 14 * k) [sample_azimuth 406 1, sample_azimuth 420 2]"
    by (simp add: sample_azimuth_def)
  ultimately show ?thesis
    using talker_column_never_written [of ?s "[sample_azimuth 406 1, sample_azimuth 420 2]" 1] by simp
qed

lemma two_four: "replicate 2 x = [x, x]" "replicate 4 x = [x, x, x, x]"
  by (simp_all add: numeral_eq_Suc)

theorem recorder_replays_talker_witness:
  "\<exists>s' img bytes msg. talker_ffts [sample_azimuth 0 1, sample_azimuth 3 3, sample_azimuth 1 5] configured_talker =
      Some (s', [Publish_polar 3 7 0 img]) \<and>
    data_record sample_params 0 9 7 0 img 0 = Some bytes \<and> read_records bytes = Some [msg] \<and>
    protobuf_vector fft_size (message_of msg) = Some (lf_data (sample_azimuth 0 1))"
proof -
  have "talker_bearing configured_talker 3 = Some 1"
    using talker_bearing_value [OF configured_talker_ok, of 3] by (auto simp: configured_talker_fields)
  then show ?thesis
    using recorder_replays_talker [OF configured_talker_ok, of "[sample_azimuth 0 1, sample_azimuth 3 3]" "sample_azimuth 1 5"
        "[]" "sample_azimuth 0 1" "[sample_azimuth 3 3]" 0 sample_params 0 9 7 0] configured_bearing_0
    by (auto simp: configured_talker_fields fits_def sample_azimuth_def sample_params_def)
qed

section \<open>The first rotations, and data that does not fit\<close>

fun wrap_count :: "u16 \<Rightarrow> u16 list \<Rightarrow> nat" where
  "wrap_count a [] = 0"
| "wrap_count a (b # bs) = (if b < a then 1 else 0) + wrap_count b bs"

text \<open>
  Until the azimuth has wrapped around three times nothing is stored or published, whatever the
  messages hold; the number of the frame counts the wraps.
\<close>

theorem talker_waits:
  assumes "frame_number s + int (wrap_count (tk_last_azimuth s) (map lf_azimuth ds)) \<le> 2"
  shows "\<exists>s'. talker_ffts ds s = Some (s', []) \<and> polar s' = polar s \<and>
    frame_number s' = frame_number s + int (wrap_count (tk_last_azimuth s) (map lf_azimuth ds))"
  using assms
proof (induction ds arbitrary: s)
  case (Cons d ds)
  have "frame_number s + (if lf_azimuth d < tk_last_azimuth s then 1 else 0) \<le> 2"
    using Cons.prems by (simp split: if_splits)
  then obtain s1 where "talker_fft d s = Some (s1, [])" "polar s1 = polar s" "tk_last_azimuth s1 = lf_azimuth d"
    "frame_number s1 = frame_number s + (if lf_azimuth d < tk_last_azimuth s then 1 else 0)"
    by (auto simp: talker_fft_def Let_def split: if_splits)
  then show ?case using Cons.IH [of s1] Cons.prems by (auto split: if_splits)
qed simp

theorem talker_waits_witness:
  "\<exists>s'. talker_ffts [sample_azimuth 9 1, sample_azimuth 2 3, sample_azimuth 1 5] new_talker = Some (s', []) \<and> frame_number s' = 2"
  using talker_waits [of new_talker "[sample_azimuth 9 1, sample_azimuth 2 3, sample_azimuth 1 5]"]
  by (auto simp: new_talker_def sample_azimuth_def)

text \<open>
  A message with more bins than the configuration announced, or with an azimuth outside of the
  image, is stored outside of the image, which is undefined.
\<close>

theorem talker_long_data_undefined:
  assumes "talker_ok s" "2 < frame_number s" "tk_last_azimuth s \<le> lf_azimuth d" "tk_range_in_bins s < int (length (lf_data d))"
  shows "talker_fft d s = None"
proof (cases "talker_bearing s (lf_azimuth d)")
  case (Some b)
  have "store_column 0 b (lf_data d) (polar s) = None"
    using assms by (intro store_column_outside [of "nat (tk_range_in_bins s)" "nat (tk_azimuths s)"]) (auto simp: talker_ok_def)
  then show ?thesis using assms Some by (simp add: talker_fft_def Let_def talker_bearing_def)
qed (use assms in \<open>simp add: talker_fft_def Let_def talker_bearing_def\<close>)

theorem talker_long_data_undefined_witness:
  "talker_fft ((sample_azimuth 1 1)\<lparr>lf_data := [1, 2, 3]\<rparr>) configured_talker = None"
  using talker_long_data_undefined [OF configured_talker_ok, of "(sample_azimuth 1 1)\<lparr>lf_data := [1, 2, 3]\<rparr>"]
  by (simp add: configured_talker_fields sample_azimuth_def)

end
