(* ===== verification/Ros1_Platform.thy ===== *)
theory Ros1_Platform
  imports Point_Cloud
begin

text \<open>
  \<open>ros1/src/Mobile_Platform.cpp\<close>: a node that takes the polar images of the radar and publishes a
  thresholded point cloud, an image with a grid, markers around objects, a laser scan and a cloud in
  three dimensions, each switched on by a parameter.  An image is its rows; after the rotation a row
  is an azimuth.  The image operations of OpenCV and the trigonometric functions are parameters
  (\<open>cv_lib\<close>, \<open>platform_trig\<close>); what is published is an action.  An access outside of an image or a
  table, an exception and a conversion that does not fit are \<open>None\<close>.
\<close>

section \<open>State\<close>

type_synonym rows = "byte list list"

record platform_trig = trig +
  cosd :: "float64 \<Rightarrow> float64"
  sind :: "float64 \<Rightarrow> float64"

record 'c cv_lib =
  resize_rows :: "float32 \<Rightarrow> rows \<Rightarrow> rows"   \<comment> \<open>scale of the rows, nearest neighbour\<close>
  rotate_ccw :: "rows \<Rightarrow> rows"
  normalise_rows :: "rows \<Rightarrow> rows"
  rescale :: "float64 \<Rightarrow> float64 \<Rightarrow> rows \<Rightarrow> rows"   \<comment> \<open>\<open>(image - t) * 255 / d\<close>, saturated\<close>
  blur :: "int \<Rightarrow> rows \<Rightarrow> rows"
  reduce_to_row :: "rows \<Rightarrow> byte list"   \<comment> \<open>the mean of each column\<close>
  adaptive :: "int \<Rightarrow> float64 \<Rightarrow> rows \<Rightarrow> rows option"
  canny :: "rows \<Rightarrow> rows"
  dilate :: "int \<Rightarrow> rows \<Rightarrow> rows"
  contours_of :: "rows \<Rightarrow> (int \<times> int) list list"
  contour_level :: "rows \<Rightarrow> (int \<times> int) list \<Rightarrow> float64 \<times> float64"   \<comment> \<open>largest and mean value\<close>
  min_area_rect :: "(int \<times> int) list \<Rightarrow> (float32 \<times> float32) list"
  mix_average :: "rows \<Rightarrow> rows \<Rightarrow> rows option"   \<comment> \<open>nine tenths and one tenth, if the sizes agree\<close>
  subtract_rows :: "rows \<Rightarrow> rows \<Rightarrow> rows option"
  cartesian :: "(int \<times> int \<times> int) option \<Rightarrow> rows \<Rightarrow> 'c"   \<comment> \<open>with blur, threshold and dilation, if processed\<close>
  colour :: "byte \<Rightarrow> 'c \<Rightarrow> 'c"
  draw_grid :: "float64 \<Rightarrow> int list \<Rightarrow> int list \<Rightarrow> 'c \<Rightarrow> 'c"   \<comment> \<open>opacity, heights and widths of the lines\<close>

record point_xyzi =
  pt_x :: float32
  pt_y :: float32
  pt_z :: float32
  pt_intensity :: float32

definition origin :: point_xyzi where
  "origin = \<lparr>pt_x = F32 0, pt_y = F32 0, pt_z = F32 0, pt_intensity = F32 0\<rparr>"

record platform =
  downsampling :: int
  pf_threshold :: u16
  dilation :: u16
  gaussian :: u16
  maxangle :: u16
  pcl_threshold :: u16
  grid_step :: u16
  grid_step_m :: u16
  colormap :: byte
  above_average :: u16
  adaptive_size :: u16
  boxes_on :: bool
  cloud_on :: bool
  scan_on :: bool
  min_area_on :: bool
  image_on :: bool
  processing_on :: bool
  grid_on :: bool
  adaptive_on :: bool
  average_on :: bool
  three_d_on :: bool
  grid_opacity :: float64
  pf_azimuths :: u16
  average_initialised :: bool
  average :: rows
  pf_range_res :: float32
  sin_values :: "float32 list"
  cos_values :: "float32 list"
  phi :: float32
  last_phi :: float32
  cloud_3d :: "point_xyzi list"

definition new_platform :: platform where
  "new_platform =
     \<lparr>downsampling = 1, pf_threshold = 62, dilation = 2, gaussian = 5, maxangle = 35, pcl_threshold = 60,
      grid_step = 10, grid_step_m = 0, colormap = 10, above_average = 19, adaptive_size = 2, boxes_on = False,
      cloud_on = False, scan_on = False, min_area_on = False, image_on = False, processing_on = False,
      grid_on = True, adaptive_on = False, average_on = False, three_d_on = False,
      grid_opacity = f64_of_rat (1 / 2), pf_azimuths = 400, average_initialised = False, average = [],
      pf_range_res = F32 0, sin_values = replicate 405 (F32 0), cos_values = replicate 405 (F32 0),
      phi = F32 0, last_phi = F32 0, cloud_3d = []\<rparr>"

record marker =
  marker_id :: nat
  marker_points :: "(float64 \<times> float64 \<times> float64) list"
  marker_red :: float32
  marker_green :: float32

datatype 'c platform_action =
    Publish_filtered_cloud "point_xyzi list"
  | Publish_cartesian 'c
  | Publish_markers "marker list"
  | Publish_scan3 laser_scan
  | Publish_edges rows
  | Publish_cloud_3d "point_xyzi list"

section \<open>The tables\<close>

definition azimuth_theta :: "int \<Rightarrow> u16 \<Rightarrow> float32" where
  "azimuth_theta i n = f32_of_f64 (f64_div (f64_mul (f64_of_f32 (f32_mul (f32_of_int i) (f32_of_int 2))) m_pi)
     (f64_of_int (uint n)))"

fun fill_tables :: "platform_trig \<Rightarrow> u16 \<Rightarrow> (int \<times> int) list \<Rightarrow> platform \<Rightarrow> platform option" where
  "fill_tables lib n [] s = Some s"
| "fill_tables lib n ((k, i) # ks) s = do {
     sins \<leftarrow> (if k < 0 then None else set_opt (nat k) (sinf lib (azimuth_theta i n)) (sin_values s));
     coss \<leftarrow> set_opt (nat k) (cosf lib (azimuth_theta i n)) (cos_values s);
     fill_tables lib n ks (s\<lparr>sin_values := sins, cos_values := coss\<rparr>) }"

text \<open>The arguments are the two parameters on the server, when they are set.\<close>

definition initialise_parameters ::
    "platform_trig \<Rightarrow> float32 option \<Rightarrow> int option \<Rightarrow> platform \<Rightarrow> platform option" where
  "initialise_parameters lib res az s = (case (res, az) of
     (Some r, Some az_tmp) \<Rightarrow> do {
       let n = word_of_int az_tmp;
       s1 \<leftarrow> fill_tables lib n (map (\<lambda>i. (i, i)) [0..uint n - 1]) (s\<lparr>pf_range_res := r, pf_azimuths := n\<rparr>);
       fill_tables lib n (map (\<lambda>i. (i, i - uint n)) [az_tmp..uint n + 4]) s1 }
   | _ \<Rightarrow> Some s)"

section \<open>The point cloud\<close>

definition degrees :: "u16 \<Rightarrow> float64" where
  "degrees a = f64_div (f64_mul (f64_of_int (uint a)) m_pi) (f64_of_int 180)"

definition in_view :: "u16 \<Rightarrow> float32 \<Rightarrow> bool" where
  "in_view a theta \<longleftrightarrow> f64_less (f64_of_f32 theta) (degrees a) \<or>
     f64_less (f64_sub (f64_mul (f64_of_int 2) m_pi) (degrees a)) (f64_of_f32 theta)"

definition cloud_theta :: "nat \<Rightarrow> nat \<Rightarrow> float32" where
  "cloud_theta bearing rows = f32_of_f64 (f64_mul
     (f64_of_f32 (f32_mul (f32_div (f32_of_int (int bearing)) (f32_of_int (int rows))) (f32_of_int 2))) m_pi)"

text \<open>One pixel: outside of the angle the point is what its constructor makes it, the origin.\<close>

definition cloud_pixel ::
    "platform_trig \<Rightarrow> float32 \<Rightarrow> platform \<Rightarrow> rows \<Rightarrow> rows \<Rightarrow> nat \<Rightarrow> nat \<Rightarrow> point_xyzi list option" where
  "cloud_pixel lib res s img navigation bearing ind = do {
     let theta = cloud_theta bearing (length img);
     p \<leftarrow> (if in_view (maxangle s) theta then do {
         row \<leftarrow> nth_opt navigation bearing;
         v \<leftarrow> nth_opt row ind;
         Some \<lparr>pt_x = f32_mul (f32_mul res (f32_of_int (int ind))) (cosf lib theta),
           pt_y = f32_mul (f32_mul res (f32_of_int (int ind))) (sinf lib theta), pt_z = F32 0,
           pt_intensity = f32_of_int (uint v)\<rparr> }
       else Some origin);
     row \<leftarrow> nth_opt img bearing;
     x \<leftarrow> nth_opt row ind;
     Some (if uint x > uint (pcl_threshold s) then [p] else []) }"

definition image_cols :: "rows \<Rightarrow> nat" where
  "image_cols img = (case img of [] \<Rightarrow> 0 | row # _ \<Rightarrow> length row)"

definition filtered_cloud :: "'c cv_lib \<Rightarrow> platform_trig \<Rightarrow> float32 \<Rightarrow> platform \<Rightarrow> rows \<Rightarrow> point_xyzi list option" where
  "filtered_cloud cv lib res s img = do {
     let t = f64_of_int (uint (pcl_threshold s));
     let navigation = rescale cv t (f64_sub (f64_of_int 255) t) img;
     points \<leftarrow> those (concat (map (\<lambda>bearing. map (cloud_pixel lib res s img navigation bearing)
       [1..<image_cols img]) [0..<length img]));
     Some (concat points) }"

section \<open>The laser scan\<close>

text \<open>The bin of the first edge; the last but one bin stands for the end of the row.\<close>

fun first_edge :: "byte list \<Rightarrow> int \<Rightarrow> nat list \<Rightarrow> nat option option" where
  "first_edge row n [] = Some None"
| "first_edge row n (j # js) =
     (if int j = n - 2 then Some (Some j)
      else do { x \<leftarrow> nth_opt row j; if x = 0 then first_edge row n js else Some (Some j) })"

definition edge_distance :: "float32 \<Rightarrow> int \<Rightarrow> int \<Rightarrow> nat \<Rightarrow> float32" where
  "edge_distance res nbins radarbins j =
     f32_div (f32_mul (f32_mul (f32_of_int (int j)) res) (f32_of_int nbins)) (f32_of_int radarbins)"

definition scan_ranges :: "float32 \<Rightarrow> u16 \<Rightarrow> u16 \<Rightarrow> int \<Rightarrow> rows \<Rightarrow> float32 list option" where
  "scan_ranges res nbins nazimuths radarbins edges =
     those (map (\<lambda>i. do {
         row \<leftarrow> nth_opt edges i;
         j \<leftarrow> first_edge row (uint nbins) [30..<unat nbins];
         Some (case j of None \<Rightarrow> F32 0 | Some k \<Rightarrow> edge_distance res (uint nbins) radarbins k) })
       [0..<unat nazimuths])"

definition laser_scan_of :: "float32 \<Rightarrow> u16 \<Rightarrow> u16 \<Rightarrow> int \<Rightarrow> msg_header \<Rightarrow> rows \<Rightarrow> laser_scan option" where
  "laser_scan_of res nbins nazimuths radarbins stamp edges = do {
     rs \<leftarrow> scan_ranges res nbins nazimuths radarbins edges;
     let n = f32_of_int (uint nazimuths);
     Some
       \<lparr>scan_header = stamp\<lparr>frame_id := ''navtech''\<rparr>, angle_min = F32 0, angle_max = F32 0,
        angle_increment = f32_of_f64 (f64_div (f64_mul (f64_of_int 2) m_pi) (f64_of_f32 n)),
        time_increment = f32_div (f32_of_int 1) (f32_mul (f32_of_int 4) n),
        scan_time = f32_div (f32_of_int 1) (f32_of_int 4), range_min = f32_of_int 0, range_max = f32_of_int 500,
        ranges = rs, intensities = []\<rparr> }"

section \<open>The image with a grid\<close>

function grid_lines :: "int \<Rightarrow> int \<Rightarrow> int \<Rightarrow> int list" where
  "grid_lines i extent step = (if 0 < step \<and> i < extent then i # grid_lines (i + step) extent step else [])"
  by auto

termination by (relation "measure (\<lambda>(i, extent, step). nat (extent - i))") auto

declare grid_lines.simps [simp del]

text \<open>The lines across an extent, through its middle; a step of zero divides by zero.\<close>

definition grid_positions :: "int \<Rightarrow> u16 \<Rightarrow> int list option" where
  "grid_positions extent step =
     (if step = 0 then None else Some (grid_lines (extent div 2 mod uint step) extent (uint step)))"

definition processed_image :: "'c cv_lib \<Rightarrow> platform \<Rightarrow> rows \<Rightarrow> 'c option" where
  "processed_image cv s img = do {
     let n = uint (of_nat (image_cols img) :: u16);
     let cart = colour cv (colormap s) (cartesian cv (if processing_on s
       then Some (uint (gaussian s) * 2 + 1, uint (pf_threshold s), uint (dilation s) + 1) else None) img);
     if grid_on s then do {
       ys \<leftarrow> grid_positions n (grid_step_m s);
       xs \<leftarrow> grid_positions n (grid_step_m s);
       Some (draw_grid cv (grid_opacity s) ys xs cart) }
     else Some cart }"

section \<open>Edges\<close>

definition threshold_to_zero :: "int \<Rightarrow> byte \<Rightarrow> byte" where
  "threshold_to_zero t x = (if uint x > t then x else 0)"

text \<open>\<open>std::round\<close>: halves away from zero.\<close>

definition fp_round :: "fp \<Rightarrow> int option" where
  "fp_round x = (if is_fin x then
     Some (if 0 \<le> fp_val x then \<lfloor>fp_val x + 1 / 2\<rfloor> else - \<lfloor>- fp_val x + 1 / 2\<rfloor>) else None)"

definition delta_row :: "int \<Rightarrow> u16 \<Rightarrow> int option" where
  "delta_row n a = do {
     r \<leftarrow> fp_round (val64 (f64_mul (f64_div (f64_of_f32 (f32_of_int (uint a))) (f64_of_int 360)) (f64_of_int n)));
     if 0 \<le> n div 2 - r \<and> n div 2 - r < 65536 then Some (n div 2 - r) else None }"

text \<open>
  The mean is taken with \<open>reduce\<close> along dimension 0, which leaves one mean for each column; row \<open>i\<close>
  is compared with the mean of column \<open>i\<close>.
\<close>

definition threshold_rows :: "'c cv_lib \<Rightarrow> u16 \<Rightarrow> rows \<Rightarrow> rows option" where
  "threshold_rows cv t img =
     those (map (\<lambda>i. do {
         m \<leftarrow> nth_opt (reduce_to_row cv img) i;
         Some (map (threshold_to_zero (uint m + uint t)) (img ! i)) })
       [0..<length img])"

definition blank_rows :: "int \<Rightarrow> int \<Rightarrow> rows \<Rightarrow> rows option" where
  "blank_rows from to img =
     (if 0 \<le> from \<and> from \<le> to \<and> to \<le> int (length img)
      then Some (map (\<lambda>i. if from \<le> int i \<and> int i < to then map (\<lambda>_. 0) (img ! i) else img ! i) [0..<length img])
      else None)"

text \<open>The image, which is blurred and thresholded in place, and the edges; \<open>out\<close> is the output so far.\<close>

definition find_edges :: "'c cv_lib \<Rightarrow> platform \<Rightarrow> rows \<Rightarrow> rows \<Rightarrow> (rows \<times> rows) option" where
  "find_edges cv s img out = do {
     out1 \<leftarrow> (if adaptive_on s
       then adaptive cv (uint (adaptive_size s) * 2 + 1) (f64_neg (f64_of_int (uint (above_average s)))) out
       else Some out);
     img1 \<leftarrow> threshold_rows cv (pf_threshold s) (blur cv (uint (gaussian s) * 2 + 1) img);
     joined \<leftarrow> (if length img1 < 5 then None else Some (img1 @ take 5 img1));
     delta \<leftarrow> delta_row (int (length img1)) (maxangle s);
     blanked \<leftarrow> blank_rows (int (length img1) div 2 - delta) (int (length img1) div 2 + delta) joined;
     Some (img1, canny cv blanked) }"

section \<open>Markers\<close>

text \<open>A vertex of a contour: its column is the bin and its row the index of the azimuth.\<close>

definition table_point :: "platform \<Rightarrow> float32 \<Rightarrow> int \<times> int \<Rightarrow> (float64 \<times> float64) option" where
  "table_point s res = (\<lambda>(x, y). do {
     sn \<leftarrow> (if y < 0 then None else nth_opt (sin_values s) (nat y));
     cs \<leftarrow> nth_opt (cos_values s) (nat y);
     Some (f64_of_f32 (f32_mul (f32_mul (f32_of_int x) cs) res),
       f64_of_f32 (f32_mul (f32_mul (f32_of_int x) sn) res)) })"

text \<open>The outline as pairs of neighbouring vertices, the last joined to the first.\<close>

definition outline :: "'v list \<Rightarrow> 'v list" where
  "outline vs = concat (map (\<lambda>j. [vs ! j, if j + 1 < length vs then vs ! (j + 1) else vs ! 0]) [0..<length vs])"

fun heights :: "nat \<Rightarrow> float64 \<Rightarrow> float64 list" where
  "heights 0 z = []"
| "heights (Suc k) z = z # heights k (f64_add z (f64_of_rat (2 / 10)))"

definition box_points :: "platform \<Rightarrow> float32 \<Rightarrow> (int \<times> int) list \<Rightarrow> (float64 \<times> float64 \<times> float64) list option" where
  "box_points s res contour = do {
     vs \<leftarrow> those (map (table_point s res) contour);
     Some (concat (map (\<lambda>z. map (\<lambda>(x, y). (x, y, z)) (outline vs)) (heights 10 (f64_of_int 0)))) }"

definition rect_point :: "platform_trig \<Rightarrow> platform \<Rightarrow> float32 \<Rightarrow> float32 \<times> float32 \<Rightarrow> float64 \<times> float64 \<times> float64" where
  "rect_point lib s res = (\<lambda>(x, y).
     let a = f64_div (f64_mul (f64_of_f32 (f32_mul y (f32_of_int 2))) m_pi) (f64_of_f32 (f32_of_int (uint (pf_azimuths s))))
     in (f64_mul (f64_mul (f64_of_f32 x) (cosd lib a)) (f64_of_f32 res),
         f64_mul (f64_mul (f64_of_f32 x) (sind lib a)) (f64_of_f32 res), f64_of_int 1))"

definition rect_points :: "'c cv_lib \<Rightarrow> platform_trig \<Rightarrow> platform \<Rightarrow> float32 \<Rightarrow> (int \<times> int) list \<Rightarrow> (float64 \<times> float64 \<times> float64) list option" where
  "rect_points cv lib s res contour = (case min_area_rect cv contour of
     [p0, p1, p2, p3] \<Rightarrow> Some (map (rect_point lib s res) [p0, p1, p2, p3, p0]) | _ \<Rightarrow> None)"

definition object_marker :: "'c cv_lib \<Rightarrow> platform_trig \<Rightarrow> platform \<Rightarrow> float32 \<Rightarrow> rows \<Rightarrow> nat \<times> (int \<times> int) list \<Rightarrow> marker option" where
  "object_marker cv lib s res img = (\<lambda>(i, contour).
     let (largest, mean) = contour_level cv img contour;
         mean' = (if f64_less (f64_of_int 127) mean then f64_of_int 127 else mean)
     in if min_area_on s
        then map_option (\<lambda>ps. \<lparr>marker_id = i, marker_points = ps,
            marker_red = f32_of_f64 (f64_div (f64_add (f64_of_int 127) mean') (f64_of_int 255)),
            marker_green = f32_of_f64 (f64_div (f64_sub (f64_of_int 127) mean') (f64_of_int 255))\<rparr>)
          (rect_points cv lib s res contour)
        else map_option (\<lambda>ps. \<lparr>marker_id = i, marker_points = ps,
            marker_red = f32_of_f64 (f64_div largest (f64_of_int 255)),
            marker_green = f32_of_f64 (f64_sub (f64_of_int 1) (f64_div largest (f64_of_int 255)))\<rparr>)
          (box_points s res contour))"

text \<open>
  The array has an entry for each contour and then a copy of each, since every marker is also pushed
  at the end.  The edges are dilated in place.
\<close>

definition bounding_boxes ::
    "'c cv_lib \<Rightarrow> platform_trig \<Rightarrow> platform \<Rightarrow> float32 \<Rightarrow> rows \<Rightarrow> rows \<Rightarrow> (rows \<times> marker list) option" where
  "bounding_boxes cv lib s res img edges = do {
     let edges1 = dilate cv (uint (dilation s) + 1) edges;
     let cs = contours_of cv edges1;
     ms \<leftarrow> those (map (object_marker cv lib s res img) (zip [0..<length cs] cs));
     Some (edges1, ms @ ms) }"

section \<open>The cloud in three dimensions\<close>

text \<open>Division of \<open>int\<close> truncates towards zero.\<close>

definition c_div :: "int \<Rightarrow> int \<Rightarrow> int" where
  "c_div a b = (if 0 \<le> a then a div b else - (- a div b))"

definition point_3d :: "platform_trig \<Rightarrow> platform \<Rightarrow> float32 \<Rightarrow> float32 \<Rightarrow> nat \<Rightarrow> point_xyzi option" where
  "point_3d lib s res theta j = do {
     let d = f32_mul (f32_of_int (int j)) res;
     let tilt = f64_div (f64_mul (f64_of_f32 (phi s)) m_pi) (f64_of_int 180);
     let z = f32_of_f64 (f64_mul (f64_of_f32 (f32_mul d (sinf lib theta))) (sind lib tilt));
     level \<leftarrow> fp_to_int (- (2 ^ 31)) (2 ^ 31 - 1) (val32 (f32_mul (f32_add z (f32_of_int 2)) (f32_of_int 255)));
     Some \<lparr>pt_x = f32_mul d (cosf lib theta),
       pt_y = f32_of_f64 (f64_mul (f64_of_f32 (f32_mul d (sinf lib theta))) (cosd lib tilt)), pt_z = z,
       pt_intensity = f32_of_int (c_div level 20)\<rparr> }"

fun first_nonzero :: "byte list \<Rightarrow> nat list \<Rightarrow> nat option option" where
  "first_nonzero row [] = Some None"
| "first_nonzero row (j # js) = do { x \<leftarrow> nth_opt row j; if x = 0 then first_nonzero row js else Some (Some j) }"

definition scan_points_3d :: "platform_trig \<Rightarrow> platform \<Rightarrow> float32 \<Rightarrow> u16 \<Rightarrow> u16 \<Rightarrow> rows \<Rightarrow> nat \<Rightarrow> point_xyzi list option" where
  "scan_points_3d lib s res nbins nazimuths edges i = do {
     let theta = f32_of_f64 (f64_div (f64_mul (f64_mul (f64_of_int 2) m_pi) (f64_of_int (int i)))
       (f64_of_int (uint nazimuths)));
     row \<leftarrow> nth_opt edges i;
     j \<leftarrow> first_nonzero row [30..<unat nbins];
     (case j of
        None \<Rightarrow> Some []
      | Some k \<Rightarrow> if in_view (maxangle s) theta then map_option (\<lambda>p. [p]) (point_3d lib s res theta k) else Some []) }"

definition create_3d_cloud :: "platform_trig \<Rightarrow> float32 \<Rightarrow> u16 \<Rightarrow> u16 \<Rightarrow> rows \<Rightarrow> platform \<Rightarrow> platform option" where
  "create_3d_cloud lib res nbins nazimuths edges s = do {
     points \<leftarrow> those (map (scan_points_3d lib s res nbins nazimuths edges) [0..<unat nazimuths]);
     Some (s\<lparr>last_phi := phi s, cloud_3d := cloud_3d s @ concat points\<rparr>) }"

definition update_phi :: "float32 \<Rightarrow> platform \<Rightarrow> platform" where
  "update_phi v s = s\<lparr>phi := f32_div (f32_mul (f32_mul (f32_of_int 2) v) (f32_of_int 360)) (f32_of_int 4096)\<rparr>"

section \<open>The parameters of the node\<close>

record platform_config =
  cfg_three_d :: bool
  cfg_threshold :: int
  cfg_dilation :: int
  cfg_gaussian :: int
  cfg_pcl_threshold :: int
  cfg_maxangle :: int
  cfg_colormap :: int
  cfg_boxes :: bool
  cfg_min_area :: bool
  cfg_average :: bool
  cfg_scan :: bool
  cfg_cloud :: bool
  cfg_image :: bool
  cfg_processing :: bool
  cfg_grid :: bool
  cfg_adaptive :: bool
  cfg_above_average :: int
  cfg_adaptive_size :: int
  cfg_grid_step :: int
  cfg_grid_opacity :: float64

definition param_callback :: "platform_config \<Rightarrow> platform \<Rightarrow> platform option" where
  "param_callback c s = do {
     let s1 = s\<lparr>three_d_on := cfg_three_d c, pf_threshold := word_of_int (cfg_threshold c),
       dilation := word_of_int (cfg_dilation c), gaussian := word_of_int (cfg_gaussian c),
       pcl_threshold := word_of_int (cfg_pcl_threshold c), maxangle := word_of_int (cfg_maxangle c),
       colormap := word_of_int (cfg_colormap c), boxes_on := cfg_boxes c, min_area_on := cfg_min_area c,
       average_on := cfg_average c, scan_on := cfg_scan c, cloud_on := cfg_cloud c, image_on := cfg_image c,
       processing_on := cfg_processing c, grid_on := cfg_grid c, adaptive_on := cfg_adaptive c,
       above_average := word_of_int (cfg_above_average c), adaptive_size := word_of_int (cfg_adaptive_size c)\<rparr>;
     if grid_on s1 then do {
       let step = word_of_int (cfg_grid_step c);
       m \<leftarrow> f32_to_u16 (f32_div (f32_of_int (uint step)) (f32_mul (pf_range_res s1) (f32_of_int 2)));
       Some (s1\<lparr>grid_step := step, grid_step_m := m, grid_opacity := cfg_grid_opacity c\<rparr>) }
     else Some s1 }"

section \<open>The handler of an image\<close>

text \<open>
  The first image of an average is shared with it: when the edges are found in place afterwards, the
  average changes with the image.
\<close>

definition update_average :: "'c cv_lib \<Rightarrow> rows \<Rightarrow> platform \<Rightarrow> (rows \<times> bool \<times> platform) option" where
  "update_average cv img s =
     (if average_on s then
        (if average_initialised s then do {
           avg \<leftarrow> mix_average cv (average s) img;
           img' \<leftarrow> subtract_rows cv img avg;
           Some (img', False, s\<lparr>average := avg\<rparr>) }
         else Some (img, True, s\<lparr>average := img, average_initialised := True\<rparr>))
      else Some (img, False, s\<lparr>average_initialised := False\<rparr>))"

definition emit_if :: "bool \<Rightarrow> 'a option \<Rightarrow> 'a list option" where
  "emit_if on x = (if on then map_option (\<lambda>a. [a]) x else Some [])"

definition f32_equal :: "float32 \<Rightarrow> float32 \<Rightarrow> bool" where
  "f32_equal x y \<longleftrightarrow> fp_leq (val32 x) (val32 y) \<and> fp_leq (val32 y) (val32 x)"

text \<open>Two readings of the clock decide on the factor of the next image; the differences wrap.\<close>

definition adapt_downsampling :: "u64 \<Rightarrow> u64 \<Rightarrow> u64 \<Rightarrow> int \<Rightarrow> int" where
  "adapt_downsampling t0 t1 t2 f =
     (let f1 = (if t1 - t0 > 150 \<and> f < 8 then f + 1 else f)
      in if t2 - t0 < 50 \<and> f1 > 1 then f1 - 1 else f1)"

definition chatter_callback ::
    "'c cv_lib \<Rightarrow> platform_trig \<Rightarrow> u64 \<times> u64 \<times> u64 \<Rightarrow> msg_header \<Rightarrow> rows \<Rightarrow> platform \<Rightarrow>
     (platform \<times> 'c platform_action list) option" where
  "chatter_callback cv lib clock stamp polar_img s = do {
     let (t0, t1, t2) = clock;
     let resized = resize_rows cv (f32_div (f32_of_int 1) (f32_of_int (downsampling s))) polar_img;
     let bins = (of_nat (length resized) :: u16);
     let img = normalise_rows cv (rotate_ccw cv resized);
     let res = f32_mul (pf_range_res s) (f32_of_int (downsampling s));
     cloud \<leftarrow> emit_if (cloud_on s) (map_option Publish_filtered_cloud (filtered_cloud cv lib res s img));
     cart \<leftarrow> emit_if (image_on s) (map_option Publish_cartesian (processed_image cv s img));
     (img1, shared, s1) \<leftarrow> update_average cv img s;
     (img2, edges) \<leftarrow> (if boxes_on s1 \<or> scan_on s1 \<or> three_d_on s1 then find_edges cv s1 img1 [] else Some (img1, []));
     let s2 = (if shared then s1\<lparr>average := img2\<rparr> else s1);
     (edges2, boxes) \<leftarrow> (if boxes_on s2
       then map_option (\<lambda>(e, ms). (e, [Publish_markers ms])) (bounding_boxes cv lib s2 res img2 edges)
       else Some (edges, []));
     let cols = (of_nat (image_cols edges2) :: u16);
     let azs = (of_nat (length edges2) :: u16);
     scan \<leftarrow> emit_if (scan_on s2) (map_option Publish_scan3 (laser_scan_of res cols azs (uint bins) stamp edges2));
     let filtered = (if boxes_on s2 \<or> scan_on s2 then [Publish_edges edges2] else []);
     s3 \<leftarrow> (if three_d_on s2 \<and> \<not> f32_equal (phi s2) (last_phi s2)
       then create_3d_cloud lib res cols azs edges2 s2 else Some s2);
     let cloud3 = (if three_d_on s3 then [Publish_cloud_3d (cloud_3d s3)] else []);
     Some (s3\<lparr>downsampling := adapt_downsampling t0 t1 t2 (downsampling s3)\<rparr>,
       cloud @ cart @ boxes @ scan @ filtered @ cloud3) }"

section \<open>The tables are filled\<close>

lemma fill_tables_fills:
  assumes "list_all (\<lambda>(k, i). 0 \<le> k \<and> nat k < length (sin_values s) \<and> nat k < length (cos_values s)) ks"
  shows "\<exists>s'. fill_tables lib n ks s = Some s' \<and> length (sin_values s') = length (sin_values s) \<and>
    length (cos_values s') = length (cos_values s) \<and> s' = s\<lparr>sin_values := sin_values s', cos_values := cos_values s'\<rparr> \<and>
    (\<forall>j. sin_values s' ! j = (case map_of (rev ks) (int j) of Some i \<Rightarrow> sinf lib (azimuth_theta i n) | None \<Rightarrow> sin_values s ! j) \<and>
      cos_values s' ! j = (case map_of (rev ks) (int j) of Some i \<Rightarrow> cosf lib (azimuth_theta i n) | None \<Rightarrow> cos_values s ! j))"
  using assms
proof (induction ks arbitrary: s)
  case (Cons x ks)
  obtain k i where x: "x = (k, i)" by (cases x)
  let ?s = "s\<lparr>sin_values := (sin_values s)[nat k := sinf lib (azimuth_theta i n)],
    cos_values := (cos_values s)[nat k := cosf lib (azimuth_theta i n)]\<rparr>"
  have k: "0 \<le> k" "nat k < length (sin_values s)" "nat k < length (cos_values s)" using Cons.prems by (auto simp: x)
  from Cons.IH [of ?s] Cons.prems obtain s' where s': "fill_tables lib n ks ?s = Some s'"
    "length (sin_values s') = length (sin_values s)" "length (cos_values s') = length (cos_values s)"
    "s' = ?s\<lparr>sin_values := sin_values s', cos_values := cos_values s'\<rparr>"
    "\<And>j. sin_values s' ! j = (case map_of (rev ks) (int j) of Some i \<Rightarrow> sinf lib (azimuth_theta i n) | None \<Rightarrow> sin_values ?s ! j)"
    "\<And>j. cos_values s' ! j = (case map_of (rev ks) (int j) of Some i \<Rightarrow> cosf lib (azimuth_theta i n) | None \<Rightarrow> cos_values ?s ! j)"
    by auto
  have "fill_tables lib n (x # ks) s = Some s'" using k s'(1) by (simp add: x set_opt_def)
  moreover have "s' = s\<lparr>sin_values := sin_values s', cos_values := cos_values s'\<rparr>" using s'(4) by simp
  moreover have "map_of (rev (x # ks)) (int j) = (case map_of (rev ks) (int j) of Some i \<Rightarrow> Some i | None \<Rightarrow> if int j = k then Some i else None)" for j
    by (simp add: x map_add_def split: option.splits)
  ultimately show ?case
    using s'(2,3,5,6) k by (auto simp: nth_list_update nat_eq_iff split: option.splits)
qed simp

lemma fill_tables_outside:
  assumes "list_ex (\<lambda>(k, i). k < 0 \<or> length (sin_values s) \<le> nat k) ks"
  shows "fill_tables lib n ks s = None"
  using assms
proof (induction ks arbitrary: s)
  case (Cons x ks)
  obtain k i where x: "x = (k, i)" by (cases x)
  show ?case using Cons by (auto simp: x set_opt_def)
qed simp

lemma map_of_rev_upto: "map_of (rev (map (\<lambda>i. (i, f i)) [a..b])) k = (if a \<le> k \<and> k \<le> b then Some (f k) else None)"
proof -
  have "map_of (rev (map (\<lambda>i. (i, f i)) xs)) k = (if k \<in> set xs then Some (f k) else None)" for xs
    by (induction xs rule: rev_induct) auto
  then show ?thesis by simp
qed

lemma fill_range:
  assumes "length (sin_values s) = 405" "length (cos_values s) = 405" "0 \<le> a" "b < 405"
  shows "\<exists>s'. fill_tables lib n (map (\<lambda>i. (i, f i)) [a..b]) s = Some s' \<and> length (sin_values s') = 405 \<and>
    length (cos_values s') = 405 \<and> pf_range_res s' = pf_range_res s \<and> pf_azimuths s' = pf_azimuths s \<and>
    (\<forall>j. sin_values s' ! j = (if a \<le> int j \<and> int j \<le> b then sinf lib (azimuth_theta (f (int j)) n) else sin_values s ! j) \<and>
      cos_values s' ! j = (if a \<le> int j \<and> int j \<le> b then cosf lib (azimuth_theta (f (int j)) n) else cos_values s ! j))"
proof -
  have "list_all (\<lambda>(k, i). 0 \<le> k \<and> nat k < length (sin_values s) \<and> nat k < length (cos_values s)) (map (\<lambda>i. (i, f i)) [a..b])"
    using assms by (auto simp: list_all_iff)
  from fill_tables_fills [OF this, of lib n] obtain s' where s': "fill_tables lib n (map (\<lambda>i. (i, f i)) [a..b]) s = Some s'"
    "length (sin_values s') = length (sin_values s)" "length (cos_values s') = length (cos_values s)"
    "s' = s\<lparr>sin_values := sin_values s', cos_values := cos_values s'\<rparr>"
    "\<forall>j. sin_values s' ! j = (case map_of (rev (map (\<lambda>i. (i, f i)) [a..b])) (int j) of
        Some i \<Rightarrow> sinf lib (azimuth_theta i n) | None \<Rightarrow> sin_values s ! j) \<and>
      cos_values s' ! j = (case map_of (rev (map (\<lambda>i. (i, f i)) [a..b])) (int j) of
        Some i \<Rightarrow> cosf lib (azimuth_theta i n) | None \<Rightarrow> cos_values s ! j)" by blast
  moreover have "pf_range_res s' = pf_range_res s" "pf_azimuths s' = pf_azimuths s"
    using arg_cong [OF s'(4), of pf_range_res] arg_cong [OF s'(4), of pf_azimuths] by simp_all
  ultimately show ?thesis using assms(1,2) by (simp add: map_of_rev_upto)
qed

text \<open>
  C25: the tables of a radar with at least 5 and at most 400 azimuths hold the sine and the cosine of
  each azimuth, and again of the first five behind the last; with more azimuths the tables are
  written outside of their bounds.
\<close>

theorem tables_wrap_around:
  assumes "length (sin_values s) = 405" "length (cos_values s) = 405" "5 \<le> n" "n < 65536"
  shows "if n \<le> 400
    then \<exists>s'. initialise_parameters lib (Some r) (Some n) s = Some s' \<and> pf_range_res s' = r \<and> uint (pf_azimuths s') = n \<and>
      length (sin_values s') = 405 \<and> length (cos_values s') = 405 \<and>
      (\<forall>i < nat n + 5. sin_values s' ! i = sinf lib (azimuth_theta (int i mod n) (pf_azimuths s')) \<and>
        cos_values s' ! i = cosf lib (azimuth_theta (int i mod n) (pf_azimuths s')))
    else initialise_parameters lib (Some r) (Some n) s = None"
proof -
  let ?w = "word_of_int n :: u16" and ?s = "s\<lparr>pf_range_res := r, pf_azimuths := word_of_int n\<rparr>"
  let ?ks1 = "map (\<lambda>i. (i, i)) [0..n - 1]" and ?ks2 = "map (\<lambda>i. (i, i - n)) [n..n + 4]"
  have w: "uint ?w = n" using assms by (simp add: uint_word_of_int)
  have init: "initialise_parameters lib (Some r) (Some n) s = Option.bind (fill_tables lib ?w ?ks1 ?s) (fill_tables lib ?w ?ks2)"
    by (simp add: initialise_parameters_def w Let_def)
  show ?thesis
  proof (cases "n \<le> 400")
    case True
    obtain s1 where s1: "fill_tables lib ?w ?ks1 ?s = Some s1" "length (sin_values s1) = 405" "length (cos_values s1) = 405"
      "pf_range_res s1 = r" "pf_azimuths s1 = ?w"
      "\<And>j. sin_values s1 ! j = (if int j < n then sinf lib (azimuth_theta (int j) ?w) else sin_values s ! j)"
      "\<And>j. cos_values s1 ! j = (if int j < n then cosf lib (azimuth_theta (int j) ?w) else cos_values s ! j)"
      using fill_range [of ?s 0 "n - 1" lib ?w "\<lambda>i. i"] assms True by auto
    obtain s2 where s2: "fill_tables lib ?w ?ks2 s1 = Some s2" "length (sin_values s2) = 405" "length (cos_values s2) = 405"
      "pf_range_res s2 = r" "pf_azimuths s2 = ?w"
      "\<And>j. sin_values s2 ! j = (if n \<le> int j \<and> int j \<le> n + 4 then sinf lib (azimuth_theta (int j - n) ?w) else sin_values s1 ! j)"
      "\<And>j. cos_values s2 ! j = (if n \<le> int j \<and> int j \<le> n + 4 then cosf lib (azimuth_theta (int j - n) ?w) else cos_values s1 ! j)"
      using fill_range [of s1 n "n + 4" lib ?w "\<lambda>i. i - n"] assms True s1(2-5) by auto
    have m: "int i mod n = (if int i < n then int i else int i - n)" if "i < nat n + 5" for i
    proof (cases "int i < n")
      case False
      then have "(int i - n) mod n = int i - n" using that assms(3) by (intro mod_pos_pos_trivial) auto
      then show ?thesis using False minus_mod_self2 [of "int i" n] by simp
    qed simp
    have le: "int i \<le> n + 4" if "i < nat n + 5" for i using that assms(3) by simp
    show ?thesis
      using True s2(2-5) w by (auto simp: init s1(1) s2(1,6,7) s1(6,7) m le)
  next
    case False
    have "fill_tables lib ?w ?ks1 ?s = None" if "406 \<le> n"
      using that assms by (intro fill_tables_outside) (auto simp: list_ex_iff intro!: bexI [of _ 405])
    moreover have "fill_tables lib ?w ?ks2 s1 = None" if "n < 406" "length (sin_values s1) = 405" for s1
      using that False by (intro fill_tables_outside) (auto simp: list_ex_iff intro!: bexI [of _ "n + 4"])
    moreover have "length (sin_values s1) = 405" if "fill_tables lib ?w ?ks1 ?s = Some s1" "n < 406" for s1
      using fill_range [of ?s 0 "n - 1" lib ?w "\<lambda>i. i"] assms that by auto
    ultimately show ?thesis
      using False by (cases "fill_tables lib ?w ?ks1 ?s"; cases "n < 406") (auto simp: init)
  qed
qed

definition sample_trig :: platform_trig where
  "sample_trig = \<lparr>cosf = id, sinf = id, cosd = id, sind = id\<rparr>"

theorem tables_wrap_around_witness:
  "(\<exists>s'. initialise_parameters sample_trig (Some (F32 0)) (Some 400) new_platform = Some s' \<and> sin_values s' ! 403 = azimuth_theta 3 400) \<and>
   initialise_parameters sample_trig (Some (F32 0)) (Some 401) new_platform = None"
proof -
  have l: "length (sin_values new_platform) = 405" "length (cos_values new_platform) = 405"
    by (simp_all add: new_platform_def)
  obtain s' where s': "initialise_parameters sample_trig (Some (F32 0)) (Some 400) new_platform = Some s'"
    "uint (pf_azimuths s') = 400" "\<And>i. i < 405 \<Longrightarrow> sin_values s' ! i = azimuth_theta (int i mod 400) (pf_azimuths s')"
    using tables_wrap_around [OF l, of 400 sample_trig "F32 0"] by (auto simp: sample_trig_def)
  have "uint (pf_azimuths s') = uint (400 :: u16)" using s'(2) by simp
  then have "pf_azimuths s' = 400" by (rule word_uint_eqI)
  then show ?thesis
    using s'(1) s'(3) [of 403] tables_wrap_around [OF l, of 401 sample_trig "F32 0"] by simp
qed

section \<open>Markers\<close>

lemma those_total:
  assumes "\<And>x. x \<in> set xs \<Longrightarrow> \<exists>y. f x = Some y"
  shows "\<exists>ys. those (map f xs) = Some ys \<and> length ys = length xs"
  using assms
proof (induction xs)
  case (Cons x xs)
  obtain y where "f x = Some y" using Cons.prems by auto
  moreover obtain ys where "those (map f xs) = Some ys" "length ys = length xs"
    using Cons.IH Cons.prems by auto
  ultimately show ?case by simp
qed simp

lemma length_outline: "length (outline vs) = 2 * length vs"
proof -
  have "length (concat (map (\<lambda>j. [f j, g j]) xs)) = 2 * length xs" for f g :: "nat \<Rightarrow> 'a" and xs
    by (induction xs) simp_all
  then show ?thesis by (simp add: outline_def)
qed

lemma length_heights [simp]: "length (heights k z) = k"
  by (induction k arbitrary: z) simp_all

lemma length_layers: "length (concat (map (\<lambda>z. map (f z) xs) zs)) = length zs * length xs"
  by (induction zs) simp_all

text \<open>
  An object whose outline lies in the image of edges, which has five rows more than there are
  azimuths, gets a marker: all its vertices are found in the tables, and the marker has twenty points
  for each of them, ten layers of one line for each side.
\<close>

theorem object_gets_box:
  assumes "length (sin_values s) = 405" "length (cos_values s) = 405" "uint (pf_azimuths s) \<le> 400"
    and "list_all (\<lambda>(x, y). 0 \<le> y \<and> y < uint (pf_azimuths s) + 5) contour"
  shows "\<exists>ps. box_points s res contour = Some ps \<and> length ps = 20 * length contour"
proof -
  have "\<exists>p. table_point s res v = Some p" if "v \<in> set contour" for v
    using assms that by (cases v) (auto simp: table_point_def nth_opt_def list_all_iff)
  then obtain vs where
    "those (map (table_point s res) contour) = Some vs" "length vs = length contour"
    using those_total [of contour "table_point s res"] by blast
  then show ?thesis
    using length_layers [of "\<lambda>z (x, y). (x, y, z)" "outline vs" "heights 10 (f64_of_int 0)"]
    by (simp add: box_points_def length_outline case_prod_unfold)
qed

theorem object_gets_box_witness:
  "\<exists>ps. box_points new_platform (F32 0) [(3, 0), (9, 404), (5, 2)] = Some ps \<and> length ps = 60"
  using object_gets_box [of new_platform "[(3, 0), (9, 404), (5, 2)]" "F32 0"] by (simp add: new_platform_def)

section \<open>The scan\<close>

lemma first_edge_from:
  assumes "30 \<le> n" "n \<le> length row + 1" "a \<le> n - 2"
  shows "\<exists>j. first_edge row (int n) [a..<n] = Some (Some j) \<and> a \<le> j \<and> j \<le> n - 2 \<and> (j = n - 2 \<or> row ! j \<noteq> 0) \<and>
    (\<forall>i. a \<le> i \<and> i < j \<longrightarrow> row ! i = 0)"
  using assms(3)
proof (induction "n - 2 - a" arbitrary: a)
  case 0
  then have "a = n - 2" by simp
  then show ?case using assms(1) by (auto simp: upt_conv_Cons)
next
  case (Suc k)
  then have a: "a < n - 2" "a < n" "int a \<noteq> int n - 2" "a < length row" using assms by auto
  show ?case
  proof (cases "row ! a = 0")
    case True
    obtain j where "first_edge row (int n) [Suc a..<n] = Some (Some j)" "Suc a \<le> j" "j \<le> n - 2" "j = n - 2 \<or> row ! j \<noteq> 0"
      "\<And>i. Suc a \<le> i \<and> i < j \<Longrightarrow> row ! i = 0"
    proof -
      have "k = n - 2 - Suc a" "Suc a \<le> n - 2" using Suc.hyps(2) a(1) by simp_all
      from Suc.hyps(1) [OF this] show thesis using that by blast
    qed
    moreover have "row ! i = 0" if "a \<le> i \<and> i < j" for i
      using that True calculation(5) [of i] by (cases "i = a") auto
    moreover have "first_edge row (int n) [a..<n] = first_edge row (int n) [Suc a..<n]"
      using True a by (simp add: upt_conv_Cons [of a n] nth_opt_def)
    ultimately show ?thesis by (intro exI [of _ j]) auto
  next
    case False
    then show ?thesis using a by (intro exI [of _ a]) (auto simp: upt_conv_Cons nth_opt_def)
  qed
qed

text \<open>
  The bin reported for an azimuth is the first from 30 on that holds an edge, or the last but one
  bin when there is none before it: the last two bins are never searched.
\<close>

theorem scan_reports_first_edge:
  assumes "32 \<le> n" "n \<le> length row + 1"
  shows "\<exists>j. first_edge row (int n) [30..<n] = Some (Some j) \<and> 30 \<le> j \<and> j \<le> n - 2 \<and> (j = n - 2 \<or> row ! j \<noteq> 0) \<and>
    (\<forall>i. 30 \<le> i \<and> i < j \<longrightarrow> row ! i = 0)"
  using first_edge_from [of n row 30] assms by simp

section \<open>The grid\<close>

lemma grid_lines_set:
  assumes "0 < step"
  shows "set (grid_lines i extent step) = {x. i \<le> x \<and> x < extent \<and> step dvd x - i}"
  using assms
proof (induction i extent step rule: grid_lines.induct)
  case (1 i extent step)
  show ?case
  proof (cases "i < extent")
    case True
    have "(i \<le> x \<and> step dvd x - i) = (x = i \<or> i + step \<le> x \<and> step dvd x - (i + step))" for x
    proof -
      have "step dvd x - (i + step) \<longleftrightarrow> step dvd x - i"
        using dvd_diff_left_iff [of step step "x - i"] by (simp add: algebra_simps)
      moreover have "i + step \<le> x" if "i < x" "step dvd x - i" using zdvd_imp_le [OF that(2)] that(1) by simp
      ultimately show ?thesis using 1(2) by (auto simp: le_less)
    qed
    then show ?thesis using 1 True by (subst grid_lines.simps) auto
  next
    case False
    then show ?thesis by (subst grid_lines.simps) auto
  qed
qed

text \<open>
  The lines of the grid lie at the positions congruent to the middle modulo the step, and one of
  them is the middle; with a step of zero there is no grid, since the remainder is undefined.
\<close>

theorem grid_passes_middle:
  assumes "0 < extent"
  shows "if step = 0 then grid_positions extent step = None
    else \<exists>ps. grid_positions extent step = Some ps \<and> extent div 2 \<in> set ps \<and>
      set ps = {x. 0 \<le> x \<and> x < extent \<and> x mod uint step = extent div 2 mod uint step}"
proof (cases "step = 0")
  case False
  let ?k = "uint step" and ?m = "extent div 2"
  have k: "0 < ?k" using False uint_bounds [of step] by (metis le_less uint_0_iff)
  have "(?m mod ?k \<le> x \<and> ?k dvd x - ?m mod ?k) = (0 \<le> x \<and> x mod ?k = ?m mod ?k)" for x
    using k zmod_le_nonneg_dividend [of x ?k] by (auto simp: mod_eq_dvd_iff [symmetric] intro: order_trans [OF pos_mod_sign [OF k]])
  then have "set (grid_lines (?m mod ?k) extent ?k) = {x. 0 \<le> x \<and> x < extent \<and> x mod ?k = ?m mod ?k}"
    using grid_lines_set [OF k, of "?m mod ?k" extent] by auto
  then show ?thesis using False assms by (auto simp: grid_positions_def)
qed (simp add: grid_positions_def)

theorem grid_passes_middle_witness:
  "grid_positions 100 0 = None \<and> (\<exists>ps. grid_positions 100 7 = Some ps \<and> 50 \<in> set ps)"
  using grid_passes_middle [of 100 0] grid_passes_middle [of 100 7] by auto

section \<open>The state after an image\<close>

definition prepared :: "'c cv_lib \<Rightarrow> platform \<Rightarrow> rows \<Rightarrow> rows" where
  "prepared cv s img = normalise_rows cv (rotate_ccw cv (resize_rows cv (f32_div (f32_of_int 1) (f32_of_int (downsampling s))) img))"

definition shared_average :: "bool \<Rightarrow> rows \<Rightarrow> platform \<Rightarrow> platform" where
  "shared_average shared img s = (if shared then s\<lparr>average := img\<rparr> else s)"

lemma chatter_steps:
  assumes "chatter_callback cv lib clock stamp img s = Some (s', acts)"
  obtains img1 shared s1 img2 edges s3 res cols azs edges2 where
    "update_average cv (prepared cv s img) s = Some (img1, shared, s1)"
    "(if boxes_on s1 \<or> scan_on s1 \<or> three_d_on s1 then find_edges cv s1 img1 [] else Some (img1, [])) = Some (img2, edges)"
    "(if three_d_on (shared_average shared img2 s1) \<and> \<not> f32_equal (phi (shared_average shared img2 s1)) (last_phi (shared_average shared img2 s1))
      then create_3d_cloud lib res cols azs edges2 (shared_average shared img2 s1)
      else Some (shared_average shared img2 s1)) = Some s3"
    "s' = s3\<lparr>downsampling := (case clock of (t0, t1, t2) \<Rightarrow> adapt_downsampling t0 t1 t2 (downsampling s3))\<rparr>"
proof -
  obtain t0 t1 t2 where c: "clock = (t0, t1, t2)" by (cases clock)
  note it = that
  from assms show thesis
    unfolding chatter_callback_def c Let_def Option.bind_eq_Some_conv split_paired_Ex prod.case
    by (elim exE conjE) (rule it [unfolded shared_average_def prepared_def c prod.case], assumption, assumption, assumption, simp)
qed

lemma update_average_keeps:
  assumes "update_average cv img s = Some (img', b, s1)"
  shows "cloud_3d s1 = cloud_3d s \<and> phi s1 = phi s \<and> last_phi s1 = last_phi s \<and> three_d_on s1 = three_d_on s \<and>
    downsampling s1 = downsampling s \<and> boxes_on s1 = boxes_on s \<and> scan_on s1 = scan_on s"
  using assms by (auto simp: update_average_def split: if_splits Option.bind_splits)

lemma shared_average_keeps [simp]:
  "cloud_3d (shared_average b img s) = cloud_3d s" "phi (shared_average b img s) = phi s"
  "last_phi (shared_average b img s) = last_phi s" "three_d_on (shared_average b img s) = three_d_on s"
  "downsampling (shared_average b img s) = downsampling s" "average (shared_average True img s) = img"
  by (simp_all add: shared_average_def)

lemma create_3d_cloud_keeps:
  assumes "create_3d_cloud lib res c a e s = Some s1"
  shows "downsampling s1 = downsampling s \<and> average s1 = average s \<and> (\<exists>ps. cloud_3d s1 = cloud_3d s @ ps)"
  using assms by (auto simp: create_3d_cloud_def split: Option.bind_splits)

text \<open>The factor by which the image is reduced stays between 1 and 8 and changes by at most one.\<close>

theorem downsampling_bounded:
  assumes "chatter_callback cv lib clock stamp img s = Some (s', acts)" "1 \<le> downsampling s" "downsampling s \<le> 8"
  shows "1 \<le> downsampling s' \<and> downsampling s' \<le> 8 \<and> \<bar>downsampling s' - downsampling s\<bar> \<le> 1"
proof -
  from chatter_steps [OF assms(1)] obtain img1 shared s1 img2 edges s3 res cols azs edges2 where
    1: "update_average cv (prepared cv s img) s = Some (img1, shared, s1)"
    "(if three_d_on (shared_average shared img2 s1) \<and> \<not> f32_equal (phi (shared_average shared img2 s1)) (last_phi (shared_average shared img2 s1))
      then create_3d_cloud lib res cols azs edges2 (shared_average shared img2 s1)
      else Some (shared_average shared img2 s1)) = Some s3"
    "s' = s3\<lparr>downsampling := (case clock of (t0, t1, t2) \<Rightarrow> adapt_downsampling t0 t1 t2 (downsampling s3))\<rparr>"
    by metis
  have "downsampling s3 = downsampling (shared_average shared img2 s1)"
    using 1(2) create_3d_cloud_keeps [of lib res cols azs edges2 _ s3] by (auto split: if_splits)
  then have "downsampling s3 = downsampling s" using update_average_keeps [OF 1(1)] by simp
  then show ?thesis using 1(3) assms(2,3) by (auto simp: adapt_downsampling_def Let_def split: prod.splits)
qed

definition sample_cv :: "unit cv_lib" where
  "sample_cv = \<lparr>resize_rows = (\<lambda>_ img. img), rotate_ccw = id, normalise_rows = id, rescale = (\<lambda>_ _ img. img),
     blur = (\<lambda>_ img. img), reduce_to_row = (\<lambda>img. replicate (image_cols img) 1), adaptive = (\<lambda>_ _. Some), canny = id,
     dilate = (\<lambda>_ img. img), contours_of = (\<lambda>_. []), contour_level = (\<lambda>_ _. (F64 0, F64 0)),
     min_area_rect = (\<lambda>_. []), mix_average = (\<lambda>avg _. Some avg), subtract_rows = (\<lambda>img _. Some img),
     cartesian = (\<lambda>_ _. ()), colour = (\<lambda>_ _. ()), draw_grid = (\<lambda>_ _ _ _. ())\<rparr>"

definition no_stamp :: msg_header where
  "no_stamp = \<lparr>stamp_sec = 0, stamp_nanosec = 0, frame_id = []\<rparr>"

lemma quiet_callback:
  "chatter_callback sample_cv sample_trig (0, 200, 210) no_stamp [[7]] new_platform = Some (new_platform\<lparr>downsampling := 2\<rparr>, [])"
  by (simp add: chatter_callback_def new_platform_def emit_if_def update_average_def adapt_downsampling_def Let_def)

theorem downsampling_bounded_witness:
  "\<exists>s' acts. chatter_callback sample_cv sample_trig (0, 200, 210) no_stamp [[7]] new_platform = Some (s', acts) \<and> downsampling s' \<le> 8"
  using downsampling_bounded [OF quiet_callback] quiet_callback by (simp add: new_platform_def)

theorem scan_reports_first_edge_witness:
  "\<exists>j. first_edge (replicate 35 0 @ [1, 1] @ replicate 10 0) (int 40) [30..<40] = Some (Some j) \<and> j \<le> 38"
  using scan_reports_first_edge [of 40 "replicate 35 0 @ [1, 1] @ replicate 10 0"] by auto

section \<open>The filtered cloud\<close>

definition image_of :: "nat \<Rightarrow> nat \<Rightarrow> rows \<Rightarrow> bool" where
  "image_of n w img \<longleftrightarrow> length img = n \<and> list_all (\<lambda>row. length row = w) img"

definition view_point :: "platform_trig \<Rightarrow> float32 \<Rightarrow> rows \<Rightarrow> nat \<Rightarrow> nat \<Rightarrow> nat \<Rightarrow> point_xyzi" where
  "view_point lib res navigation n b i = (let r = f32_mul res (f32_of_int (int i)); theta = cloud_theta b n in
     \<lparr>pt_x = f32_mul r (cosf lib theta), pt_y = f32_mul r (sinf lib theta), pt_z = F32 0,
      pt_intensity = f32_of_int (uint (navigation ! b ! i))\<rparr>)"

lemma those_map_Some: "(\<And>x. x \<in> set xs \<Longrightarrow> f x = Some (g x)) \<Longrightarrow> those (map f xs) = Some (map g xs)"
  by (induction xs) simp_all

lemma those_concat_Some:
  "(\<And>b i. b \<in> set bs \<Longrightarrow> i \<in> set is \<Longrightarrow> f b i = Some (g b i)) \<Longrightarrow>
   those (concat (map (\<lambda>b. map (f b) is) bs)) = Some (concat (map (\<lambda>b. map (g b) is) bs))"
proof (induction bs)
  case (Cons b bs)
  have app: "those (xs @ ys) = (case those xs of None \<Rightarrow> None | Some us \<Rightarrow> (case those ys of None \<Rightarrow> None | Some vs \<Rightarrow> Some (us @ vs)))"
    for xs ys :: "'x option list"
    by (induction xs) (auto split: option.splits)
  show ?case using Cons those_map_Some [of "is" "f b" "g b"] by (simp add: app)
qed simp

text \<open>
  C24: the cloud holds one point for each pixel above the threshold, azimuth by azimuth, the first
  bin left out; a pixel outside of the angle of view is not dropped but becomes a point at the
  origin.
\<close>

theorem filtered_cloud_points:
  assumes "image_of n w img" "image_of n w (rescale cv (f64_of_int (uint (pcl_threshold s)))
      (f64_sub (f64_of_int 255) (f64_of_int (uint (pcl_threshold s)))) img)" "0 < n"
  shows "filtered_cloud cv lib res s img = Some (concat (map (\<lambda>b. map (\<lambda>i.
      if in_view (maxangle s) (cloud_theta b n)
      then view_point lib res (rescale cv (f64_of_int (uint (pcl_threshold s)))
        (f64_sub (f64_of_int 255) (f64_of_int (uint (pcl_threshold s)))) img) n b i
      else origin) (filter (\<lambda>i. uint (img ! b ! i) > uint (pcl_threshold s)) [1..<w])) [0..<n]))"
proof -
  let ?nav = "rescale cv (f64_of_int (uint (pcl_threshold s))) (f64_sub (f64_of_int 255) (f64_of_int (uint (pcl_threshold s)))) img"
  let ?p = "\<lambda>b i. if in_view (maxangle s) (cloud_theta b n) then view_point lib res ?nav n b i else origin"
  let ?g = "\<lambda>b i. if uint (img ! b ! i) > uint (pcl_threshold s) then [?p b i] else []"
  have w: "image_cols img = w" using assms(1,3) by (cases img) (auto simp: image_cols_def image_of_def)
  have "cloud_pixel lib res s img ?nav b i = Some (?g b i)" if "b < n" "i < w" for b i
    using assms(1,2) that
    by (auto simp: cloud_pixel_def image_of_def list_all_length nth_opt_def view_point_def Let_def)
  then have "those (concat (map (\<lambda>b. map (cloud_pixel lib res s img ?nav b) [1..<w]) [0..<n])) =
      Some (concat (map (\<lambda>b. map (?g b) [1..<w]) [0..<n]))"
    by (intro those_concat_Some) auto
  moreover have "concat (map (\<lambda>i. if P i then [h i] else []) xs) = map h (filter P xs)" for P and h :: "nat \<Rightarrow> point_xyzi" and xs
    by (induction xs) simp_all
  then have "concat (map (?g b) [1..<w]) = map (?p b) (filter (\<lambda>i. uint (img ! b ! i) > uint (pcl_threshold s)) [1..<w])" for b .
  then have "concat (concat (map (\<lambda>b. map (?g b) [1..<w]) xs)) = concat (map (\<lambda>b. map (?p b) (filter (\<lambda>i. uint (img ! b ! i) > uint (pcl_threshold s)) [1..<w])) xs)" for xs
    by (induction xs) simp_all
  ultimately show ?thesis using assms(1) by (simp add: filtered_cloud_def w image_of_def Let_def)
qed

lemma three_bins: "[Suc 0..<3] = [1, 2]"
  by (simp add: upt_rec)

theorem filtered_cloud_points_witness:
  "filtered_cloud sample_cv sample_trig (F32 0) new_platform [[200, 50, 61]] =
     Some [if in_view 35 (cloud_theta 0 1) then view_point sample_trig (F32 0) [[200, 50, 61]] 1 0 2 else origin]"
  using filtered_cloud_points [of 1 3 "[[200, 50, 61]]" sample_cv new_platform sample_trig "F32 0"]
  by (simp add: image_of_def sample_cv_def new_platform_def three_bins)

section \<open>Edges\<close>

lemma those_SomeD: "those xs = Some ys \<Longrightarrow> length ys = length xs \<and> (\<forall>i < length xs. xs ! i = Some (ys ! i))"
proof (induction xs arbitrary: ys)
  case (Cons x xs)
  then obtain y zs where "x = Some y" "those xs = Some zs" "ys = y # zs" by (auto split: option.splits)
  then show ?case using Cons.IH [of zs] by (auto simp: nth_Cons split: nat.splits)
qed simp

lemma threshold_rows_shape:
  assumes "threshold_rows cv t img = Some img'"
  shows "length img' = length img \<and> length img \<le> length (reduce_to_row cv img)"
proof -
  note l = those_SomeD [OF assms [unfolded threshold_rows_def]]
  have "i < length (reduce_to_row cv img)" if "i < length img" for i
    using l that by (auto simp: nth_opt_Some_iff Option.bind_eq_Some_conv)
  then show ?thesis using l by (metis length_map length_upt minus_nat.diff_0 not_le order_less_irrefl)
qed

text \<open>
  With a reduction that leaves one mean for each bin, an image with more azimuths than bins
  makes the comparison read behind the means.
\<close>

theorem more_azimuths_than_bins:
  assumes "length (reduce_to_row cv (blur cv (uint (gaussian s) * 2 + 1) img)) = image_cols img"
    "length (blur cv (uint (gaussian s) * 2 + 1) img) = length img" "image_cols img < length img"
  shows "find_edges cv s img out = None"
proof -
  have "threshold_rows cv (pf_threshold s) (blur cv (uint (gaussian s) * 2 + 1) img) = None"
    using threshold_rows_shape [of cv "pf_threshold s" "blur cv (uint (gaussian s) * 2 + 1) img"] assms
    by (cases "threshold_rows cv (pf_threshold s) (blur cv (uint (gaussian s) * 2 + 1) img)") auto
  then show ?thesis by (simp add: find_edges_def split: option.splits) 
qed

text \<open>
  The adaptive threshold has no effect: it is applied to the output before the output is
  overwritten, so that whenever it returns the result is that without it.
\<close>

theorem adaptive_threshold_ignored:
  assumes "adaptive cv (uint (adaptive_size s) * 2 + 1) (f64_neg (f64_of_int (uint (above_average s)))) out \<noteq> None"
  shows "find_edges cv (s\<lparr>adaptive_on := True\<rparr>) img out = find_edges cv (s\<lparr>adaptive_on := False\<rparr>) img out"
  using assms by (auto simp: find_edges_def)

text \<open>
  The edges have five rows more than there are azimuths, when the detector keeps the shape of
  the image, and so the scan made of them has five ranges too many and an angular step of a full
  turn over that number.
\<close>

theorem scan_has_five_too_many:
  assumes "find_edges cv s img out = Some (img', edges)" "\<And>e. length (canny cv e) = length e" "length img + 5 < 65536"
    and "laser_scan_of res nbins (of_nat (length edges)) radarbins stamp edges = Some sc"
    and "\<And>k i. length (blur cv k i) = length i"
  shows "length (ranges sc) = length img + 5 \<and>
    angle_increment sc = f32_of_f64 (f64_div (f64_mul (f64_of_int 2) m_pi) (f64_of_f32 (f32_of_int (int (length img) + 5))))"
proof -
  have e: "length edges = length img + 5"
    using assms(1,2,5) threshold_rows_shape [of cv "pf_threshold s" "blur cv (uint (gaussian s) * 2 + 1) img"]
    by (auto simp: find_edges_def blank_rows_def split: Option.bind_splits if_splits)
  have small: "unat (of_nat n :: u16) = n \<and> uint (of_nat n :: u16) = int n" if "n < 65536" for n
    using that by (simp add: unsigned_of_nat take_bit_nat_eq_self take_bit_int_eq_self)
  have "length (ranges sc) = length edges \<and>
    angle_increment sc = f32_of_f64 (f64_div (f64_mul (f64_of_int 2) m_pi) (f64_of_f32 (f32_of_int (int (length edges)))))"
    using assms(4) small [of "length edges"] e assms(3)
    by (auto simp: laser_scan_of_def scan_ranges_def Let_def dest!: those_SomeD split: Option.bind_splits simp del: of_nat_add)
  then show ?thesis using e by simp
qed

section \<open>Rows out of view\<close>

lemma blank_rows_blank:
  assumes "blank_rows from to img = Some img'"
  shows "length img' = length img \<and> (\<forall>i < length img. img' ! i =
    (if from \<le> int i \<and> int i < to then map (\<lambda>_. 0) (img ! i) else img ! i))"
  using assms by (auto simp: blank_rows_def split: if_splits)

section \<open>The three-dimensional cloud\<close>

text \<open>
  The cloud in three dimensions only grows: no image removes a point of it, and as long as the
  tilt does not change no point is added.
\<close>

theorem cloud_3d_only_grows:
  assumes "chatter_callback cv lib clock stamp img s = Some (s', acts)"
  shows "\<exists>ps. cloud_3d s' = cloud_3d s @ ps \<and> (ps \<noteq> [] \<longrightarrow> three_d_on s \<and> \<not> f32_equal (phi s) (last_phi s))"
proof -
  from chatter_steps [OF assms] obtain img1 shared s1 img2 edges s3 res cols azs edges2 where
    1: "update_average cv (prepared cv s img) s = Some (img1, shared, s1)"
    "(if three_d_on (shared_average shared img2 s1) \<and> \<not> f32_equal (phi (shared_average shared img2 s1)) (last_phi (shared_average shared img2 s1))
      then create_3d_cloud lib res cols azs edges2 (shared_average shared img2 s1)
      else Some (shared_average shared img2 s1)) = Some s3"
    "s' = s3\<lparr>downsampling := (case clock of (t0, t1, t2) \<Rightarrow> adapt_downsampling t0 t1 t2 (downsampling s3))\<rparr>"
    by metis
  have "\<exists>ps. cloud_3d s3 = cloud_3d (shared_average shared img2 s1) @ ps \<and>
      (ps \<noteq> [] \<longrightarrow> three_d_on s1 \<and> \<not> f32_equal (phi s1) (last_phi s1))"
    using 1(2) create_3d_cloud_keeps [of lib res cols azs edges2 "shared_average shared img2 s1" s3] by (auto split: if_splits)
  then show ?thesis using 1(3) update_average_keeps [OF 1(1)] by auto
qed

text \<open>
  The first image of an average is not kept as it came: when objects are looked for, the average
  is the image after the blur and the threshold that were made in place.
\<close>

theorem first_average_is_overwritten:
  assumes "chatter_callback cv lib clock stamp img s = Some (s', acts)" "average_on s" "\<not> average_initialised s"
    and "boxes_on s \<or> scan_on s \<or> three_d_on s"
  shows "\<exists>edges. find_edges cv (s\<lparr>average := prepared cv s img, average_initialised := True\<rparr>) (prepared cv s img) [] =
    Some (average s', edges)"
proof -
  from chatter_steps [OF assms(1)] obtain img1 shared s1 img2 edges s3 res cols azs edges2 where
    1: "update_average cv (prepared cv s img) s = Some (img1, shared, s1)"
    "(if boxes_on s1 \<or> scan_on s1 \<or> three_d_on s1 then find_edges cv s1 img1 [] else Some (img1, [])) = Some (img2, edges)"
    "(if three_d_on (shared_average shared img2 s1) \<and> \<not> f32_equal (phi (shared_average shared img2 s1)) (last_phi (shared_average shared img2 s1))
      then create_3d_cloud lib res cols azs edges2 (shared_average shared img2 s1)
      else Some (shared_average shared img2 s1)) = Some s3"
    "s' = s3\<lparr>downsampling := (case clock of (t0, t1, t2) \<Rightarrow> adapt_downsampling t0 t1 t2 (downsampling s3))\<rparr>"
    by metis
  have a: "img1 = prepared cv s img" "shared" "s1 = s\<lparr>average := prepared cv s img, average_initialised := True\<rparr>"
    using 1(1) assms(2,3) by (auto simp: update_average_def)
  have "find_edges cv s1 img1 [] = Some (img2, edges)" using 1(2) assms(4) by (auto simp: a(3))
  moreover have "average s3 = average (shared_average shared img2 s1)"
    using 1(3) create_3d_cloud_keeps [of lib res cols azs edges2 _ s3] by (auto split: if_splits)
  ultimately show ?thesis using 1(4) a by auto
qed

section \<open>A step of zero\<close>

text \<open>
  The step of the grid may be set to zero, the least value the parameter allows, and then the
  image that is to get the grid divides by zero.
\<close>

theorem zero_step_divides_by_zero:
  assumes "cfg_grid c" "cfg_grid_step c = 0" "val32 (f32_mul (pf_range_res s) (f32_of_int 2)) = Fin d" "0 < d"
  shows "\<exists>s'. param_callback c s = Some s' \<and> processed_image cv s' img = None"
proof -
  have "f32_to_u16 (f32_div (f32_of_int 0) (f32_mul (pf_range_res s) (f32_of_int 2))) = Some 0"
  proof -
    have "val32 (f32_of_int 0) = Fin 0" using val32_of_int [of 0] by simp
    then have "f32_div (f32_of_int 0) (f32_mul (pf_range_res s) (f32_of_int 2)) = mk32 (Fin 0)"
      using assms(3,4) by (simp add: f32_div_def fp_div_def Let_def signed_zero_def)
    moreover have "val32 (mk32 (Fin 0)) = Fin 0" by (rule val32_mk32) (simp add: rep_def)
    ultimately show ?thesis by (simp add: f32_to_u16_def fp_to_int_def rat_trunc_def Let_def)
  qed
  then show ?thesis
    using assms(1,2) by (auto simp: param_callback_def processed_image_def grid_positions_def Let_def)
qed

section \<open>Witnesses\<close>

definition flat :: rows where
  "flat = replicate 6 (replicate 6 9)"

lemma delta_row_0: "delta_row 6 0 = Some 3"
proof -
  have z: "val32 (f32_of_int 0) = Fin 0" using val32_of_int [of 0] by simp
  have v: "val64 (f64_of_int 360) = Fin 360" "val64 (f64_of_int 6) = Fin 6"
    using val64_of_int [of 360] val64_of_int [of 6] by simp_all
  have r: "val64 (mk64 (Fin 0)) = Fin 0" by (rule val64_mk64) (simp add: rep_def)
  have f: "val64 (f64_of_f32 (f32_of_int 0)) = Fin 0" by (simp add: f64_of_f32_def z fp_cast_def r)
  show ?thesis
    by (simp add: delta_row_def f64_mul_def f64_div_def f v r fp_div_def fp_mul_def signed_zero_def Let_def fp_round_def)
qed

lemma flat_edges: "find_edges sample_cv (new_platform\<lparr>maxangle := 0, pf_threshold := 0\<rparr>) flat [] = Some (flat, replicate 6 (replicate 6 0) @ replicate 5 (replicate 6 9))"
proof -
  have f: "flat = [[9,9,9,9,9,9],[9,9,9,9,9,9],[9,9,9,9,9,9],[9,9,9,9,9,9],[9,9,9,9,9,9],[9,9,9,9,9,9]]"
    by (simp add: flat_def numeral_eq_Suc)
  have t: "threshold_rows sample_cv 0 flat = Some flat"
    unfolding f by (simp add: threshold_rows_def sample_cv_def nth_opt_def image_cols_def threshold_to_zero_def upt_rec)
  have b: "blank_rows 0 6 (flat @ take 5 flat) = Some (replicate 6 (replicate 6 0) @ replicate 5 (replicate 6 9))"
    unfolding f by (simp add: blank_rows_def upt_rec numeral_eq_Suc)
  have "blur sample_cv = (\<lambda>_ img. img)" "canny sample_cv = id" by (simp_all add: sample_cv_def)
  moreover have "length flat = 6" by (simp add: flat_def)
  ultimately show ?thesis
    using t b delta_row_0 by (simp add: find_edges_def new_platform_def)
qed

lemma edges_scanned:
  "\<exists>sc. laser_scan_of res 0 (of_nat (length (replicate 6 (replicate 6 0) @ replicate 5 (replicate 6 (9 :: byte))))) 6 no_stamp
     (replicate 6 (replicate 6 0) @ replicate 5 (replicate 6 9)) = Some sc"
proof -
  let ?e = "replicate 6 (replicate 6 0) @ replicate 5 (replicate 6 (9 :: byte))"
  have "scan_ranges res 0 11 6 ?e = Some (map (\<lambda>_. F32 0) [0..<11])"
    unfolding scan_ranges_def by (simp, intro those_map_Some) (simp add: nth_opt_def)
  then show ?thesis by (simp add: laser_scan_of_def Let_def)
qed

theorem scan_has_five_too_many_witness:
  "\<exists>sc. laser_scan_of (F32 0) 0 11 6 no_stamp (replicate 6 (replicate 6 0) @ replicate 5 (replicate 6 9)) = Some sc \<and>
     length (ranges sc) = 11"
proof -
  obtain sc where sc: "laser_scan_of (F32 0) 0 (of_nat (length (replicate 6 (replicate 6 0) @ replicate 5 (replicate 6 (9 :: byte))))) 6 no_stamp
     (replicate 6 (replicate 6 0) @ replicate 5 (replicate 6 9)) = Some sc" using edges_scanned by blast
  have "length flat = 6" by (simp add: flat_def)
  then show ?thesis
    using scan_has_five_too_many [OF flat_edges _ _ sc] sc by (simp add: sample_cv_def)
qed

theorem cloud_3d_only_grows_witness:
  "\<exists>ps. cloud_3d (new_platform\<lparr>downsampling := 2\<rparr>) = cloud_3d new_platform @ ps"
  using cloud_3d_only_grows [OF quiet_callback] by blast

definition averaging_platform :: platform where
  "averaging_platform = new_platform\<lparr>maxangle := 0, pf_threshold := 0, average_on := True, three_d_on := True\<rparr>"

lemma averaging_callback:
  "\<exists>s' acts. chatter_callback sample_cv sample_trig (0, 100, 100) no_stamp flat averaging_platform = Some (s', acts)"
proof -
  let ?s = "averaging_platform\<lparr>average := flat, average_initialised := True\<rparr>"
  have "find_edges sample_cv ?s flat [] = find_edges sample_cv (new_platform\<lparr>maxangle := 0, pf_threshold := 0\<rparr>) flat []"
    by (simp add: find_edges_def averaging_platform_def new_platform_def)
  moreover have "f32_equal (F32 0) (F32 0)" by (simp add: f32_equal_def fp_leq_def fp_eval)
  moreover have "resize_rows sample_cv = (\<lambda>_ img. img)" "rotate_ccw sample_cv = id" "normalise_rows sample_cv = id"
    by (simp_all add: sample_cv_def)
  ultimately show ?thesis
    using flat_edges
    by (simp add: chatter_callback_def emit_if_def update_average_def Let_def averaging_platform_def new_platform_def)
qed

theorem first_average_is_overwritten_witness:
  "\<exists>s' acts edges. chatter_callback sample_cv sample_trig (0, 100, 100) no_stamp flat averaging_platform = Some (s', acts) \<and>
     find_edges sample_cv (averaging_platform\<lparr>average := prepared sample_cv averaging_platform flat, average_initialised := True\<rparr>)
       (prepared sample_cv averaging_platform flat) [] = Some (average s', edges)"
proof -
  obtain s' acts where c: "chatter_callback sample_cv sample_trig (0, 100, 100) no_stamp flat averaging_platform = Some (s', acts)"
    using averaging_callback by blast
  have "average_on averaging_platform" "\<not> average_initialised averaging_platform" "three_d_on averaging_platform"
    by (simp_all add: averaging_platform_def new_platform_def)
  then show ?thesis using first_average_is_overwritten [OF c] c by blast
qed

definition zero_step_config :: platform_config where
  "zero_step_config = \<lparr>cfg_three_d = False, cfg_threshold = 62, cfg_dilation = 2, cfg_gaussian = 5, cfg_pcl_threshold = 62,
     cfg_maxangle = 69, cfg_colormap = 10, cfg_boxes = False, cfg_min_area = False, cfg_average = False, cfg_scan = False,
     cfg_cloud = False, cfg_image = True, cfg_processing = False, cfg_grid = True, cfg_adaptive = False,
     cfg_above_average = 52, cfg_adaptive_size = 5, cfg_grid_step = 0, cfg_grid_opacity = F64 0\<rparr>"

theorem zero_step_divides_by_zero_witness:
  "\<exists>s'. param_callback zero_step_config (new_platform\<lparr>pf_range_res := f32_of_int 1\<rparr>) = Some s' \<and>
     processed_image sample_cv s' [[7]] = None"
proof -
  have v: "val32 (f32_of_int 1) = Fin 1" "val32 (f32_of_int 2) = Fin 2"
    using val32_of_int [of 1] val32_of_int [of 2] by simp_all
  have "to_fp b32 2 = Fin 2" using to_fp_int32 [of 2] by simp
  moreover have "rep b32 (to_fp b32 2)" by (rule rep_to_fp)
  ultimately have "val32 (f32_mul (f32_of_int 1) (f32_of_int 2)) = Fin 2"
    by (simp add: f32_mul_def v fp_mul_def Let_def val32_mk32)
  then show ?thesis
    using zero_step_divides_by_zero [of zero_step_config "new_platform\<lparr>pf_range_res := f32_of_int 1\<rparr>" 2 sample_cv "[[7]]"]
    by (simp add: zero_step_config_def)
qed

end
