(* ===== verification/Ros1_Parameters.thy ===== *)
theory Ros1_Parameters
  imports Ros1_Platform
begin

text \<open>
  \<open>ros1/src/cfg/cpp/nav_ross/dynamic_paramConfig.h\<close>: the parameters of the ROS 1 nodes, with their
  limits, and the operations a server of parameters calls on a configuration: reading it from a
  message and writing it to one, exchanging it with the parameter server, bringing it into the limits and computing the level of
  a change.  A pointer to a member is a \<open>member\<close>, its reading and its updating function; a
  \<open>boost::any\<close> is one of the three types of value, and a cast to another type is \<open>None\<close>.  The
  messages and the tools that read and write them belong to \<open>dynamic_reconfigure\<close> and are a parameter
  (\<open>config_tools\<close>).  The only group of the header is its default group, so that the lists of groups
  inside a group are empty.
\<close>

section \<open>The configuration\<close>

text \<open>The values are kept twice: in the configuration and in its default group.\<close>

record params =
  p_Phi :: float64
  p_ThreeDScanApp :: bool
  p_maxangle :: int
  p_LaserScan2_Map :: bool
  p_radarimage :: bool
  p_radarimageprocessing :: bool
  p_threshold_value :: int
  p_pointcloud :: bool
  p_pcl_threshold_value :: int
  p_boundingboxes2 :: bool
  p_MinAreaRect :: bool
  p_longtermaverage :: bool
  p_dilation_value :: int
  p_gaussian_value :: int
  p_adaptive_threshold :: bool
  p_level_above_average :: int
  p_adaptive_size :: int
  p_grid :: bool
  p_grid_stepSize :: int
  p_grid_opacity :: float64
  p_colormap :: int

record default_group = params +
  g_state :: bool
  g_name :: string

record dynamic_config = params +
  groups :: default_group

datatype 'v member = Member (member_get: "dynamic_config \<Rightarrow> 'v") (member_update: "('v \<Rightarrow> 'v) \<Rightarrow> dynamic_config \<Rightarrow> dynamic_config")

definition member_put :: "'v member \<Rightarrow> 'v \<Rightarrow> dynamic_config \<Rightarrow> dynamic_config" where
  "member_put m v = member_update m (\<lambda>_. v)"

datatype field = Double_Field "float64 member" | Bool_Field "bool member" | Int_Field "int member"

datatype any_value = Any_Double float64 | Any_Bool bool | Any_Int int

record param_description =
  pd_name :: string
  pd_type :: string
  pd_level :: u32
  pd_text :: string
  pd_edit :: string
  pd_field :: field

section \<open>The operations of a parameter\<close>

definition f64_equal :: "float64 \<Rightarrow> float64 \<Rightarrow> bool" where
  "f64_equal x y \<longleftrightarrow> fp_leq (val64 x) (val64 y) \<and> fp_leq (val64 y) (val64 x)"

definition clamp_member :: "('v \<Rightarrow> 'v \<Rightarrow> bool) \<Rightarrow> 'v member \<Rightarrow> dynamic_config \<Rightarrow> dynamic_config \<Rightarrow> dynamic_config \<Rightarrow> dynamic_config" where
  "clamp_member lt m hi lo c =
     (let c1 = if lt (member_get m hi) (member_get m c) then member_put m (member_get m hi) c else c
      in if lt (member_get m c1) (member_get m lo) then member_put m (member_get m lo) c1 else c1)"

fun clamp_field :: "field \<Rightarrow> dynamic_config \<Rightarrow> dynamic_config \<Rightarrow> dynamic_config \<Rightarrow> dynamic_config" where
  "clamp_field (Double_Field m) hi lo c = clamp_member f64_less m hi lo c"
| "clamp_field (Bool_Field m) hi lo c = clamp_member (<) m hi lo c"
| "clamp_field (Int_Field m) hi lo c = clamp_member (<) m hi lo c"

fun fields_differ :: "field \<Rightarrow> dynamic_config \<Rightarrow> dynamic_config \<Rightarrow> bool" where
  "fields_differ (Double_Field m) c1 c2 \<longleftrightarrow> \<not> f64_equal (member_get m c1) (member_get m c2)"
| "fields_differ (Bool_Field m) c1 c2 \<longleftrightarrow> member_get m c1 \<noteq> member_get m c2"
| "fields_differ (Int_Field m) c1 c2 \<longleftrightarrow> member_get m c1 \<noteq> member_get m c2"

definition calc_level :: "param_description \<Rightarrow> dynamic_config \<Rightarrow> dynamic_config \<Rightarrow> u32 \<Rightarrow> u32" where
  "calc_level d c1 c2 comb = (if fields_differ (pd_field d) c1 c2 then or comb (pd_level d) else comb)"

fun get_value :: "field \<Rightarrow> dynamic_config \<Rightarrow> any_value" where
  "get_value (Double_Field m) c = Any_Double (member_get m c)"
| "get_value (Bool_Field m) c = Any_Bool (member_get m c)"
| "get_value (Int_Field m) c = Any_Int (member_get m c)"

section \<open>Messages and the parameter server\<close>

text \<open>
  What \<open>dynamic_reconfigure::ConfigTools\<close> does with a message: each \<open>find\<close> is the value it stores into its
  argument, or \<open>None\<close> when it returns false.
\<close>

record 'm config_tools =
  clear_msg :: "'m \<Rightarrow> 'm"
  append_double :: "string \<Rightarrow> float64 \<Rightarrow> 'm \<Rightarrow> 'm"
  append_bool :: "string \<Rightarrow> bool \<Rightarrow> 'm \<Rightarrow> 'm"
  append_int :: "string \<Rightarrow> int \<Rightarrow> 'm \<Rightarrow> 'm"
  append_group :: "string \<Rightarrow> int \<Rightarrow> int \<Rightarrow> bool \<Rightarrow> 'm \<Rightarrow> 'm"
  find_double :: "string \<Rightarrow> 'm \<Rightarrow> float64 option"
  find_bool :: "string \<Rightarrow> 'm \<Rightarrow> bool option"
  find_int :: "string \<Rightarrow> 'm \<Rightarrow> int option"
  find_group :: "string \<Rightarrow> 'm \<Rightarrow> bool option"
  msg_size :: "'m \<Rightarrow> nat"

text \<open>The values a parameter server has under a name, for the three overloads of \<open>getParam\<close>.\<close>

record param_server_values =
  server_double :: "string \<Rightarrow> float64 option"
  server_bool :: "string \<Rightarrow> bool option"
  server_int :: "string \<Rightarrow> int option"

definition put_found :: "'v member \<Rightarrow> 'v option \<Rightarrow> dynamic_config \<Rightarrow> dynamic_config" where
  "put_found m found c = (case found of None \<Rightarrow> c | Some v \<Rightarrow> member_put m v c)"

fun field_from_message :: "'m config_tools \<Rightarrow> 'm \<Rightarrow> string \<Rightarrow> field \<Rightarrow> dynamic_config \<Rightarrow> bool \<times> dynamic_config" where
  "field_from_message t msg n (Double_Field m) c = (find_double t n msg \<noteq> None, put_found m (find_double t n msg) c)"
| "field_from_message t msg n (Bool_Field m) c = (find_bool t n msg \<noteq> None, put_found m (find_bool t n msg) c)"
| "field_from_message t msg n (Int_Field m) c = (find_int t n msg \<noteq> None, put_found m (find_int t n msg) c)"

fun field_to_message :: "'m config_tools \<Rightarrow> dynamic_config \<Rightarrow> string \<Rightarrow> field \<Rightarrow> 'm \<Rightarrow> 'm" where
  "field_to_message t c n (Double_Field m) msg = append_double t n (member_get m c) msg"
| "field_to_message t c n (Bool_Field m) msg = append_bool t n (member_get m c) msg"
| "field_to_message t c n (Int_Field m) msg = append_int t n (member_get m c) msg"

fun field_from_server :: "param_server_values \<Rightarrow> string \<Rightarrow> field \<Rightarrow> dynamic_config \<Rightarrow> dynamic_config" where
  "field_from_server sv n (Double_Field m) c = put_found m (server_double sv n) c"
| "field_from_server sv n (Bool_Field m) c = put_found m (server_bool sv n) c"
| "field_from_server sv n (Int_Field m) c = put_found m (server_int sv n) c"

section \<open>The default group\<close>

record group_description =
  gd_name :: string
  gd_type :: string
  gd_parent :: int
  gd_id :: int
  gd_state :: bool
  gd_params :: "param_description list"

fun as_double :: "((float64 \<Rightarrow> float64) \<Rightarrow> 'g \<Rightarrow> 'g) \<Rightarrow> any_value \<Rightarrow> 'g \<Rightarrow> 'g option" where
  "as_double upd (Any_Double v) g = Some (upd (\<lambda>_. v) g)"
| "as_double upd v g = None"

fun as_bool :: "((bool \<Rightarrow> bool) \<Rightarrow> 'g \<Rightarrow> 'g) \<Rightarrow> any_value \<Rightarrow> 'g \<Rightarrow> 'g option" where
  "as_bool upd (Any_Bool v) g = Some (upd (\<lambda>_. v) g)"
| "as_bool upd v g = None"

fun as_int :: "((int \<Rightarrow> int) \<Rightarrow> 'g \<Rightarrow> 'g) \<Rightarrow> any_value \<Rightarrow> 'g \<Rightarrow> 'g option" where
  "as_int upd (Any_Int v) g = Some (upd (\<lambda>_. v) g)"
| "as_int upd v g = None"

text \<open>\<open>DEFAULT::setParams\<close> compares the name of every parameter with each name of the group.\<close>

definition group_slots :: "(string \<times> (any_value \<Rightarrow> default_group \<Rightarrow> default_group option)) list" where
  "group_slots =
    [(''Phi'', as_double p_Phi_update),
     (''ThreeDScanApp'', as_bool p_ThreeDScanApp_update),
     (''maxangle'', as_int p_maxangle_update),
     (''LaserScan2_Map'', as_bool p_LaserScan2_Map_update),
     (''radarimage'', as_bool p_radarimage_update),
     (''radarimageprocessing'', as_bool p_radarimageprocessing_update),
     (''threshold_value'', as_int p_threshold_value_update),
     (''pointcloud'', as_bool p_pointcloud_update),
     (''pcl_threshold_value'', as_int p_pcl_threshold_value_update),
     (''boundingboxes2'', as_bool p_boundingboxes2_update),
     (''MinAreaRect'', as_bool p_MinAreaRect_update),
     (''longtermaverage'', as_bool p_longtermaverage_update),
     (''dilation_value'', as_int p_dilation_value_update),
     (''gaussian_value'', as_int p_gaussian_value_update),
     (''adaptive_threshold'', as_bool p_adaptive_threshold_update),
     (''level_above_average'', as_int p_level_above_average_update),
     (''adaptive_size'', as_int p_adaptive_size_update),
     (''grid'', as_bool p_grid_update),
     (''grid_stepSize'', as_int p_grid_stepSize_update),
     (''grid_opacity'', as_double p_grid_opacity_update),
     (''colormap'', as_int p_colormap_update)]"

fun assign_slots :: "string \<Rightarrow> any_value \<Rightarrow> (string \<times> (any_value \<Rightarrow> 'g \<Rightarrow> 'g option)) list \<Rightarrow> 'g \<Rightarrow> 'g option" where
  "assign_slots n v [] g = Some g"
| "assign_slots n v ((k, assign) # slots) g =
     (if k = n then Option.bind (assign v g) (assign_slots n v slots) else assign_slots n v slots g)"

fun group_set_params :: "dynamic_config \<Rightarrow> param_description list \<Rightarrow> default_group \<Rightarrow> default_group option" where
  "group_set_params c [] g = Some g"
| "group_set_params c (d # ds) g =
     Option.bind (assign_slots (pd_name d) (get_value (pd_field d) c) group_slots g) (group_set_params c ds)"

definition update_params :: "group_description \<Rightarrow> dynamic_config \<Rightarrow> dynamic_config option" where
  "update_params gd c = map_option (\<lambda>g. c\<lparr>groups := g\<rparr>) (group_set_params c (gd_params gd) (groups c))"

definition group_from_message :: "'m config_tools \<Rightarrow> 'm \<Rightarrow> group_description \<Rightarrow> dynamic_config \<Rightarrow> bool \<times> dynamic_config" where
  "group_from_message t msg gd c =
     (case find_group t (gd_name gd) msg of
        None \<Rightarrow> (False, c)
      | Some b \<Rightarrow> (True, c\<lparr>groups := (groups c)\<lparr>g_state := b\<rparr>\<rparr>))"

definition group_to_message :: "'m config_tools \<Rightarrow> dynamic_config \<Rightarrow> group_description \<Rightarrow> 'm \<Rightarrow> 'm" where
  "group_to_message t c gd msg = append_group t (gd_name gd) (gd_id gd) (gd_parent gd) (g_state (groups c)) msg"

definition set_initial_state :: "group_description \<Rightarrow> dynamic_config \<Rightarrow> dynamic_config" where
  "set_initial_state gd c = c\<lparr>groups := (groups c)\<lparr>g_state := gd_state gd\<rparr>\<rparr>"

section \<open>The table of the parameters\<close>

text \<open>
  The constructor of the statics sets the limits and the default of each parameter and lists its
  description, for the configuration and for the default group.  The members of the three
  configurations are indeterminate before; only the default group has a constructor.
\<close>

record statics =
  mins :: dynamic_config
  maxs :: dynamic_config
  dflts :: dynamic_config
  descriptions :: "param_description list"
  default_desc :: group_description

definition fresh_config :: "dynamic_config \<Rightarrow> dynamic_config" where
  "fresh_config u = u\<lparr>groups := (groups u)\<lparr>g_state := True, g_name := ''Default''\<rparr>\<rparr>"

definition new_statics :: "dynamic_config \<Rightarrow> dynamic_config \<Rightarrow> dynamic_config \<Rightarrow> statics" where
  "new_statics u1 u2 u3 =
     \<lparr>mins = fresh_config u1, maxs = fresh_config u2, dflts = fresh_config u3, descriptions = [],
      default_desc = \<lparr>gd_name = ''Default'', gd_type = [], gd_parent = 0, gd_id = 0, gd_state = True, gd_params = []\<rparr>\<rparr>"

definition push_description :: "param_description \<Rightarrow> statics \<Rightarrow> statics" where
  "push_description d st =
     st\<lparr>default_desc := (default_desc st)\<lparr>gd_params := gd_params (default_desc st) @ [d]\<rparr>,
        descriptions := descriptions st @ [d]\<rparr>"

definition set_limits :: "'v member \<Rightarrow> 'v \<Rightarrow> 'v \<Rightarrow> 'v \<Rightarrow> statics \<Rightarrow> statics" where
  "set_limits m lo hi dflt st =
     st\<lparr>mins := member_put m lo (mins st), maxs := member_put m hi (maxs st), dflts := member_put m dflt (dflts st)\<rparr>"

definition add_double :: "string \<Rightarrow> string \<Rightarrow> float64 member \<Rightarrow> float64 \<Rightarrow> float64 \<Rightarrow> float64 \<Rightarrow> statics \<Rightarrow> statics" where
  "add_double n text m lo hi dflt st = push_description
     \<lparr>pd_name = n, pd_type = ''double'', pd_level = 0, pd_text = text, pd_edit = [], pd_field = Double_Field m\<rparr>
     (set_limits m lo hi dflt st)"

definition add_bool :: "string \<Rightarrow> string \<Rightarrow> bool member \<Rightarrow> bool \<Rightarrow> bool \<Rightarrow> bool \<Rightarrow> statics \<Rightarrow> statics" where
  "add_bool n text m lo hi dflt st = push_description
     \<lparr>pd_name = n, pd_type = ''bool'', pd_level = 0, pd_text = text, pd_edit = [], pd_field = Bool_Field m\<rparr>
     (set_limits m lo hi dflt st)"

definition add_int :: "string \<Rightarrow> string \<Rightarrow> int member \<Rightarrow> int \<Rightarrow> int \<Rightarrow> int \<Rightarrow> statics \<Rightarrow> statics" where
  "add_int n text m lo hi dflt st = push_description
     \<lparr>pd_name = n, pd_type = ''int'', pd_level = 0, pd_text = text, pd_edit = [], pd_field = Int_Field m\<rparr>
     (set_limits m lo hi dflt st)"

definition statics_view :: "statics \<Rightarrow> statics" where
  "statics_view st =
     fold id [
       add_double ''Phi'' ''3D angle'' (Member p_Phi p_Phi_update) (f64_of_int 0) (f64_of_int 360) (f64_of_int 0),
       add_bool ''ThreeDScanApp'' ''Publish 3dpcl'' (Member p_ThreeDScanApp p_ThreeDScanApp_update) False True False,
       add_int ''maxangle'' ''max angle for radar'' (Member p_maxangle p_maxangle_update) 0 180 69,
       add_bool ''LaserScan2_Map'' ''Publish Laser scan'' (Member p_LaserScan2_Map p_LaserScan2_Map_update) False True False,
       add_bool ''radarimage'' ''Enable radarimage'' (Member p_radarimage p_radarimage_update) False True False,
       add_bool ''radarimageprocessing'' ''Enable radarimage processing'' (Member p_radarimageprocessing p_radarimageprocessing_update) False True False] st"

definition statics_objects :: "statics \<Rightarrow> statics" where
  "statics_objects st =
     fold id [
       add_int ''threshold_value'' ''Threshold parameter1'' (Member p_threshold_value p_threshold_value_update) 0 255 62,
       add_bool ''pointcloud'' ''Enable pointcloud postprocessing'' (Member p_pointcloud p_pointcloud_update) False True False,
       add_int ''pcl_threshold_value'' ''pcl Threshold parameter1'' (Member p_pcl_threshold_value p_pcl_threshold_value_update) 0 255 62,
       add_bool ''boundingboxes2'' ''Enable bounding boxes 2 postprocessing'' (Member p_boundingboxes2 p_boundingboxes2_update) False True False,
       add_bool ''MinAreaRect'' ''Highlight Objects with Min Area Rectangles'' (Member p_MinAreaRect p_MinAreaRect_update) False True False,
       add_bool ''longtermaverage'' ''static radar for long term averaging'' (Member p_longtermaverage p_longtermaverage_update) False True False,
       add_int ''dilation_value'' ''dilation_value'' (Member p_dilation_value p_dilation_value_update) 0 20 2,
       add_int ''gaussian_value'' ''gaussian_value'' (Member p_gaussian_value p_gaussian_value_update) 0 15 5] st"

definition statics_grid :: "statics \<Rightarrow> statics" where
  "statics_grid st =
     fold id [
       add_bool ''adaptive_threshold'' ''Enable adaptive thresholding'' (Member p_adaptive_threshold p_adaptive_threshold_update) False True False,
       add_int ''level_above_average'' ''Level above the average to determine point'' (Member p_level_above_average p_level_above_average_update) 0 100 52,
       add_int ''adaptive_size'' ''size of calculated mean search area'' (Member p_adaptive_size p_adaptive_size_update) 0 15 5,
       add_bool ''grid'' ''Enable grid'' (Member p_grid p_grid_update) False True False,
       add_int ''grid_stepSize'' ''grid step size'' (Member p_grid_stepSize p_grid_stepSize_update) 0 1000 10,
       add_double ''grid_opacity'' ''grid opacity'' (Member p_grid_opacity p_grid_opacity_update) (f64_of_int 0) (f64_of_int 1) (f64_of_rat (1 / 2)),
       add_int ''colormap'' ''colormap profile'' (Member p_colormap p_colormap_update) 0 10 10] st"

definition build_statics :: "dynamic_config \<Rightarrow> dynamic_config \<Rightarrow> dynamic_config \<Rightarrow> statics" where
  "build_statics u1 u2 u3 = statics_grid (statics_objects (statics_view (new_statics u1 u2 u3)))"

section \<open>The operations of a configuration\<close>

fun params_from_message :: "'m config_tools \<Rightarrow> 'm \<Rightarrow> param_description list \<Rightarrow> nat \<Rightarrow> dynamic_config \<Rightarrow> nat \<times> dynamic_config" where
  "params_from_message t msg [] k c = (k, c)"
| "params_from_message t msg (d # ds) k c =
     (let (b, c1) = field_from_message t msg (pd_name d) (pd_field d) c
      in params_from_message t msg ds (if b then Suc k else k) c1)"

definition from_message :: "'m config_tools \<Rightarrow> statics \<Rightarrow> 'm \<Rightarrow> dynamic_config \<Rightarrow> (bool \<times> dynamic_config) option" where
  "from_message t st msg c =
     (let (k, c1) = params_from_message t msg (descriptions st) 0 c; gd = default_desc st in do {
        c3 \<leftarrow> (if gd_id gd = 0 then do {
                 c2 \<leftarrow> update_params gd c1;
                 Some (snd (group_from_message t msg gd c2)) }
               else Some c1);
        Some (k = msg_size t msg, c3) })"

definition to_message :: "'m config_tools \<Rightarrow> param_description list \<Rightarrow> group_description \<Rightarrow> dynamic_config \<Rightarrow> 'm \<Rightarrow> 'm" where
  "to_message t ds gd c msg =
     (let msg1 = fold (\<lambda>d. field_to_message t c (pd_name d) (pd_field d)) ds (clear_msg t msg)
      in if gd_id gd = 0 then group_to_message t c gd msg1 else msg1)"

text \<open>The largest, the smallest and the default values, as the constructor of the statics sends them.\<close>

definition description_message :: "'m config_tools \<Rightarrow> 'm \<times> 'm \<times> 'm \<Rightarrow> statics \<Rightarrow> 'm \<times> 'm \<times> 'm" where
  "description_message t = (\<lambda>(m1, m2, m3) st.
     (to_message t (descriptions st) (default_desc st) (maxs st) m1,
      to_message t (descriptions st) (default_desc st) (mins st) m2,
      to_message t (descriptions st) (default_desc st) (dflts st) m3))"

definition to_server :: "statics \<Rightarrow> dynamic_config \<Rightarrow> (string \<times> any_value) list" where
  "to_server st c = map (\<lambda>d. (pd_name d, get_value (pd_field d) c)) (descriptions st)"

text \<open>The first call of the process also sets the state of the group.\<close>

definition from_server :: "statics \<Rightarrow> param_server_values \<Rightarrow> bool \<Rightarrow> dynamic_config \<Rightarrow> bool \<times> dynamic_config" where
  "from_server st sv setup c =
     (let c1 = fold (\<lambda>d. field_from_server sv (pd_name d) (pd_field d)) (descriptions st) c; gd = default_desc st
      in if \<not> setup \<and> gd_id gd = 0 then (True, set_initial_state gd c1) else (setup, c1))"

definition clamp_config :: "statics \<Rightarrow> dynamic_config \<Rightarrow> dynamic_config" where
  "clamp_config st = fold (\<lambda>d. clamp_field (pd_field d) (maxs st) (mins st)) (descriptions st)"

definition change_level :: "statics \<Rightarrow> dynamic_config \<Rightarrow> dynamic_config \<Rightarrow> u32" where
  "change_level st c c' = fold (\<lambda>d. calc_level d c c') (descriptions st) 0"

text \<open>What the callback of the mobile platform reads of its configuration.\<close>

definition platform_config_of :: "dynamic_config \<Rightarrow> platform_config" where
  "platform_config_of c =
     \<lparr>cfg_three_d = p_ThreeDScanApp c, cfg_threshold = p_threshold_value c, cfg_dilation = p_dilation_value c,
      cfg_gaussian = p_gaussian_value c, cfg_pcl_threshold = p_pcl_threshold_value c, cfg_maxangle = p_maxangle c,
      cfg_colormap = p_colormap c, cfg_boxes = p_boundingboxes2 c, cfg_min_area = p_MinAreaRect c,
      cfg_average = p_longtermaverage c, cfg_scan = p_LaserScan2_Map c, cfg_cloud = p_pointcloud c,
      cfg_image = p_radarimage c, cfg_processing = p_radarimageprocessing c, cfg_grid = p_grid c,
      cfg_adaptive = p_adaptive_threshold c, cfg_above_average = p_level_above_average c,
      cfg_adaptive_size = p_adaptive_size c, cfg_grid_step = p_grid_stepSize c, cfg_grid_opacity = p_grid_opacity c\<rparr>"

section \<open>The table as a list\<close>

lemmas statics_defs = build_statics_def statics_view_def statics_objects_def statics_grid_def add_double_def add_bool_def
  add_int_def push_description_def set_limits_def member_put_def new_statics_def fresh_config_def

definition double_param :: "string \<Rightarrow> string \<Rightarrow> float64 member \<Rightarrow> param_description" where
  "double_param n text m =
     \<lparr>pd_name = n, pd_type = ''double'', pd_level = 0, pd_text = text, pd_edit = [], pd_field = Double_Field m\<rparr>"

definition bool_param :: "string \<Rightarrow> string \<Rightarrow> bool member \<Rightarrow> param_description" where
  "bool_param n text m =
     \<lparr>pd_name = n, pd_type = ''bool'', pd_level = 0, pd_text = text, pd_edit = [], pd_field = Bool_Field m\<rparr>"

definition int_param :: "string \<Rightarrow> string \<Rightarrow> int member \<Rightarrow> param_description" where
  "int_param n text m =
     \<lparr>pd_name = n, pd_type = ''int'', pd_level = 0, pd_text = text, pd_edit = [], pd_field = Int_Field m\<rparr>"

lemmas param_defs = double_param_def bool_param_def int_param_def

definition param_table :: "param_description list" where
  "param_table =
    [double_param ''Phi'' ''3D angle'' (Member p_Phi p_Phi_update),
     bool_param ''ThreeDScanApp'' ''Publish 3dpcl'' (Member p_ThreeDScanApp p_ThreeDScanApp_update),
     int_param ''maxangle'' ''max angle for radar'' (Member p_maxangle p_maxangle_update),
     bool_param ''LaserScan2_Map'' ''Publish Laser scan'' (Member p_LaserScan2_Map p_LaserScan2_Map_update),
     bool_param ''radarimage'' ''Enable radarimage'' (Member p_radarimage p_radarimage_update),
     bool_param ''radarimageprocessing'' ''Enable radarimage processing'' (Member p_radarimageprocessing p_radarimageprocessing_update),
     int_param ''threshold_value'' ''Threshold parameter1'' (Member p_threshold_value p_threshold_value_update),
     bool_param ''pointcloud'' ''Enable pointcloud postprocessing'' (Member p_pointcloud p_pointcloud_update),
     int_param ''pcl_threshold_value'' ''pcl Threshold parameter1'' (Member p_pcl_threshold_value p_pcl_threshold_value_update),
     bool_param ''boundingboxes2'' ''Enable bounding boxes 2 postprocessing'' (Member p_boundingboxes2 p_boundingboxes2_update),
     bool_param ''MinAreaRect'' ''Highlight Objects with Min Area Rectangles'' (Member p_MinAreaRect p_MinAreaRect_update),
     bool_param ''longtermaverage'' ''static radar for long term averaging'' (Member p_longtermaverage p_longtermaverage_update),
     int_param ''dilation_value'' ''dilation_value'' (Member p_dilation_value p_dilation_value_update),
     int_param ''gaussian_value'' ''gaussian_value'' (Member p_gaussian_value p_gaussian_value_update),
     bool_param ''adaptive_threshold'' ''Enable adaptive thresholding'' (Member p_adaptive_threshold p_adaptive_threshold_update),
     int_param ''level_above_average'' ''Level above the average to determine point'' (Member p_level_above_average p_level_above_average_update),
     int_param ''adaptive_size'' ''size of calculated mean search area'' (Member p_adaptive_size p_adaptive_size_update),
     bool_param ''grid'' ''Enable grid'' (Member p_grid p_grid_update),
     int_param ''grid_stepSize'' ''grid step size'' (Member p_grid_stepSize p_grid_stepSize_update),
     double_param ''grid_opacity'' ''grid opacity'' (Member p_grid_opacity p_grid_opacity_update),
     int_param ''colormap'' ''colormap profile'' (Member p_colormap p_colormap_update)]"

lemma descriptions_build [simp]: "descriptions (build_statics u1 u2 u3) = param_table"
  by (simp add: statics_defs param_table_def param_defs)

lemma default_desc_build [simp]:
  "default_desc (build_statics u1 u2 u3) =
     \<lparr>gd_name = ''Default'', gd_type = [], gd_parent = 0, gd_id = 0, gd_state = True, gd_params = param_table\<rparr>"
  by (simp add: statics_defs param_table_def param_defs)

text \<open>The limits and the defaults do not depend on what the members held before.\<close>

lemma mins_build:
  "params.truncate (mins (build_statics u1 u2 u3)) = \<lparr>p_Phi = f64_of_int 0, p_ThreeDScanApp = False, p_maxangle = 0, p_LaserScan2_Map = False,
     p_radarimage = False, p_radarimageprocessing = False, p_threshold_value = 0, p_pointcloud = False,
     p_pcl_threshold_value = 0, p_boundingboxes2 = False, p_MinAreaRect = False, p_longtermaverage = False,
     p_dilation_value = 0, p_gaussian_value = 0, p_adaptive_threshold = False, p_level_above_average = 0,
     p_adaptive_size = 0, p_grid = False, p_grid_stepSize = 0, p_grid_opacity = f64_of_int 0, p_colormap = 0\<rparr>"
  by (simp add: statics_defs params.truncate_def)

lemma maxs_build:
  "params.truncate (maxs (build_statics u1 u2 u3)) = \<lparr>p_Phi = f64_of_int 360, p_ThreeDScanApp = True, p_maxangle = 180, p_LaserScan2_Map = True,
     p_radarimage = True, p_radarimageprocessing = True, p_threshold_value = 255, p_pointcloud = True,
     p_pcl_threshold_value = 255, p_boundingboxes2 = True, p_MinAreaRect = True, p_longtermaverage = True,
     p_dilation_value = 20, p_gaussian_value = 15, p_adaptive_threshold = True, p_level_above_average = 100,
     p_adaptive_size = 15, p_grid = True, p_grid_stepSize = 1000, p_grid_opacity = f64_of_int 1, p_colormap = 10\<rparr>"
  by (simp add: statics_defs params.truncate_def)

lemma dflts_build:
  "params.truncate (dflts (build_statics u1 u2 u3)) = \<lparr>p_Phi = f64_of_int 0, p_ThreeDScanApp = False, p_maxangle = 69, p_LaserScan2_Map = False,
     p_radarimage = False, p_radarimageprocessing = False, p_threshold_value = 62, p_pointcloud = False,
     p_pcl_threshold_value = 62, p_boundingboxes2 = False, p_MinAreaRect = False, p_longtermaverage = False,
     p_dilation_value = 2, p_gaussian_value = 5, p_adaptive_threshold = False, p_level_above_average = 52,
     p_adaptive_size = 5, p_grid = False, p_grid_stepSize = 10, p_grid_opacity = f64_of_rat (1 / 2),
     p_colormap = 10\<rparr>"
  by (simp add: statics_defs params.truncate_def)

lemmas limit_members [simp] =
  mins_build [unfolded params.truncate_def, simplified] maxs_build [unfolded params.truncate_def, simplified]
  dflts_build [unfolded params.truncate_def, simplified]

section \<open>Clamping\<close>

definition limit :: "('v \<Rightarrow> 'v \<Rightarrow> bool) \<Rightarrow> 'v \<Rightarrow> 'v \<Rightarrow> 'v \<Rightarrow> 'v" where
  "limit lt lo hi v = (let v1 = if lt hi v then hi else v in if lt v1 lo then lo else v1)"

lemma clamp_member_limit:
  assumes "\<And>v. get (upd (\<lambda>_. v) c) = v" "\<And>v w. upd (\<lambda>_. w) (upd (\<lambda>_. v) c) = upd (\<lambda>_. w) c" "upd (\<lambda>_. get c) c = c"
  shows "clamp_member lt (Member get upd) hi lo c = upd (\<lambda>_. limit lt (get lo) (get hi) (get c)) c"
  using assms by (simp add: clamp_member_def member_put_def limit_def Let_def)

lemma limit_bool [simp]: "limit (<) False True v = v"
  by (simp add: limit_def)

lemma limit_int: "lo \<le> hi \<Longrightarrow> limit (<) lo hi (v :: int) = max lo (min hi v)"
  by (simp add: limit_def)

lemma clamp_config_eq:
  "clamp_config (build_statics u1 u2 u3) c = c\<lparr>
     p_Phi := limit f64_less (f64_of_int 0) (f64_of_int 360) (p_Phi c),
     p_maxangle := max 0 (min 180 (p_maxangle c)),
     p_threshold_value := max 0 (min 255 (p_threshold_value c)),
     p_pcl_threshold_value := max 0 (min 255 (p_pcl_threshold_value c)),
     p_dilation_value := max 0 (min 20 (p_dilation_value c)),
     p_gaussian_value := max 0 (min 15 (p_gaussian_value c)),
     p_level_above_average := max 0 (min 100 (p_level_above_average c)),
     p_adaptive_size := max 0 (min 15 (p_adaptive_size c)),
     p_grid_stepSize := max 0 (min 1000 (p_grid_stepSize c)),
     p_grid_opacity := limit f64_less (f64_of_int 0) (f64_of_int 1) (p_grid_opacity c),
     p_colormap := max 0 (min 10 (p_colormap c))\<rparr>"
  by (simp add: clamp_config_def param_table_def param_defs clamp_member_limit limit_int)

fun field_in_limits :: "field \<Rightarrow> dynamic_config \<Rightarrow> dynamic_config \<Rightarrow> dynamic_config \<Rightarrow> bool" where
  "field_in_limits (Double_Field m) hi lo c \<longleftrightarrow>
     \<not> f64_less (member_get m hi) (member_get m c) \<and> \<not> f64_less (member_get m c) (member_get m lo)"
| "field_in_limits (Bool_Field m) hi lo c \<longleftrightarrow> member_get m lo \<le> member_get m c \<and> member_get m c \<le> member_get m hi"
| "field_in_limits (Int_Field m) hi lo c \<longleftrightarrow> member_get m lo \<le> member_get m c \<and> member_get m c \<le> member_get m hi"

definition in_limits :: "statics \<Rightarrow> dynamic_config \<Rightarrow> bool" where
  "in_limits st c \<longleftrightarrow> (\<forall>d \<in> set (descriptions st). field_in_limits (pd_field d) (maxs st) (mins st) c)"

lemma f64_less_irrefl [simp]: "\<not> f64_less x x"
  by (simp add: f64_less_def fp_less_def)

lemma limit_within: "\<not> lt lo lo \<Longrightarrow> \<not> lt hi hi \<Longrightarrow> \<not> lt hi lo \<Longrightarrow> \<not> lt hi (limit lt lo hi v) \<and> \<not> lt (limit lt lo hi v) lo"
  by (simp add: limit_def Let_def)

lemma limit_id: "\<not> lt hi v \<Longrightarrow> \<not> lt v lo \<Longrightarrow> limit lt lo hi v = v"
  by (simp add: limit_def)

lemma f64_less_limits [simp]: "\<not> f64_less (f64_of_int 360) (f64_of_int 0)" "\<not> f64_less (f64_of_int 1) (f64_of_int 0)"
  by (simp_all add: f64_less_def fp_less_def val64_of_int)

lemma f64_limit_within [simp]:
  "\<not> f64_less (f64_of_int 360) (limit f64_less (f64_of_int 0) (f64_of_int 360) v)"
  "\<not> f64_less (limit f64_less (f64_of_int 0) (f64_of_int 360) v) (f64_of_int 0)"
  "\<not> f64_less (f64_of_int 1) (limit f64_less (f64_of_int 0) (f64_of_int 1) v)"
  "\<not> f64_less (limit f64_less (f64_of_int 0) (f64_of_int 1) v) (f64_of_int 0)"
  using limit_within [of f64_less "f64_of_int 0" "f64_of_int 360" v] limit_within [of f64_less "f64_of_int 0" "f64_of_int 1" v]
  by simp_all

lemma in_limits_build:
  "in_limits (build_statics u1 u2 u3) c \<longleftrightarrow>
     \<not> f64_less (f64_of_int 360) (p_Phi c) \<and> \<not> f64_less (p_Phi c) (f64_of_int 0) \<and>
     \<not> f64_less (f64_of_int 1) (p_grid_opacity c) \<and> \<not> f64_less (p_grid_opacity c) (f64_of_int 0) \<and>
     p_maxangle c \<in> {0..180} \<and> p_threshold_value c \<in> {0..255} \<and> p_pcl_threshold_value c \<in> {0..255} \<and>
     p_dilation_value c \<in> {0..20} \<and> p_gaussian_value c \<in> {0..15} \<and> p_level_above_average c \<in> {0..100} \<and>
     p_adaptive_size c \<in> {0..15} \<and> p_grid_stepSize c \<in> {0..1000} \<and> p_colormap c \<in> {0..10}"
  by (auto simp add: in_limits_def param_table_def param_defs)

lemma val64_half: "val64 (f64_of_rat (1 / 2)) = Fin (1 / 2)"
  by (simp add: f64_of_rat_def to_fp_sixteenths val64_sixteenths)

text \<open>
  After the call every parameter is within its limits (a value that is no number stays what it is), and a
  configuration within the limits is left as it is; the defaults are within the limits.  None of this depends
  on what the tables held before their constructor.
\<close>

theorem clamping_projects:
  "in_limits (build_statics u1 u2 u3) (clamp_config (build_statics u1 u2 u3) c) \<and>
   (in_limits (build_statics u1 u2 u3) c \<longrightarrow> clamp_config (build_statics u1 u2 u3) c = c) \<and>
   in_limits (build_statics u1 u2 u3) (dflts (build_statics u1 u2 u3))"
proof (intro conjI impI)
  show "in_limits (build_statics u1 u2 u3) (clamp_config (build_statics u1 u2 u3) c)"
    by (simp add: in_limits_build clamp_config_eq)
  show "clamp_config (build_statics u1 u2 u3) c = c" if "in_limits (build_statics u1 u2 u3) c"
    using that by (simp add: in_limits_build clamp_config_eq limit_id)
  show "in_limits (build_statics u1 u2 u3) (dflts (build_statics u1 u2 u3))"
    by (simp add: in_limits_build f64_less_def fp_less_def val64_of_int val64_half)
qed

section \<open>The callback of the mobile platform\<close>

lemma clamped_step: "p_grid_stepSize (clamp_config (build_statics u1 u2 u3) c) = max 0 (min 1000 (p_grid_stepSize c))"
  and clamped_grid: "p_grid (clamp_config (build_statics u1 u2 u3) c) = p_grid c"
  by (simp_all add: clamp_config_eq)

lemma uint_word_of_int_small:
  "0 \<le> k \<Longrightarrow> k < 2 ^ LENGTH('a) \<Longrightarrow> uint (word_of_int k :: 'a::len word) = k"
  by (simp add: uint_word_of_int)

lemma callback_members:
  assumes "param_callback pc s = Some s'"
  shows "pf_threshold s' = word_of_int (cfg_threshold pc) \<and> pcl_threshold s' = word_of_int (cfg_pcl_threshold pc) \<and>
    maxangle s' = word_of_int (cfg_maxangle pc) \<and> dilation s' = word_of_int (cfg_dilation pc) \<and>
    gaussian s' = word_of_int (cfg_gaussian pc) \<and> colormap s' = word_of_int (cfg_colormap pc) \<and>
    above_average s' = word_of_int (cfg_above_average pc) \<and> adaptive_size s' = word_of_int (cfg_adaptive_size pc) \<and>
    grid_step s' = (if cfg_grid pc then word_of_int (cfg_grid_step pc) else grid_step s)"
  using assms by (cases "cfg_grid pc") (auto simp: param_callback_def Let_def Option.bind_eq_Some_conv)

text \<open>
  The limits fit the widths of the members of the mobile platform: its callback takes a clamped
  configuration over without wrapping a value.
\<close>

theorem clamped_configuration_fits:
  assumes "param_callback (platform_config_of (clamp_config (build_statics u1 u2 u3) c)) s = Some s'"
  shows "uint (pf_threshold s') = max 0 (min 255 (p_threshold_value c)) \<and>
    uint (pcl_threshold s') = max 0 (min 255 (p_pcl_threshold_value c)) \<and>
    uint (maxangle s') = max 0 (min 180 (p_maxangle c)) \<and>
    uint (dilation s') = max 0 (min 20 (p_dilation_value c)) \<and>
    uint (gaussian s') = max 0 (min 15 (p_gaussian_value c)) \<and>
    uint (colormap s') = max 0 (min 10 (p_colormap c)) \<and>
    uint (above_average s') = max 0 (min 100 (p_level_above_average c)) \<and>
    uint (adaptive_size s') = max 0 (min 15 (p_adaptive_size c)) \<and>
    (p_grid c \<longrightarrow> uint (grid_step s') = max 0 (min 1000 (p_grid_stepSize c)))"
  using callback_members [OF assms]
  by (simp add: platform_config_of_def clamp_config_eq uint_word_of_int_small)

lemma cfg_of: "cfg_grid (platform_config_of c) = p_grid c" "cfg_grid_step (platform_config_of c) = p_grid_stepSize c"
  by (simp_all add: platform_config_of_def)

text \<open>
  C28: the limits do not protect the grid: a step that is not positive is brought to zero, the least
  value allowed, and then the image that is to get the grid divides by zero.
\<close>

theorem clamped_step_divides_by_zero:
  assumes "p_grid c" "p_grid_stepSize c \<le> 0" "val32 (f32_mul (pf_range_res s) (f32_of_int 2)) = Fin d" "0 < d"
  shows "\<exists>s'. param_callback (platform_config_of (clamp_config (build_statics u1 u2 u3) c)) s = Some s' \<and>
    processed_image cv s' img = None"
proof (rule zero_step_divides_by_zero [OF _ _ assms(3,4)])
  show "cfg_grid (platform_config_of (clamp_config (build_statics u1 u2 u3) c))"
    using assms(1) by (simp add: clamped_grid cfg_of)
  show "cfg_grid_step (platform_config_of (clamp_config (build_statics u1 u2 u3) c)) = 0"
    using assms(2) by (simp add: clamped_step cfg_of)
qed

lemma level_zero: "\<forall>d \<in> set ds. pd_level d = 0 \<Longrightarrow> fold (\<lambda>d. calc_level d c c') ds k = k"
  by (induction ds arbitrary: k) (simp_all add: calc_level_def)

text \<open>
  Every parameter has the level zero, so that the callback is never told what has changed.
\<close>

theorem level_never_set: "change_level (build_statics u1 u2 u3) c c' = 0"
  unfolding change_level_def by (subst level_zero) (simp_all add: param_table_def param_defs)

section \<open>Round trips through messages\<close>

text \<open>
  What the operations rely on: a message that is cleared holds nothing, \<open>find\<close> gives the first value that was
  appended under the name with the same type, and the size counts the values and not the groups.
\<close>

definition tools_ok :: "'m config_tools \<Rightarrow> bool" where
  "tools_ok t \<longleftrightarrow>
     (\<forall>m n. find_double t n (clear_msg t m) = None \<and> find_bool t n (clear_msg t m) = None \<and>
        find_int t n (clear_msg t m) = None \<and> find_group t n (clear_msg t m) = None \<and> msg_size t (clear_msg t m) = 0) \<and>
     (\<forall>m n k v. find_double t n (append_double t k v m) =
          (case find_double t n m of Some x \<Rightarrow> Some x | None \<Rightarrow> if k = n then Some v else None) \<and>
        find_bool t n (append_double t k v m) = find_bool t n m \<and> find_int t n (append_double t k v m) = find_int t n m \<and>
        find_group t n (append_double t k v m) = find_group t n m \<and>
        msg_size t (append_double t k v m) = Suc (msg_size t m)) \<and>
     (\<forall>m n k v. find_bool t n (append_bool t k v m) =
          (case find_bool t n m of Some x \<Rightarrow> Some x | None \<Rightarrow> if k = n then Some v else None) \<and>
        find_double t n (append_bool t k v m) = find_double t n m \<and> find_int t n (append_bool t k v m) = find_int t n m \<and>
        find_group t n (append_bool t k v m) = find_group t n m \<and>
        msg_size t (append_bool t k v m) = Suc (msg_size t m)) \<and>
     (\<forall>m n k v. find_int t n (append_int t k v m) =
          (case find_int t n m of Some x \<Rightarrow> Some x | None \<Rightarrow> if k = n then Some v else None) \<and>
        find_double t n (append_int t k v m) = find_double t n m \<and> find_bool t n (append_int t k v m) = find_bool t n m \<and>
        find_group t n (append_int t k v m) = find_group t n m \<and>
        msg_size t (append_int t k v m) = Suc (msg_size t m)) \<and>
     (\<forall>m n k i p b. find_group t n (append_group t k i p b m) =
          (case find_group t n m of Some x \<Rightarrow> Some x | None \<Rightarrow> if k = n then Some b else None) \<and>
        find_double t n (append_group t k i p b m) = find_double t n m \<and>
        find_bool t n (append_group t k i p b m) = find_bool t n m \<and>
        find_int t n (append_group t k i p b m) = find_int t n m \<and> msg_size t (append_group t k i p b m) = msg_size t m)"

fun first_double :: "string \<Rightarrow> dynamic_config \<Rightarrow> param_description list \<Rightarrow> float64 option" where
  "first_double n c [] = None"
| "first_double n c (d # ds) =
     (case pd_field d of Double_Field m \<Rightarrow> if pd_name d = n then Some (member_get m c) else first_double n c ds
      | _ \<Rightarrow> first_double n c ds)"

fun first_bool :: "string \<Rightarrow> dynamic_config \<Rightarrow> param_description list \<Rightarrow> bool option" where
  "first_bool n c [] = None"
| "first_bool n c (d # ds) =
     (case pd_field d of Bool_Field m \<Rightarrow> if pd_name d = n then Some (member_get m c) else first_bool n c ds
      | _ \<Rightarrow> first_bool n c ds)"

fun first_int :: "string \<Rightarrow> dynamic_config \<Rightarrow> param_description list \<Rightarrow> int option" where
  "first_int n c [] = None"
| "first_int n c (d # ds) =
     (case pd_field d of Int_Field m \<Rightarrow> if pd_name d = n then Some (member_get m c) else first_int n c ds
      | _ \<Rightarrow> first_int n c ds)"

abbreviation append_all :: "'m config_tools \<Rightarrow> dynamic_config \<Rightarrow> param_description list \<Rightarrow> 'm \<Rightarrow> 'm" where
  "append_all t c ds msg \<equiv> fold (\<lambda>d. field_to_message t c (pd_name d) (pd_field d)) ds msg"

lemma append_all_finds:
  assumes "tools_ok t"
  shows "find_double t n (append_all t c ds msg) = (case find_double t n msg of Some x \<Rightarrow> Some x | None \<Rightarrow> first_double n c ds)"
    and "find_bool t n (append_all t c ds msg) = (case find_bool t n msg of Some x \<Rightarrow> Some x | None \<Rightarrow> first_bool n c ds)"
    and "find_int t n (append_all t c ds msg) = (case find_int t n msg of Some x \<Rightarrow> Some x | None \<Rightarrow> first_int n c ds)"
    and "find_group t n (append_all t c ds msg) = find_group t n msg"
    and "msg_size t (append_all t c ds msg) = msg_size t msg + length ds"
proof (induction ds arbitrary: msg)
  case (Cons d ds)
  { case 1 show ?case using assms Cons(1) [of "field_to_message t c (pd_name d) (pd_field d) msg"]
      by (cases "pd_field d") (simp_all add: tools_ok_def split: option.splits) }
  { case 2 show ?case using assms Cons(2) [of "field_to_message t c (pd_name d) (pd_field d) msg"]
      by (cases "pd_field d") (simp_all add: tools_ok_def split: option.splits) }
  { case 3 show ?case using assms Cons(3) [of "field_to_message t c (pd_name d) (pd_field d) msg"]
      by (cases "pd_field d") (simp_all add: tools_ok_def split: option.splits) }
  { case 4 show ?case using assms Cons(4) [of "field_to_message t c (pd_name d) (pd_field d) msg"]
      by (cases "pd_field d") (simp_all add: tools_ok_def) }
  { case 5 show ?case using assms Cons(5) [of "field_to_message t c (pd_name d) (pd_field d) msg"]
      by (cases "pd_field d") (simp_all add: tools_ok_def) }
qed (simp_all split: option.splits)

lemma group_set_params_table:
  "group_set_params c param_table g = Some (g\<lparr>p_Phi := p_Phi c, p_ThreeDScanApp := p_ThreeDScanApp c, p_maxangle := p_maxangle c,
     p_LaserScan2_Map := p_LaserScan2_Map c, p_radarimage := p_radarimage c,
     p_radarimageprocessing := p_radarimageprocessing c, p_threshold_value := p_threshold_value c,
     p_pointcloud := p_pointcloud c, p_pcl_threshold_value := p_pcl_threshold_value c,
     p_boundingboxes2 := p_boundingboxes2 c, p_MinAreaRect := p_MinAreaRect c, p_longtermaverage := p_longtermaverage c,
     p_dilation_value := p_dilation_value c, p_gaussian_value := p_gaussian_value c,
     p_adaptive_threshold := p_adaptive_threshold c, p_level_above_average := p_level_above_average c,
     p_adaptive_size := p_adaptive_size c, p_grid := p_grid c, p_grid_stepSize := p_grid_stepSize c,
     p_grid_opacity := p_grid_opacity c, p_colormap := p_colormap c\<rparr>)"
  by (simp add: param_table_def param_defs group_slots_def)

lemma group_set_params_copies:
  "\<exists>g'. group_set_params c param_table g = Some g' \<and> params.truncate g' = params.truncate c \<and> g_state g' = g_state g"
  by (simp add: group_set_params_table params.truncate_def)

definition all_found :: "'m config_tools \<Rightarrow> 'm \<Rightarrow> dynamic_config \<Rightarrow> param_description list \<Rightarrow> bool" where
  "all_found t msg c ds \<longleftrightarrow> (\<forall>d \<in> set ds. case pd_field d of
       Double_Field m \<Rightarrow> find_double t (pd_name d) msg = Some (member_get m c)
     | Bool_Field m \<Rightarrow> find_bool t (pd_name d) msg = Some (member_get m c)
     | Int_Field m \<Rightarrow> find_int t (pd_name d) msg = Some (member_get m c))"

lemma first_found:
  "list_all (\<lambda>d. case pd_field d of
       Double_Field m \<Rightarrow> first_double (pd_name d) c param_table = Some (member_get m c)
     | Bool_Field m \<Rightarrow> first_bool (pd_name d) c param_table = Some (member_get m c)
     | Int_Field m \<Rightarrow> first_int (pd_name d) c param_table = Some (member_get m c)) param_table"
  by (simp add: param_table_def param_defs)

lemma groups_update [simp]:
  "groups (p_Phi_update f c) = groups c"
  "groups (p_ThreeDScanApp_update g c) = groups c"
  "groups (p_maxangle_update h c) = groups c"
  "groups (p_LaserScan2_Map_update g c) = groups c"
  "groups (p_radarimage_update g c) = groups c"
  "groups (p_radarimageprocessing_update g c) = groups c"
  "groups (p_threshold_value_update h c) = groups c"
  "groups (p_pointcloud_update g c) = groups c"
  "groups (p_pcl_threshold_value_update h c) = groups c"
  "groups (p_boundingboxes2_update g c) = groups c"
  "groups (p_MinAreaRect_update g c) = groups c"
  "groups (p_longtermaverage_update g c) = groups c"
  "groups (p_dilation_value_update h c) = groups c"
  "groups (p_gaussian_value_update h c) = groups c"
  "groups (p_adaptive_threshold_update g c) = groups c"
  "groups (p_level_above_average_update h c) = groups c"
  "groups (p_adaptive_size_update h c) = groups c"
  "groups (p_grid_update g c) = groups c"
  "groups (p_grid_stepSize_update h c) = groups c"
  "groups (p_grid_opacity_update f c) = groups c"
  "groups (p_colormap_update h c) = groups c"
  by (cases c; simp)+

lemma params_from_message_table:
  assumes "all_found t msg c param_table"
  shows "\<exists>c1. params_from_message t msg param_table 0 c' = (length param_table, c1) \<and>
     params.truncate c1 = params.truncate c \<and> groups c1 = groups c'"
  using assms by (simp add: all_found_def param_table_def param_defs put_found_def member_put_def params.truncate_def)

abbreviation (input) written :: "'m config_tools \<Rightarrow> dynamic_config \<Rightarrow> 'm \<Rightarrow> 'm" where
  "written t c msg \<equiv> append_group t ''Default'' 0 0 (g_state (groups c)) (append_all t c param_table (clear_msg t msg))"

lemma to_message_written:
  "to_message t (descriptions (build_statics u1 u2 u3)) (default_desc (build_statics u1 u2 u3)) c msg = written t c msg"
  by (simp add: to_message_def group_to_message_def)

lemma written_found:
  assumes "tools_ok t"
  shows "all_found t (written t c msg) c param_table" "find_group t ''Default'' (written t c msg) = Some (g_state (groups c))"
    "msg_size t (written t c msg) = length param_table"
proof -
  note t = assms [unfolded tools_ok_def]
  show "all_found t (written t c msg) c param_table"
    using first_found [of c] t by (auto simp: all_found_def list_all_iff append_all_finds [OF assms] split: field.splits)
  show "find_group t ''Default'' (written t c msg) = Some (g_state (groups c))"
    using t by (simp add: append_all_finds [OF assms])
  show "msg_size t (written t c msg) = length param_table"
    using t by (simp add: append_all_finds [OF assms])
qed

lemma truncate_groups [simp]:
  "params.truncate (c\<lparr>groups := g\<rparr>) = params.truncate c" "params.truncate (g\<lparr>g_state := b\<rparr>) = params.truncate g"
  by (cases c; simp add: params.truncate_def) (cases g; simp add: params.truncate_def)

lemma from_message_found:
  assumes "all_found t msg c param_table" "find_group t ''Default'' msg = Some b"
  shows "\<exists>c2. from_message t (build_statics u1 u2 u3) msg c' = Some (length param_table = msg_size t msg, c2) \<and>
    params.truncate c2 = params.truncate c \<and> params.truncate (groups c2) = params.truncate c \<and> g_state (groups c2) = b"
proof -
  obtain c1 where c1: "params_from_message t msg param_table 0 c' = (length param_table, c1)"
      "params.truncate c1 = params.truncate c" "groups c1 = groups c'"
    using params_from_message_table [OF assms(1)] by blast
  obtain g where g: "group_set_params c1 param_table (groups c1) = Some g" "params.truncate g = params.truncate c1"
    using group_set_params_copies by blast
  show ?thesis
    using c1 g assms(2) by (simp add: from_message_def update_params_def group_from_message_def)
qed

text \<open>
  C27: A configuration written to a message and read back is accepted and gives every parameter its value, in
  the configuration and in its default group, whose state is kept too.
\<close>

theorem parameter_message_round_trip:
  assumes "tools_ok t"
  shows "\<exists>c2. from_message t (build_statics u1 u2 u3)
      (to_message t (descriptions (build_statics u1 u2 u3)) (default_desc (build_statics u1 u2 u3)) c msg) c' = Some (True, c2) \<and>
    params.truncate c2 = params.truncate c \<and> params.truncate (groups c2) = params.truncate c \<and>
    g_state (groups c2) = g_state (groups c)"
  using from_message_found [OF written_found(1,2) [OF assms]] by (simp only: to_message_written written_found(3) [OF assms] simp_thms)

text \<open>
  A message with one value too many is refused, but only after all its parameters have been taken over.
\<close>

theorem unexpected_parameter_applied:
  assumes "tools_ok t"
  shows "\<exists>c2. from_message t (build_statics u1 u2 u3) (append_int t n v
      (to_message t (descriptions (build_statics u1 u2 u3)) (default_desc (build_statics u1 u2 u3)) c msg)) c' = Some (False, c2) \<and>
    params.truncate c2 = params.truncate c"
proof -
  note t = assms [unfolded tools_ok_def]
  let ?msg = "append_int t n v (written t c msg)"
  have "all_found t ?msg c param_table"
    using written_found(1) [OF assms, of c msg] t by (auto simp: all_found_def split: field.splits)
  moreover have "find_group t ''Default'' ?msg = Some (g_state (groups c))" using written_found(2) [OF assms, of c msg] t by simp
  moreover have "msg_size t ?msg = Suc (length param_table)" using written_found(3) [OF assms, of c msg] t by simp
  ultimately show ?thesis
    using from_message_found [of t ?msg c "g_state (groups c)" u1 u2 u3 c'] unfolding to_message_written by auto
qed

section \<open>Round trips through the parameter server\<close>

text \<open>The server holds the values that were set.\<close>

definition server_holds :: "param_server_values \<Rightarrow> (string \<times> any_value) list \<Rightarrow> bool" where
  "server_holds sv kvs \<longleftrightarrow> list_all (\<lambda>(n, v). case v of Any_Double x \<Rightarrow> server_double sv n = Some x
     | Any_Bool x \<Rightarrow> server_bool sv n = Some x | Any_Int x \<Rightarrow> server_int sv n = Some x) kvs"

text \<open>
  Reading the parameters back that were set on the server gives every one its value; only the first
  call of the process sets the state of the group.
\<close>

theorem server_round_trip:
  assumes "server_holds sv (to_server (build_statics u1 u2 u3) c)"
  shows "\<exists>c2. from_server (build_statics u1 u2 u3) sv setup c' = (True, c2) \<and> params.truncate c2 = params.truncate c \<and>
    groups c2 = (if setup then groups c' else (groups c')\<lparr>g_state := True\<rparr>)"
proof -
  let ?c1 = "fold (\<lambda>d. field_from_server sv (pd_name d) (pd_field d)) param_table c'"
  have "params.truncate ?c1 = params.truncate c \<and> groups ?c1 = groups c'"
    using assms by (simp add: server_holds_def to_server_def param_table_def param_defs put_found_def member_put_def
      params.truncate_def)
  then show ?thesis by (simp add: from_server_def set_initial_state_def)
qed

section \<open>Witnesses\<close>

datatype entry = Double_Entry string float64 | Bool_Entry string bool | Int_Entry string int | Group_Entry string bool

definition first_entry :: "(entry \<Rightarrow> 'v option) \<Rightarrow> entry list \<Rightarrow> 'v option" where
  "first_entry f es = (case List.find (\<lambda>e. f e \<noteq> None) es of None \<Rightarrow> None | Some e \<Rightarrow> f e)"

lemma first_entry_append: "first_entry f (es @ [e]) = (case first_entry f es of Some x \<Rightarrow> Some x | None \<Rightarrow> f e)"
  by (induction es) (auto simp: first_entry_def split: option.splits)

lemma first_entry_Nil: "first_entry f [] = None"
  by (simp add: first_entry_def)

definition list_tools :: "entry list config_tools" where
  "list_tools =
     \<lparr>clear_msg = (\<lambda>_. []),
      append_double = (\<lambda>n v es. es @ [Double_Entry n v]),
      append_bool = (\<lambda>n v es. es @ [Bool_Entry n v]),
      append_int = (\<lambda>n v es. es @ [Int_Entry n v]),
      append_group = (\<lambda>n i p b es. es @ [Group_Entry n b]),
      find_double = (\<lambda>n. first_entry (\<lambda>e. case e of Double_Entry k v \<Rightarrow> if k = n then Some v else None | _ \<Rightarrow> None)),
      find_bool = (\<lambda>n. first_entry (\<lambda>e. case e of Bool_Entry k v \<Rightarrow> if k = n then Some v else None | _ \<Rightarrow> None)),
      find_int = (\<lambda>n. first_entry (\<lambda>e. case e of Int_Entry k v \<Rightarrow> if k = n then Some v else None | _ \<Rightarrow> None)),
      find_group = (\<lambda>n. first_entry (\<lambda>e. case e of Group_Entry k b \<Rightarrow> if k = n then Some b else None | _ \<Rightarrow> None)),
      msg_size = (\<lambda>es. length (filter (\<lambda>e. case e of Group_Entry k b \<Rightarrow> False | _ \<Rightarrow> True) es))\<rparr>"

lemma tools_ok_list: "tools_ok list_tools"
  unfolding tools_ok_def by (simp add: list_tools_def first_entry_append first_entry_Nil split: option.splits)

definition wide_config :: dynamic_config where
  "wide_config =
     \<lparr>p_Phi = F64 0, p_ThreeDScanApp = True, p_maxangle = 0, p_LaserScan2_Map = True, p_radarimage = True,
     p_radarimageprocessing = True, p_threshold_value = 300, p_pointcloud = True,
     p_pcl_threshold_value = 0, p_boundingboxes2 = True, p_MinAreaRect = True, p_longtermaverage = True,
     p_dilation_value = 0, p_gaussian_value = 0, p_adaptive_threshold = True, p_level_above_average = 0,
     p_adaptive_size = 0, p_grid = True, p_grid_stepSize = -3, p_grid_opacity = F64 0, p_colormap = 0,
     groups = \<lparr>p_Phi = F64 0, p_ThreeDScanApp = True, p_maxangle = 0, p_LaserScan2_Map = True, p_radarimage = True,
     p_radarimageprocessing = True, p_threshold_value = 300, p_pointcloud = True,
     p_pcl_threshold_value = 0, p_boundingboxes2 = True, p_MinAreaRect = True, p_longtermaverage = True,
     p_dilation_value = 0, p_gaussian_value = 0, p_adaptive_threshold = True, p_level_above_average = 0,
     p_adaptive_size = 0, p_grid = True, p_grid_stepSize = -3, p_grid_opacity = F64 0, p_colormap = 0,
     g_state = True, g_name = ''Default''\<rparr>\<rparr>"

lemma wide_members: "p_threshold_value wide_config = 300" "p_grid wide_config" "p_grid_stepSize wide_config = - 3"
  by (simp_all add: wide_config_def)

lemma truncate_threshold:
  "params.truncate a = params.truncate b \<Longrightarrow> p_threshold_value a = p_threshold_value b"
  by (simp add: params.truncate_def)

abbreviation wide_statics :: statics where
  "wide_statics \<equiv> build_statics wide_config wide_config wide_config"

definition sample_server :: "(string \<times> any_value) list \<Rightarrow> param_server_values" where
  "sample_server kvs =
     \<lparr>server_double = (\<lambda>n. case map_of kvs n of Some (Any_Double x) \<Rightarrow> Some x | _ \<Rightarrow> None),
      server_bool = (\<lambda>n. case map_of kvs n of Some (Any_Bool x) \<Rightarrow> Some x | _ \<Rightarrow> None),
      server_int = (\<lambda>n. case map_of kvs n of Some (Any_Int x) \<Rightarrow> Some x | _ \<Rightarrow> None)\<rparr>"

theorem parameter_message_round_trip_witness:
  "\<exists>c2. from_message list_tools wide_statics
      (to_message list_tools (descriptions wide_statics) (default_desc wide_statics) wide_config []) wide_config = Some (True, c2) \<and>
    p_threshold_value c2 = 300"
  using parameter_message_round_trip [OF tools_ok_list, of wide_config wide_config wide_config wide_config "[]" wide_config]
    truncate_threshold wide_members(1) by metis

theorem unexpected_parameter_applied_witness:
  "\<exists>c2. from_message list_tools wide_statics (append_int list_tools ''unknown'' 1
      (to_message list_tools (descriptions wide_statics) (default_desc wide_statics) wide_config [])) wide_config = Some (False, c2) \<and>
    params.truncate c2 = params.truncate wide_config"
  by (rule unexpected_parameter_applied [OF tools_ok_list])

lemma sample_server_holds: "server_holds (sample_server (to_server (build_statics u1 u2 u3) c)) (to_server (build_statics u1 u2 u3) c)"
  by (simp add: server_holds_def sample_server_def to_server_def param_table_def param_defs)

theorem server_round_trip_witness:
  "\<exists>c2. from_server wide_statics
      (sample_server (to_server wide_statics wide_config)) False wide_config =
        (True, c2) \<and> params.truncate c2 = params.truncate wide_config"
  using server_round_trip [OF sample_server_holds] by blast

lemma val32_two: "val32 (f32_mul (f32_of_int 1) (f32_of_int 2)) = Fin 2"
proof -
  have v: "val32 (f32_of_int 1) = Fin 1" "val32 (f32_of_int 2) = Fin 2"
    using val32_of_int [of 1] val32_of_int [of 2] by simp_all
  have "to_fp b32 2 = Fin 2" using to_fp_int32 [of 2] by simp
  moreover have "rep b32 (to_fp b32 2)" by (rule rep_to_fp)
  ultimately show ?thesis by (simp add: f32_mul_def v fp_mul_def Let_def val32_mk32)
qed

theorem clamped_configuration_fits_witness:
  "\<exists>s'. param_callback (platform_config_of (clamp_config wide_statics wide_config))
      (new_platform\<lparr>pf_range_res := f32_of_int 1\<rparr>) = Some s' \<and> uint (pf_threshold s') = 255 \<and> uint (grid_step s') = 0"
proof -
  let ?c = "clamp_config wide_statics wide_config"
  have "p_grid ?c" "p_grid_stepSize ?c = 0" by (simp_all add: clamped_step clamped_grid wide_members)
  then obtain s' where "param_callback (platform_config_of ?c) (new_platform\<lparr>pf_range_res := f32_of_int 1\<rparr>) = Some s'"
    using zero_step_divides_by_zero [of "platform_config_of ?c" "new_platform\<lparr>pf_range_res := f32_of_int 1\<rparr>" 2] val32_two
    by (auto simp: cfg_of)
  from clamped_configuration_fits [OF this] this show ?thesis by (auto simp: wide_members)
qed

theorem clamped_step_divides_by_zero_witness:
  "\<exists>s'. param_callback (platform_config_of (clamp_config wide_statics wide_config))
      (new_platform\<lparr>pf_range_res := f32_of_int 1\<rparr>) = Some s' \<and> processed_image sample_cv s' [[7]] = None"
  by (rule clamped_step_divides_by_zero [of _ _ 2]) (simp_all add: val32_two wide_members)

end
