(* ===== verification/Ros1_Movement.thy ===== *)
theory Ros1_Movement
  imports Prelude "HOL-Library.Monad_Syntax"
begin

text \<open>
  \<open>ros1/src/Movement-Detector.cpp\<close>: a node for a radar that stands still, which compares each image
  with a running average of the ones before it (the clutter) and shows boxes around what moved.  An
  image and the operations of OpenCV on it are parameters; the two windows are actions.  The sliders
  only change the numbers of \<open>sliders\<close>.
\<close>

record 'i movement_lib =
  to_cartesian :: "'i \<Rightarrow> 'i"   \<comment> \<open>rotation, inverse polar map and flip\<close>
  gaussian_blur :: "int \<Rightarrow> 'i \<Rightarrow> 'i"
  absolute_difference :: "'i \<Rightarrow> 'i \<Rightarrow> 'i option"   \<comment> \<open>of images of one size\<close>
  weighted_sum :: "'i \<Rightarrow> 'i \<Rightarrow> 'i option"   \<comment> \<open>one twentieth of the first, the rest of the second\<close>
  cut_below :: "int \<Rightarrow> 'i \<Rightarrow> 'i"
  edge_image :: "'i \<Rightarrow> 'i"
  dilated :: "int \<Rightarrow> 'i \<Rightarrow> 'i"
  colour_copy :: "'i \<Rightarrow> 'i"
  boxes_around :: "'i \<Rightarrow> 'i \<Rightarrow> 'i"   \<comment> \<open>the smallest rectangles around the outer contours, drawn\<close>

record sliders =
  tracking :: int
  dilation_size :: int
  gaussian_size :: int

record 'i detector =
  frames_seen :: int
  clutter :: "'i option"

datatype 'i shown_window = Laplacian_filter 'i | Components 'i

definition new_detector :: "'i detector" where
  "new_detector = \<lparr>frames_seen = 0, clutter = None\<rparr>"

definition default_sliders :: sliders where
  "default_sliders = \<lparr>tracking = 27, dilation_size = 2, gaussian_size = 2\<rparr>"

definition prepared_image :: "'i movement_lib \<Rightarrow> sliders \<Rightarrow> 'i \<Rightarrow> 'i" where
  "prepared_image lib sl img = gaussian_blur lib (gaussian_size sl * 2 + 1) (to_cartesian lib img)"

text \<open>The first image that counts becomes the clutter and is shown as it is.\<close>

definition movement_callback ::
    "'i movement_lib \<Rightarrow> sliders \<Rightarrow> 'i \<Rightarrow> 'i detector \<Rightarrow> ('i detector \<times> 'i shown_window list) option" where
  "movement_callback lib sl img n =
     (if frames_seen n > 2 then do {
        let cart = prepared_image lib sl img;
        (n1, new_im, background) \<leftarrow> (if frames_seen n = 3 then Some (n\<lparr>clutter := Some cart\<rparr>, cart, cart)
          else do {
            old \<leftarrow> clutter n;
            difference \<leftarrow> absolute_difference lib cart old;
            mixed \<leftarrow> weighted_sum lib cart old;
            Some (n\<lparr>clutter := Some mixed\<rparr>, difference, mixed) });
        let edges = edge_image lib (cut_below lib (tracking sl) new_im);
        let shown = boxes_around lib (dilated lib (dilation_size sl + 1) edges) (colour_copy lib background);
        Some (n1\<lparr>frames_seen := frames_seen n1 + 1\<rparr>, [Laplacian_filter edges, Components shown]) }
      else Some (n\<lparr>frames_seen := frames_seen n + 1\<rparr>, []))"

fun movement_run :: "'i movement_lib \<Rightarrow> sliders \<Rightarrow> 'i list \<Rightarrow> 'i detector \<Rightarrow> ('i detector \<times> 'i shown_window list) option" where
  "movement_run lib sl [] n = Some (n, [])"
| "movement_run lib sl (i # is) n = do {
     (n1, acts1) \<leftarrow> movement_callback lib sl i n;
     (n2, acts2) \<leftarrow> movement_run lib sl is n1;
     Some (n2, acts1 @ acts2) }"

section \<open>The clutter\<close>

text \<open>The running average of images that can be mixed, started with the first.\<close>

definition running_average :: "('i \<Rightarrow> 'i \<Rightarrow> 'i) \<Rightarrow> 'i list \<Rightarrow> 'i" where
  "running_average mix is = (case is of i # rest \<Rightarrow> fold mix rest i)"

lemma movement_run_average:
  assumes "\<And>a b. weighted_sum lib a b = Some (mix a b)" "\<And>a b. absolute_difference lib a b \<noteq> None"
    and "frames_seen n > 3" "clutter n = Some c"
  shows "\<exists>acts. movement_run lib sl is n = Some (\<lparr>frames_seen = frames_seen n + int (length is),
    clutter = Some (fold mix (map (prepared_image lib sl) is) c)\<rparr>, acts) \<and> length acts = 2 * length is"
  using assms(3,4)
proof (induction "is" arbitrary: n c)
  case Nil
  then show ?case by simp
next
  case (Cons i "is")
  let ?n = "n\<lparr>frames_seen := frames_seen n + 1, clutter := Some (mix (prepared_image lib sl i) c)\<rparr>"
  obtain d where "absolute_difference lib (prepared_image lib sl i) c = Some d" using assms(2) by blast
  then have "\<exists>acts. movement_callback lib sl i n = Some (?n, acts) \<and> length acts = 2"
    using Cons.prems assms(1) by (simp add: movement_callback_def Let_def)
  then show ?case using Cons.IH [of ?n "mix (prepared_image lib sl i) c"] Cons.prems by (auto simp: ac_simps)
qed

lemma movement_run_append:
  "movement_run lib sl xs n = Some (n1, acts1) \<Longrightarrow> movement_run lib sl ys n1 = Some (n2, acts2) \<Longrightarrow>
   movement_run lib sl (xs @ ys) n = Some (n2, acts1 @ acts2)"
  by (induction xs arbitrary: n acts1) (auto split: Option.bind_splits)

text \<open>
  The first three images are passed over; from then on every image is shown in both windows and
  the clutter is the running average of the images since.
\<close>

theorem clutter_is_average:
  assumes "\<And>a b. weighted_sum lib a b = Some (mix a b)" "\<And>a b. absolute_difference lib a b \<noteq> None"
  shows "\<exists>n acts. movement_run lib sl ([a, b, c, i] @ is) new_detector = Some (n, acts) \<and>
    clutter n = Some (running_average mix (map (prepared_image lib sl) (i # is))) \<and> length acts = 2 * (1 + length is)"
proof -
  let ?n = "\<lparr>frames_seen = 4, clutter = Some (prepared_image lib sl i)\<rparr>"
  obtain acts where acts: "movement_run lib sl [a, b, c, i] new_detector = Some (?n, acts)" "length acts = 2"
    by (simp add: movement_callback_def new_detector_def Let_def)
  obtain acts2 where acts2: "movement_run lib sl is ?n = Some (\<lparr>frames_seen = 4 + int (length is),
      clutter = Some (fold mix (map (prepared_image lib sl) is) (prepared_image lib sl i))\<rparr>, acts2)" "length acts2 = 2 * length is"
    using movement_run_average [OF assms, of ?n "prepared_image lib sl i" sl "is"] by auto
  show ?thesis
    using movement_run_append [OF acts(1) acts2(1)] acts(2) acts2(2) by (simp add: running_average_def)
qed

definition number_images :: "int movement_lib" where
  "number_images = \<lparr>to_cartesian = id, gaussian_blur = (\<lambda>_ i. i), absolute_difference = (\<lambda>a b. Some \<bar>a - b\<bar>),
     weighted_sum = (\<lambda>a b. Some ((a + 19 * b) div 20)), cut_below = (\<lambda>t i. if i > t then i else 0), edge_image = id,
     dilated = (\<lambda>_ i. i), colour_copy = id, boxes_around = (\<lambda>_ i. i)\<rparr>"

theorem clutter_is_average_witness:
  "\<exists>n acts. movement_run number_images default_sliders ([1, 2, 3, 100] @ [200, 300]) new_detector = Some (n, acts) \<and> clutter n = Some 114"
  using clutter_is_average [of number_images "\<lambda>a b. (a + 19 * b) div 20" default_sliders 1 2 3 100 "[200, 300]"]
  by (auto simp: number_images_def running_average_def prepared_image_def default_sliders_def)

end
