(* ===== verification/Video_Subscribers.thy ===== *)
theory Video_Subscribers
  imports Ros_Node Bearing
begin

text \<open>
  The subscribers of \<open>ros2/src/nav_ros/src\<close> that write videos: \<open>colossus_subscriber_to_video\<close>,
  \<open>laser_scan_subscriber_to_video\<close> and \<open>colossus_and_camera_subscriber_to_video\<close>.  What they do
  themselves is modelled: the configuration they take, the pixels they store and when they open a
  video and write a frame.  The image operations of OpenCV are parameters (\<open>image_lib\<close>), and
  opening a video and writing a frame are actions.
\<close>

section \<open>Images and actions\<close>

record 'i image_lib =
  gray_image :: "int \<Rightarrow> int \<Rightarrow> byte list \<Rightarrow> 'i"   \<comment> \<open>rows, columns and pixels\<close>
  linear_polar_inverse :: "'i \<Rightarrow> float32 \<times> float32 \<Rightarrow> float64 \<Rightarrow> 'i"
  normalise_min_max :: "'i \<Rightarrow> 'i"
  rotate_90_counterclockwise :: "'i \<Rightarrow> 'i"
  merge_channels :: "'i list \<Rightarrow> 'i option"   \<comment> \<open>images of one size, or an exception\<close>
  filled_circle :: "int \<times> int \<Rightarrow> int \<Rightarrow> 'i \<Rightarrow> 'i"   \<comment> \<open>centre and grey value\<close>
  colour_image :: "int \<Rightarrow> int \<Rightarrow> byte list \<Rightarrow> 'i"

datatype 'i video_action = Open_video string int "int \<times> int" | Write_video string 'i

definition radar_video :: string where
  "radar_video = ''output_videos/radar_output.avi''"

definition scan_video :: string where
  "scan_video = ''output_videos/laser_scan_output.avi''"

definition camera_video :: string where
  "camera_video = ''output_videos/camera_output.avi''"

definition blank_pixels :: "byte list" where
  "blank_pixels = replicate (400 * 400) 0"

text \<open>Half the side of a square image, its centre and the inverse polar map onto a green frame.\<close>

definition polar_frame :: "'i image_lib \<Rightarrow> int \<Rightarrow> 'i \<Rightarrow> 'i option" where
  "polar_frame lib side img =
     (let half = f32_of_int (side div 2);
          rotated = rotate_90_counterclockwise lib
            (normalise_min_max lib (linear_polar_inverse lib img (half, half) (f64_of_f32 half)));
          blank = gray_image lib 400 400 blank_pixels
      in merge_channels lib [blank, rotated, blank])"

section \<open>Configuration\<close>

record video_node =
  config_received :: bool
  vn_encoder_size :: int
  vn_azimuth_samples :: int
  video_width :: int
  video_height :: int
  current_bearing :: int
  vn_rotation_rate :: int
  vn_last_azimuth :: int

definition new_video_node :: video_node where
  "new_video_node =
     \<lparr>config_received = False, vn_encoder_size = 0, vn_azimuth_samples = 0, video_width = 0, video_height = 0,
      current_bearing = 0, vn_rotation_rate = 0, vn_last_azimuth = 0\<rparr>"

text \<open>A field of the message that cannot be read leaves the member as it is.\<close>

definition when_present :: "'v option \<Rightarrow> ('v \<Rightarrow> 'n \<Rightarrow> 'n) \<Rightarrow> 'n \<Rightarrow> 'n" where
  "when_present v store n = (case v of None \<Rightarrow> n | Some x \<Rightarrow> store x n)"

definition store_configuration :: "configuration_view \<Rightarrow> 'a video_node_scheme \<Rightarrow> 'a video_node_scheme" where
  "store_configuration view n =
     (let n1 = when_present (v_azimuth_samples view)
                 (\<lambda>v n. n\<lparr>vn_azimuth_samples := uint v, video_height := uint v\<rparr>) n;
          n2 = when_present (v_encoder_size view) (\<lambda>v n. n\<lparr>vn_encoder_size := uint v\<rparr>) n1;
          n3 = when_present (v_range_in_bins view) (\<lambda>v n. n\<lparr>video_width := uint v\<rparr>) n2
      in when_present (v_expected_rotation_rate view) (\<lambda>v n. n\<lparr>vn_rotation_rate := uint v\<rparr>) n3)"

definition open_radar_video :: "string \<Rightarrow> 'a video_node_scheme \<Rightarrow> 'i video_action" where
  "open_radar_video path n = Open_video path (vn_rotation_rate n) (vn_azimuth_samples n, vn_azimuth_samples n)"

definition video_configuration_data_callback ::
    "radar_configuration_message \<Rightarrow> 'a video_node_scheme \<Rightarrow> 'a video_node_scheme \<times> 'i video_action list" where
  "video_configuration_data_callback msg n =
     (if config_received n then (n, [])
      else (let n1 = store_configuration (configuration_data_callback msg) n
            in (n1\<lparr>config_received := True\<rparr>, [open_radar_video radar_video n1])))"

section \<open>Radar data\<close>

record radar_video_node = video_node +
  vn_azimuth :: int
  vn_data_length :: int
  radar_image :: "byte list"   \<comment> \<open>400 rows of 400 pixels\<close>

definition new_radar_video_node :: radar_video_node where
  "new_radar_video_node =
     video_node.extend new_video_node \<lparr>vn_azimuth = 0, vn_data_length = 0, radar_image = blank_pixels\<rparr>"

text \<open>\<open>i * 1 + node->current_bearing * radar_image.step + 1\<close>, computed in \<open>size_t\<close> and stored in an \<open>int\<close>.\<close>

definition pixel_index :: "int \<Rightarrow> nat \<Rightarrow> int" where
  "pixel_index bearing i = to_int32 (int i + bearing * 400 + 1)"

text \<open>The image's memory is 160,000 bytes: a read or a write outside is undefined.\<close>

definition store_pixel :: "byte list \<Rightarrow> int \<Rightarrow> nat \<Rightarrow> byte list \<Rightarrow> byte list option" where
  "store_pixel bytes bearing i img =
     (let index = pixel_index bearing i in
      if index < int (400 * 400) then
        (if index < 0 then None else do { x \<leftarrow> nth_opt bytes i; set_opt (nat index) x img })
      else Some img)"

fun store_pixels :: "byte list \<Rightarrow> int \<Rightarrow> nat list \<Rightarrow> byte list \<Rightarrow> byte list option" where
  "store_pixels bytes bearing [] img = Some img"
| "store_pixels bytes bearing (i # is) img =
     Option.bind (store_pixel bytes bearing i img) (store_pixels bytes bearing is)"

definition bearing_of :: "'a radar_video_node_scheme \<Rightarrow> int option" where
  "bearing_of n = f64_to_int32 (f64_mul (f64_div (f64_of_int (vn_azimuth n)) (f64_of_int (vn_encoder_size n)))
     (f64_of_int (vn_azimuth_samples n)))"

definition video_fft_data_callback ::
    "'i image_lib \<Rightarrow> radar_fft_data_message \<Rightarrow> 'a radar_video_node_scheme \<Rightarrow>
     ('a radar_video_node_scheme \<times> 'i video_action list) option" where
  "video_fft_data_callback lib msg n =
     (if \<not> config_received n then Some (n, [])
      else do {
        let n1 = when_present (v_azimuth (fft_data_callback msg)) (\<lambda>v n. n\<lparr>vn_azimuth := uint v\<rparr>) n;
        let n2 = when_present (v_data_length (fft_data_callback msg)) (\<lambda>v n. n\<lparr>vn_data_length := uint v\<rparr>) n1;
        bearing \<leftarrow> bearing_of n2;
        let n3 = n2\<lparr>current_bearing := bearing\<rparr>;
        img \<leftarrow> store_pixels (m_data msg) bearing [0..<nat (min (vn_data_length n3) (vn_azimuth_samples n3))]
          (radar_image n3);
        let n4 = n3\<lparr>radar_image := img\<rparr>;
        acts \<leftarrow> (if vn_azimuth n4 < vn_last_azimuth n4
          then map_option (\<lambda>f. [Write_video radar_video f]) (polar_frame lib 400 (gray_image lib 400 400 img))
          else Some []);
        Some (n4\<lparr>vn_last_azimuth := vn_azimuth n4\<rparr>, acts) })"

section \<open>Laser scans\<close>

record scan_video_node = video_node +
  vn_bin_size :: float32

definition new_scan_video_node :: scan_video_node where
  "new_scan_video_node = video_node.extend new_video_node \<lparr>vn_bin_size = f32_of_int 0\<rparr>"

definition scan_video_configuration_data_callback ::
    "radar_configuration_message \<Rightarrow> scan_video_node \<Rightarrow> scan_video_node \<times> 'i video_action list" where
  "scan_video_configuration_data_callback msg n =
     (if config_received n then (n, [])
      else (let view = configuration_data_callback msg;
                n1 = when_present (v_bin_size view) (\<lambda>v n. n\<lparr>vn_bin_size := f32_of_f64 v\<rparr>) (store_configuration view n)
            in (n1\<lparr>config_received := True\<rparr>, [open_radar_video scan_video n1])))"

definition f32_to_int32 :: "float32 \<Rightarrow> int option" where
  "f32_to_int32 x = fp_to_int (- (2 ^ 31)) (2 ^ 31 - 1) (val32 x)"

text \<open>One value of the scan: a spot at its range in the row of its index, if its bin is in the image.\<close>

definition draw_spot :: "'i image_lib \<Rightarrow> laser_scan \<Rightarrow> scan_video_node \<Rightarrow> nat \<Rightarrow> 'i \<Rightarrow> 'i option" where
  "draw_spot lib msg n r img = do {
     index \<leftarrow> f32_to_int32 (f32_div (ranges msg ! r) (vn_bin_size n));
     brightness \<leftarrow> nth_opt (intensities msg) r;
     intensity \<leftarrow> f32_to_int32 brightness;
     if index < vn_azimuth_samples n then do {
       x \<leftarrow> f32_to_int32 (ranges msg ! r);
       Some (filled_circle lib (x, int r) intensity img) }
     else Some img }"

fun draw_spots :: "'i image_lib \<Rightarrow> laser_scan \<Rightarrow> scan_video_node \<Rightarrow> nat list \<Rightarrow> 'i \<Rightarrow> 'i option" where
  "draw_spots lib msg n [] img = Some img"
| "draw_spots lib msg n (r # rs) img = Option.bind (draw_spot lib msg n r img) (draw_spots lib msg n rs)"

definition laser_scan_callback ::
    "'i image_lib \<Rightarrow> laser_scan \<Rightarrow> scan_video_node \<Rightarrow> (scan_video_node \<times> 'i video_action list) option" where
  "laser_scan_callback lib msg n =
     (if \<not> config_received n then Some (n, [])
      else do {
        let side = vn_azimuth_samples n;
        img \<leftarrow> draw_spots lib msg n [0..<length (ranges msg)]
          (gray_image lib side side (replicate (nat (side * side)) 0));
        f \<leftarrow> polar_frame lib side img;
        Some (n, [Write_video scan_video f]) })"

section \<open>Radar and camera data\<close>

record camera_video_node = radar_video_node +
  camera_config_received :: bool

definition new_camera_video_node :: camera_video_node where
  "new_camera_video_node = radar_video_node.extend new_radar_video_node \<lparr>camera_config_received = False\<rparr>"

text \<open>The test is of the flag of the radar's configuration, as in the code.\<close>

definition camera_configuration_data_callback ::
    "camera_configuration_message \<Rightarrow> camera_video_node \<Rightarrow> camera_video_node \<times> 'i video_action list" where
  "camera_configuration_data_callback msg n =
     (if config_received n then (n, [])
      else (n\<lparr>camera_config_received := True\<rparr>,
            [Open_video camera_video (uint (cc_fps msg)) (to_int32 (uint (cc_width msg)), to_int32 (uint (cc_height msg)))]))"

text \<open>The frame is copied from the memory of the message, three bytes for each pixel.\<close>

definition camera_image_callback ::
    "'i image_lib \<Rightarrow> ros_image \<Rightarrow> camera_video_node \<Rightarrow> (camera_video_node \<times> 'i video_action list) option" where
  "camera_image_callback lib msg n =
     (if \<not> camera_config_received n then Some (n, [])
      else (let rows = to_int32 (uint (image_height msg)); cols = to_int32 (uint (image_width msg)) in
        if rows < 0 \<or> cols < 0 then None
        else do {
          bytes \<leftarrow> peek_at 0 (nat (rows * cols * 3)) (image_data msg);
          Some (n, [Write_video camera_video (colour_image lib rows cols bytes)]) }))"

datatype video_input =
    Radar_configuration_input radar_configuration_message
  | Fft_input radar_fft_data_message
  | Camera_configuration_input camera_configuration_message
  | Camera_image_input ros_image

fun camera_video_callback ::
    "'i image_lib \<Rightarrow> video_input \<Rightarrow> camera_video_node \<Rightarrow> (camera_video_node \<times> 'i video_action list) option" where
  "camera_video_callback lib (Radar_configuration_input m) n = Some (video_configuration_data_callback m n)"
| "camera_video_callback lib (Fft_input m) n = video_fft_data_callback lib m n"
| "camera_video_callback lib (Camera_configuration_input m) n = Some (camera_configuration_data_callback m n)"
| "camera_video_callback lib (Camera_image_input m) n = camera_image_callback lib m n"

text \<open>The callbacks of a node, one after another, with all they write.\<close>

fun video_run ::
    "'i image_lib \<Rightarrow> video_input list \<Rightarrow> camera_video_node \<Rightarrow> (camera_video_node \<times> 'i video_action list) option" where
  "video_run lib [] n = Some (n, [])"
| "video_run lib (m # ms) n = do {
     (n1, acts) \<leftarrow> camera_video_callback lib m n;
     (n2, acts') \<leftarrow> video_run lib ms n1;
     Some (n2, acts @ acts') }"

section \<open>Properties\<close>

lemma store_pixels_length: "store_pixels bytes k is img = Some img' \<Longrightarrow> length img' = length img"
  by (induction "is" arbitrary: img) (auto simp: store_pixel_def Let_def set_opt_def split: if_splits bind_splits)

lemma when_present_simps [simp]:
  "when_present None f n = n" "when_present (Some x) f n = f x n"
  by (simp_all add: when_present_def)

text \<open>The pixels stored for the first bins of an azimuth whose row is in the range of an \<open>int\<close>.\<close>

definition with_bins :: "byte list \<Rightarrow> int \<Rightarrow> nat \<Rightarrow> byte list \<Rightarrow> byte list" where
  "with_bins bytes k m img = map (\<lambda>p. if 400 * k + 1 \<le> int p \<and> int p < 400 * k + 1 + int m
     then bytes ! nat (int p - (400 * k + 1)) else img ! p) [0..<length img]"

lemma with_bins_length [simp]: "length (with_bins bytes k m img) = length img"
  by (simp add: with_bins_def)

lemma with_bins_0 [simp]: "with_bins bytes k 0 img = img"
  by (rule nth_equalityI) (auto simp: with_bins_def)

lemma to_int32_small: "- (2 ^ 31) \<le> v \<Longrightarrow> v < 2 ^ 31 \<Longrightarrow> to_int32 v = v"
  by (simp add: to_int32_def sint_sbintrunc' signed_take_bit_int_eq_self)

lemma to_int32_u32: "uint (w :: u32) < 2147483648 \<Longrightarrow> to_int32 (uint w) = uint w"
  using to_int32_small [of "uint w"] order_trans [OF _ uint_ge_0 [of w], of "- 2147483648"] by simp

lemma pixel_index_small:
  "0 \<le> k \<Longrightarrow> 400 * k + 1 + int i < 2 ^ 31 \<Longrightarrow> pixel_index k i = 400 * k + 1 + int i"
  using to_int32_small [of "int i + k * 400 + 1"] by (simp add: pixel_index_def)

lemma with_bins_Suc:
  assumes "0 \<le> k" "length img = 400 * 400"
  shows "with_bins bytes k (Suc m) img =
    (if 400 * k + 1 + int m < int (400 * 400)
     then (with_bins bytes k m img)[nat (400 * k + 1 + int m) := bytes ! m] else with_bins bytes k m img)"
proof (rule nth_equalityI)
  show "length (with_bins bytes k (Suc m) img) = length (if 400 * k + 1 + int m < int (400 * 400)
     then (with_bins bytes k m img)[nat (400 * k + 1 + int m) := bytes ! m] else with_bins bytes k m img)" by simp
next
  fix p assume "p < length (with_bins bytes k (Suc m) img)"
  then have p: "p < length img" by simp
  show "with_bins bytes k (Suc m) img ! p = (if 400 * k + 1 + int m < int (400 * 400)
     then (with_bins bytes k m img)[nat (400 * k + 1 + int m) := bytes ! m] else with_bins bytes k m img) ! p"
  proof (cases "int p = 400 * k + 1 + int m")
    case True
    then have "nat (int p - (400 * k + 1)) = m" "nat (400 * k + 1 + int m) = p" by simp_all
    then show ?thesis using True p assms by (simp add: with_bins_def)
  next
    case False
    then have "nat (400 * k + 1 + int m) \<noteq> p" using assms(1) by linarith
    then show ?thesis using False p by (auto simp: with_bins_def)
  qed
qed

lemma store_pixels_append:
  "store_pixels bytes k (xs @ ys) img = Option.bind (store_pixels bytes k xs img) (store_pixels bytes k ys)"
  by (induction xs arbitrary: img) (auto split: bind_splits)

lemma store_pixels_upto:
  assumes "0 \<le> k" "length img = 400 * 400" "m \<le> length bytes" "400 * k + 1 + int m < 2 ^ 31"
  shows "store_pixels bytes k [0..<m] img = Some (with_bins bytes k m img)"
  using assms(3,4)
proof (induction m)
  case (Suc m)
  then have "store_pixels bytes k [0..<m] img = Some (with_bins bytes k m img)" by simp
  moreover have "pixel_index k m = 400 * k + 1 + int m"
    using Suc.prems assms(1) by (simp add: pixel_index_small)
  ultimately show ?case
    using Suc.prems assms(1,2)
    by (simp add: store_pixels_append store_pixel_def with_bins_Suc nth_opt_def set_opt_def nat_less_iff del: of_nat_mult)
qed simp

lemma fft_message_arrives:
  "v_azimuth (fft_data_callback (fft_message_of fft)) = Some (f_azimuth fft)"
  "v_data_length (fft_data_callback (fft_message_of fft)) = Some (of_nat (length (f_data fft)))"
  "m_data (fft_message_of fft) = f_data fft"
  by (simp_all add: fft_data_callback_def fft_message_of_def)

text \<open>
  What one FFT data message does, when the bearing \<open>k\<close> is in range and the image has its size;
  \<open>m\<close> is the number of bins that are stored.
\<close>

lemma fft_stored:
  assumes "config_received n" "length (radar_image n) = 400 * 400" "length (f_data fft) < 2 ^ 16"
    "bearing_of (n\<lparr>vn_azimuth := uint (f_azimuth fft)\<rparr>) = Some k" "0 \<le> k" "k < 5000000"
    "0 \<le> vn_azimuth_samples n" "vn_azimuth_samples n < 2 ^ 16"
    "m = min (length (f_data fft)) (nat (vn_azimuth_samples n))"
    "img = with_bins (f_data fft) k m (radar_image n)"
    "polar_frame lib 400 (gray_image lib 400 400 img) = Some f"
  shows "video_fft_data_callback lib (fft_message_of fft) n =
    Some (n\<lparr>vn_azimuth := uint (f_azimuth fft), vn_data_length := int (length (f_data fft)), current_bearing := k,
        radar_image := img, vn_last_azimuth := uint (f_azimuth fft)\<rparr>,
      if uint (f_azimuth fft) < vn_last_azimuth n then [Write_video radar_video f] else [])"
proof -
  let ?n = "n\<lparr>vn_azimuth := uint (f_azimuth fft), vn_data_length := int (length (f_data fft))\<rparr>"
  have len: "uint (of_nat (length (f_data fft)) :: u16) = int (length (f_data fft))"
    using assms(3) by (simp add: unsigned_of_nat take_bit_nat_eq_self)
  have "bearing_of ?n = Some k" using assms(4) by (simp add: bearing_of_def)
  moreover have "nat (min (int (length (f_data fft))) (vn_azimuth_samples n)) = m"
    using assms(7,9) by simp
  moreover have "store_pixels (f_data fft) k [0..<m] (radar_image n) = Some img"
    using store_pixels_upto [of k "radar_image n" m "f_data fft"] assms by simp
  ultimately show ?thesis
    using assms(1,11) by (simp add: video_fft_data_callback_def fft_message_arrives len)
qed

text \<open>
  C29: the radar image after an FFT data message whose azimuth has the bearing \<open>k\<close>.  The bins, at
  most one for each azimuth of a rotation, go to consecutive pixels from the second pixel of row
  \<open>k\<close> on, as far as the image reaches, and every other pixel is what it was.  With 400 or more bins
  and azimuths they do not end with the row: the bin with index 399 is the first pixel of the next
  row, and in the last row it is dropped.  The first pixel of row \<open>k\<close> is not written.  A frame, made
  of the new image, is written exactly when the azimuth is smaller than the last.
\<close>

theorem video_row_stored:
  assumes "config_received n" "length (radar_image n) = 400 * 400" "length (f_data fft) < 2 ^ 16"
    "bearing_of (n\<lparr>vn_azimuth := uint (f_azimuth fft)\<rparr>) = Some (int k)" "k < 5000000"
    "0 \<le> vn_azimuth_samples n" "vn_azimuth_samples n < 2 ^ 16"
    "m = min (length (f_data fft)) (nat (vn_azimuth_samples n))"
    "\<And>px. length px = 400 * 400 \<Longrightarrow> \<exists>f. polar_frame lib 400 (gray_image lib 400 400 px) = Some f"
  shows "\<exists>img f. video_fft_data_callback lib (fft_message_of fft) n =
      Some (n\<lparr>vn_azimuth := uint (f_azimuth fft), vn_data_length := int (length (f_data fft)), current_bearing := int k,
          radar_image := img, vn_last_azimuth := uint (f_azimuth fft)\<rparr>,
        if uint (f_azimuth fft) < vn_last_azimuth n then [Write_video radar_video f] else []) \<and>
    polar_frame lib 400 (gray_image lib 400 400 img) = Some f \<and> length img = 400 * 400 \<and>
    (\<forall>i < m. 400 * k + 1 + i < 160000 \<longrightarrow> img ! (400 * k + 1 + i) = f_data fft ! i) \<and>
    (\<forall>p < 160000. p \<le> 400 * k \<or> 400 * k + m < p \<longrightarrow> img ! p = radar_image n ! p) \<and>
    (400 \<le> m \<and> k < 399 \<longrightarrow> img ! (400 * (k + 1)) = f_data fft ! 399)"
proof -
  let ?img = "with_bins (f_data fft) (int k) m (radar_image n)"
  have len: "length ?img = 400 * 400" using assms(2) by simp
  from assms(9) [OF len] obtain f where f: "polar_frame lib 400 (gray_image lib 400 400 ?img) = Some f" by blast
  have bins: "?img ! (400 * k + 1 + i) = f_data fft ! i" if "i < m" "400 * k + 1 + i < 160000" for i
    using that assms(2) by (simp add: with_bins_def)
  have other: "?img ! p = radar_image n ! p" if "p < 160000" "p \<le> 400 * k \<or> 400 * k + m < p" for p
    using that assms(2) by (auto simp: with_bins_def)
  have last: "?img ! (400 * (k + 1)) = f_data fft ! 399" if "400 \<le> m" "k < 399"
    using bins [of 399] that by (simp add: algebra_simps)
  show ?thesis
    using fft_stored [OF assms(1-4) _ _ assms(6-8) refl f] assms(5) len f bins other last by auto
qed

definition sample_video_node :: radar_video_node where
  "sample_video_node = new_radar_video_node\<lparr>config_received := True, vn_encoder_size := 8, vn_azimuth_samples := 4,
     vn_last_azimuth := 7\<rparr>"

definition sample_video_fft :: fft_record where
  "sample_video_fft = \<lparr>f_angle = F64 0, f_azimuth = 4, f_sweep_counter = 0, f_ntp_seconds = 0,
     f_ntp_split_seconds = 0, f_data = [9, 8]\<rparr>"

text \<open>A library whose images are the pixels themselves.\<close>

definition pixel_lib :: "byte list image_lib" where
  "pixel_lib = \<lparr>gray_image = (\<lambda>r c bs. bs), linear_polar_inverse = (\<lambda>i c r. i), normalise_min_max = (\<lambda>i. i),
     rotate_90_counterclockwise = (\<lambda>i. i), merge_channels = (\<lambda>is. Some (concat is)),
     filled_circle = (\<lambda>p g i. i), colour_image = (\<lambda>r c bs. bs)\<rparr>"

lemma pixel_frames: "\<exists>f. polar_frame pixel_lib 400 i = Some f"
  by (simp add: polar_frame_def pixel_lib_def)

theorem video_row_stored_witness:
  "\<exists>n' f. video_fft_data_callback pixel_lib (fft_message_of sample_video_fft) sample_video_node =
      Some (n', [Write_video radar_video f]) \<and>
    radar_image n' ! 801 = 9 \<and> radar_image n' ! 802 = 8 \<and> radar_image n' ! 803 = 0"
proof -
  have bearing: "bearing_of (sample_video_node\<lparr>vn_azimuth := uint (f_azimuth sample_video_fft)\<rparr>) = Some (int 2)"
    by (simp add: bearing_of_def sample_video_node_def sample_video_fft_def new_radar_video_node_def
        new_video_node_def radar_video_node.defs video_node.defs f64_to_int32_def fp_to_int_def f64_mul_def f64_div_def
        val64_of_int [of 4, simplified] val64_of_int [of 8, simplified] exact_eval val64_sixteenths rat_trunc_def)
  have fields: "config_received sample_video_node" "length (radar_image sample_video_node) = 400 * 400"
      "vn_azimuth_samples sample_video_node = 4" "vn_last_azimuth sample_video_node = 7"
      "radar_image sample_video_node ! 803 = 0" "f_data sample_video_fft = [9, 8]" "uint (f_azimuth sample_video_fft) = 4"
    by (simp_all add: sample_video_node_def sample_video_fft_def new_radar_video_node_def new_video_node_def
        radar_video_node.defs video_node.defs blank_pixels_def)
  from video_row_stored [OF fields(1,2) _ bearing _ _ _ _ pixel_frames, of 2]
  obtain img f where 1: "video_fft_data_callback pixel_lib (fft_message_of sample_video_fft) sample_video_node =
      Some (sample_video_node\<lparr>vn_azimuth := uint (f_azimuth sample_video_fft), vn_data_length := int (length (f_data sample_video_fft)),
          current_bearing := int 2, radar_image := img, vn_last_azimuth := uint (f_azimuth sample_video_fft)\<rparr>,
        if uint (f_azimuth sample_video_fft) < vn_last_azimuth sample_video_node then [Write_video radar_video f] else [])"
      "\<forall>i < 2. 400 * 2 + 1 + i < 160000 \<longrightarrow> img ! (400 * 2 + 1 + i) = f_data sample_video_fft ! i"
      "\<forall>p < 160000. p \<le> 400 * 2 \<or> 400 * 2 + 2 < p \<longrightarrow> img ! p = radar_image sample_video_node ! p"
    unfolding fields(3,6) by (elim meta_impE exE conjE) simp_all
  have "img ! 801 = 9" "img ! 802 = 8" "img ! 803 = 0"
    using 1(2) [rule_format, of 0] 1(2) [rule_format, of 1] 1(3) [rule_format, of 803] fields(5,6) by simp_all
  then show ?thesis using 1(1) fields(4,7) by simp
qed

section \<open>Runs of a node\<close>

text \<open>
  What a node of radar and camera can rely on: configurations that carry the encoder size, FFT
  messages of azimuths below it, camera images with all their pixels.
\<close>

fun input_fits :: "u16 \<Rightarrow> video_input \<Rightarrow> bool" where
  "input_fits esz (Radar_configuration_input c) \<longleftrightarrow> v_encoder_size (configuration_data_callback c) = Some esz"
| "input_fits esz (Fft_input d) \<longleftrightarrow>
     (\<exists>fft. d = fft_message_of fft \<and> uint (f_azimuth fft) < uint esz \<and> length (f_data fft) < 2 ^ 16)"
| "input_fits esz (Camera_configuration_input c) \<longleftrightarrow> True"
| "input_fits esz (Camera_image_input m) \<longleftrightarrow>
     uint (image_height m) * uint (image_width m) * 3 \<le> int (length (image_data m)) \<and>
     uint (image_height m) < 2 ^ 31 \<and> uint (image_width m) < 2 ^ 31"

definition video_ok :: "u16 \<Rightarrow> 'a radar_video_node_scheme \<Rightarrow> bool" where
  "video_ok esz n \<longleftrightarrow> length (radar_image n) = 400 * 400 \<and> 0 \<le> vn_azimuth_samples n \<and> vn_azimuth_samples n < 2 ^ 16 \<and>
     (config_received n \<longrightarrow> vn_encoder_size n = uint esz)"

lemma u16_range: "0 \<le> uint (v :: u16)" "uint (v :: u16) < 65536"
  using uint_lt2p [of v] by simp_all

lemma configuration_ok:
  assumes "video_ok esz n" "v_encoder_size (configuration_data_callback c) = Some esz"
  shows "video_ok esz (fst (video_configuration_data_callback c n))"
  using assms u16_range
  by (auto simp: video_configuration_data_callback_def store_configuration_def when_present_def video_ok_def Let_def
      split: option.splits)

lemma fft_ok:
  assumes "video_ok esz n" "uint (f_azimuth fft) < uint esz" "length (f_data fft) < 2 ^ 16"
    "\<And>px. length px = 400 * 400 \<Longrightarrow> \<exists>f. polar_frame lib 400 (gray_image lib 400 400 px) = Some f"
  shows "\<exists>n' acts. video_fft_data_callback lib (fft_message_of fft) n = Some (n', acts) \<and> video_ok esz n'"
proof (cases "config_received n")
  case True
  let ?az = "uint (f_azimuth fft)" and ?w = "vn_azimuth_samples n"
  have ok: "length (radar_image n) = 400 * 400" "0 \<le> ?w" "?w < 2 ^ 16" "vn_encoder_size n = uint esz"
    using assms(1) True by (simp_all add: video_ok_def)
  obtain k where k: "bearing_of (n\<lparr>vn_azimuth := ?az\<rparr>) = Some k" "0 \<le> k" "k \<le> ?az * ?w div uint esz"
    using bearing_exact [of ?az "uint esz" ?w] assms(2) ok(2-4) u16_range [of esz] by (auto simp: bearing_of_def)
  have e: "0 < uint esz" using assms(2) u16_range(1) [of "f_azimuth fft"] by linarith
  have "?az * ?w \<le> uint esz * ?w" using assms(2) ok(2) by (intro mult_right_mono) simp_all
  from zdiv_mono1 [OF this e] have "?az * ?w div uint esz \<le> ?w" using e by simp
  then have "k < 5000000" using k(3) ok(3) by simp
  let ?img = "with_bins (f_data fft) k (min (length (f_data fft)) (nat ?w)) (radar_image n)"
  obtain f where f: "polar_frame lib 400 (gray_image lib 400 400 ?img) = Some f" using assms(4) [of ?img] ok(1) by auto
  from fft_stored [OF True ok(1) assms(3) k(1,2) \<open>k < 5000000\<close> ok(2,3) refl refl f] show ?thesis
    using ok True by (simp add: video_ok_def)
qed (use assms(1) in \<open>simp add: video_fft_data_callback_def\<close>)

lemma callback_defined:
  assumes "input_fits esz m" "video_ok esz n"
    "\<And>px. length px = 400 * 400 \<Longrightarrow> \<exists>f. polar_frame lib 400 (gray_image lib 400 400 px) = Some f"
  shows "\<exists>n' acts. camera_video_callback lib m n = Some (n', acts) \<and> video_ok esz n'"
proof (cases m)
  case (Radar_configuration_input c)
  then show ?thesis using configuration_ok [OF assms(2), of c] assms(1) by (metis camera_video_callback.simps(1)
      input_fits.simps(1) prod.collapse)
next
  case (Fft_input d)
  then show ?thesis using fft_ok [OF assms(2) _ _ assms(3)] assms(1) by auto
qed (use assms(1,2) in \<open>auto simp: camera_configuration_data_callback_def camera_image_callback_def video_ok_def Let_def
      peek_at_def to_int32_u32 nat_le_iff\<close>)

lemma video_run_defined:
  assumes "list_all (input_fits esz) ms" "video_ok esz n"
    "\<And>px. length px = 400 * 400 \<Longrightarrow> \<exists>f. polar_frame lib 400 (gray_image lib 400 400 px) = Some f"
  shows "\<exists>n' acts. video_run lib ms n = Some (n', acts) \<and> video_ok esz n'"
  using assms(1,2)
proof (induction ms arbitrary: n)
  case (Cons m ms)
  from callback_defined [OF _ Cons.prems(2) assms(3), of m] Cons.prems(1) obtain n1 acts1
    where 1: "camera_video_callback lib m n = Some (n1, acts1)" "video_ok esz n1" by auto
  then show ?case using Cons.IH [of n1] Cons.prems(1) by auto
qed simp

lemma configuration_flags [simp]:
  "\<not> config_received new_camera_video_node" "\<not> camera_config_received new_camera_video_node"
  "config_received (store_configuration v n) = config_received n"
  "camera_config_received (store_configuration v k) = camera_config_received k"
  by (simp_all add: store_configuration_def when_present_def Let_def new_camera_video_node_def
      new_radar_video_node_def new_video_node_def radar_video_node.defs video_node.defs camera_video_node.defs
      split: option.split)

text \<open>
  C37: whatever messages the node of radar and camera is given, in whatever order and number, no
  callback reads or writes outside an array or makes an undefined cast, and the image keeps its
  160,000 pixels, also when an azimuth has more bins, or a rotation more azimuths, than the image
  has room for.  The messages are radar configurations with one encoder size, FFT messages as the
  publisher makes them with azimuths below that size, camera configurations and complete camera
  images; OpenCV can make its frame of every image of this size.
\<close>

theorem video_node_in_bounds:
  assumes "\<forall>m \<in> set ms. case m of
      Radar_configuration_input c \<Rightarrow> v_encoder_size (configuration_data_callback c) = Some esz
    | Fft_input d \<Rightarrow> \<exists>fft. d = fft_message_of fft \<and> uint (f_azimuth fft) < uint esz \<and> length (f_data fft) < 2 ^ 16
    | Camera_configuration_input c \<Rightarrow> True
    | Camera_image_input i \<Rightarrow> uint (image_height i) * uint (image_width i) * 3 \<le> int (length (image_data i)) \<and>
        uint (image_height i) < 2 ^ 31 \<and> uint (image_width i) < 2 ^ 31"
    and "\<And>px. length px = 400 * 400 \<Longrightarrow> \<exists>f. polar_frame lib 400 (gray_image lib 400 400 px) = Some f"
  shows "\<exists>n acts. video_run lib ms new_camera_video_node = Some (n, acts) \<and> length (radar_image n) = 400 * 400"
proof -
  have "input_fits esz m" if "m \<in> set ms" for m
    using assms(1) that by (cases m) fastforce+
  then have "list_all (input_fits esz) ms" by (simp add: list_all_iff)
  moreover have "video_ok esz new_camera_video_node"
    by (simp add: video_ok_def new_camera_video_node_def new_radar_video_node_def new_video_node_def
        radar_video_node.defs video_node.defs camera_video_node.defs blank_pixels_def)
  ultimately show ?thesis using video_run_defined [of esz ms new_camera_video_node lib, OF _ _ assms(2)]
    by (auto simp: video_ok_def)
qed

definition sample_configuration_message :: radar_configuration_message where
  "sample_configuration_message = \<lparr>m_azimuth_samples = [1, 144], m_encoder_size = [21, 224], m_bin_size = [],
     m_range_in_bins = [], m_expected_rotation_rate = []\<rparr>"

theorem video_node_in_bounds_witness:
  "\<exists>n acts. video_run pixel_lib [Radar_configuration_input sample_configuration_message,
       Fft_input (fft_message_of (sample_video_fft\<lparr>f_azimuth := 5599, f_data := replicate 500 7\<rparr>))] new_camera_video_node = Some (n, acts) \<and>
     length (radar_image n) = 400 * 400"
proof -
  have "v_encoder_size (configuration_data_callback sample_configuration_message) = Some 5600"
    by (simp add: sample_configuration_message_def configuration_data_callback_def from_vector_to16_def
        to_uint16_host_def ntohs_def load16_def mem16_def) code_simp
  then show ?thesis
    using video_node_in_bounds [of "[Radar_configuration_input sample_configuration_message,
       Fft_input (fft_message_of (sample_video_fft\<lparr>f_azimuth := 5599, f_data := replicate 500 7\<rparr>))]" 5600 pixel_lib, OF _ pixel_frames]
    by (fastforce intro: exI [of _ "sample_video_fft\<lparr>f_azimuth := 5599, f_data := replicate 500 7\<rparr>"])
qed

section \<open>The camera's video\<close>

fun action_path :: "'i video_action \<Rightarrow> string" where
  "action_path (Open_video path fps dims) = path"
| "action_path (Write_video path f) = path"

lemma no_camera_action:
  assumes "camera_video_callback lib m n = Some (n', acts)" "config_received n" "\<not> camera_config_received n"
  shows "config_received n' \<and> \<not> camera_config_received n' \<and> (\<forall>a \<in> set acts. action_path a = radar_video)"
  using assms
  by (cases m) (auto simp: video_configuration_data_callback_def video_fft_data_callback_def when_present_def
      camera_configuration_data_callback_def camera_image_callback_def Let_def split: if_splits option.splits bind_splits)

lemma no_camera_run:
  "video_run lib ms n = Some (n', acts) \<Longrightarrow> config_received n \<Longrightarrow> \<not> camera_config_received n \<Longrightarrow>
    \<forall>a \<in> set acts. action_path a = radar_video"
  by (induction ms arbitrary: n acts) (fastforce split: bind_splits dest: no_camera_action)+

text \<open>
  The callback for the camera's configuration tests the flag of the radar's.  Once the radar's
  configuration has been received, no video of the camera is opened and no frame of it is written,
  whatever messages follow; when the camera's configuration comes first its frames are written.
\<close>

theorem camera_video_lost:
  assumes "video_run (lib :: 'i image_lib) (Radar_configuration_input c # ms) new_camera_video_node = Some (n, acts)"
  shows "camera_video \<notin> set (map action_path acts)"
proof -
  obtain n1 acts1 acts2 where step: "video_configuration_data_callback c new_camera_video_node = (n1, acts1)"
      and acts: "acts = acts1 @ acts2" and run: "video_run lib ms n1 = Some (n, acts2)"
    using assms by (cases "video_configuration_data_callback c new_camera_video_node :: _ \<times> 'i video_action list")
      (auto split: bind_splits)
  then have "config_received n1 \<and> \<not> camera_config_received n1 \<and> (\<forall>a \<in> set acts1. action_path a = radar_video)"
    by (auto simp: video_configuration_data_callback_def open_radar_video_def Let_def)
  then show ?thesis
    using acts no_camera_run [OF run] by (auto simp: radar_video_def camera_video_def)
qed

theorem camera_video_lost_witness:
  "\<exists>n acts. video_run pixel_lib [Radar_configuration_input sample_configuration_message,
      Camera_configuration_input \<lparr>cc_width = 1, cc_height = 1, cc_channels = 3, cc_fps = 25\<rparr>,
      Camera_image_input (\<lparr>image_header = \<lparr>stamp_sec = 0, stamp_nanosec = 0, frame_id = []\<rparr>, image_height = 1,
        image_width = 1, image_encoding = [], image_is_bigendian = False, image_step = 3, image_data = [1, 2, 3]\<rparr>)]
      new_camera_video_node = Some (n, acts) \<and>
    camera_video \<notin> set (map action_path acts)"
  (is "\<exists>n acts. video_run pixel_lib (_ # ?ms) _ = _ \<and> _")
proof -
  obtain n acts where run: "video_run pixel_lib (Radar_configuration_input sample_configuration_message # ?ms)
      new_camera_video_node = Some (n, acts)"
    by (simp add: video_configuration_data_callback_def Let_def camera_configuration_data_callback_def
        camera_image_callback_def)
  then show ?thesis using camera_video_lost [OF run] by blast
qed

lemma camera_first_is_written:
  assumes "\<not> config_received n" "uint (image_height msg) * uint (image_width msg) * 3 \<le> int (length (image_data msg))"
    "uint (image_height msg) < 2 ^ 31" "uint (image_width msg) < 2 ^ 31"
  shows "\<exists>n' f. video_run lib [Camera_configuration_input c, Camera_image_input msg] n =
    Some (n', [Open_video camera_video (uint (cc_fps c)) (to_int32 (uint (cc_width c)), to_int32 (uint (cc_height c))),
      Write_video camera_video f])"
  using assms
  by (auto simp: camera_configuration_data_callback_def camera_image_callback_def Let_def peek_at_def to_int32_u32
      nat_le_iff)

end
