(* ===== verification/Camera_Nodes.thy ===== *)
theory Camera_Nodes
  imports Video_Subscribers Colossus_Publisher
begin

text \<open>
  The camera nodes of \<open>ros2/src/camera_ros/src\<close>: \<open>camera_publisher\<close>, which publishes the frames of a
  camera and, every four frames, their configuration, \<open>camera_subscriber_to_video\<close>, which writes them
  to a video, and the loop that drains the buffer of the camera.  The capture itself and the clock
  are parameters.
\<close>

section \<open>The publisher\<close>

record camera_source =
  source_url :: string
  source_sent :: bool
  source_frame_count :: int

definition new_camera_source :: "ros_params \<Rightarrow> camera_source acted" where
  "new_camera_source ps =
     (\<lparr>source_url = string_param ps ''camera_url'', source_sent = False, source_frame_count = 0\<rparr>,
      [Declare_parameter ''camera_url'' (Ros_string ''''),
       Create_publisher ''camera_data/camera_configuration_data'' 1, Create_publisher ''camera_data/camera_image_data'' 25])"

definition camera_publish_count :: int where
  "camera_publish_count = 4"

definition source_configuration :: "camera_frame \<Rightarrow> int \<Rightarrow> camera_configuration_message" where
  "source_configuration img fps =
     \<lparr>cc_width = of_nat (frame_cols img), cc_height = of_nat (frame_rows img), cc_channels = of_nat (frame_channels img),
      cc_fps = of_int fps\<rparr>"

definition source_image_handler :: "u32 \<Rightarrow> u32 \<Rightarrow> camera_frame \<Rightarrow> int \<Rightarrow> camera_source \<Rightarrow> camera_source acted option" where
  "source_image_handler now_sec now_nanosec img fps n = do {
     vector_buffer \<leftarrow> peek_at 0 (frame_cols img * frame_rows img * 3) (frame_memory img);
     let (n1, acts) = (if \<not> source_sent n \<or> source_frame_count n \<ge> camera_publish_count
       then (n\<lparr>source_sent := True, source_frame_count := 0\<rparr>, [Publish_camera_configuration (source_configuration img fps)])
       else (n, []));
     Some (n1\<lparr>source_frame_count := source_frame_count n1 + 1\<rparr>, acts @ [Publish_camera_image
       \<lparr>image_header = \<lparr>stamp_sec = now_sec, stamp_nanosec = now_nanosec, frame_id = ''camera_image''\<rparr>,
        image_height = of_nat (frame_rows img), image_width = of_nat (frame_cols img), image_encoding = ''8UC3'',
        image_is_bigendian = False, image_step = of_nat (frame_step img), image_data = vector_buffer\<rparr>]) }"

text \<open>
  The frames that arrive, each with the seconds its capture took: frames are dropped until a capture
  is slow, which means that the buffer of the camera was empty.  Without a slow one the loop goes on.
\<close>

fun latest_frame :: "float64 \<Rightarrow> (float64 \<times> 'f) list \<Rightarrow> ('f \<times> (float64 \<times> 'f) list) option" where
  "latest_frame fps [] = None"
| "latest_frame fps ((t, f) # rest) =
     (if f64_less t (f64_div (f64_of_int 1) (f64_add fps (f64_of_int 1))) then latest_frame fps rest else Some (f, rest))"

section \<open>The subscriber\<close>

definition video_configuration :: "camera_configuration_message \<Rightarrow> bool \<Rightarrow> bool \<times> 'i video_action list" where
  "video_configuration msg received =
     (if received then (received, [])
      else (True, [Open_video camera_video (uint (cc_fps msg)) (to_int32 (uint (cc_width msg)), to_int32 (uint (cc_height msg)))]))"

definition video_image :: "'i image_lib \<Rightarrow> ros_image \<Rightarrow> bool \<Rightarrow> (bool \<times> 'i video_action list) option" where
  "video_image lib msg received =
     (if \<not> received then Some (received, [])
      else (let rows = to_int32 (uint (image_height msg)); cols = to_int32 (uint (image_width msg)) in
        if rows < 0 \<or> cols < 0 then None
        else do {
          bytes \<leftarrow> peek_at 0 (nat (rows * cols * 3)) (image_data msg);
          Some (received, [Write_video camera_video (colour_image lib rows cols bytes)]) }))"

section \<open>From the camera to the video\<close>

text \<open>The handler for a list of frames, each with the time of its capture.\<close>

fun source_run :: "(u32 \<times> u32 \<times> camera_frame) list \<Rightarrow> int \<Rightarrow> camera_source \<Rightarrow> camera_source acted option" where
  "source_run [] fps n = Some (n, [])"
| "source_run ((s, ns, f) # fs) fps n = do {
     (n1, acts1) \<leftarrow> source_image_handler s ns f fps n;
     (n2, acts2) \<leftarrow> source_run fs fps n1;
     Some (n2, acts1 @ acts2) }"

text \<open>
  The callbacks of the subscriber, for messages in the order in which it is given them.  Nothing is
  assumed of how that order and the selection come about from what is published: the two topics are
  separate, with queues of their own.
\<close>

datatype camera_delivery = Delivered_configuration camera_configuration_message | Delivered_image ros_image

fun camera_deliveries :: "'i image_lib \<Rightarrow> camera_delivery list \<Rightarrow> bool \<Rightarrow> (bool \<times> 'i video_action list) option" where
  "camera_deliveries lib [] received = Some (received, [])"
| "camera_deliveries lib (d # ds) received = do {
     (b1, acts1) \<leftarrow> (case d of
        Delivered_configuration m \<Rightarrow> Some (video_configuration m received)
      | Delivered_image m \<Rightarrow> video_image lib m received);
     (b2, acts2) \<leftarrow> camera_deliveries lib ds b1;
     Some (b2, acts1 @ acts2) }"

definition colour_frame :: "camera_frame \<Rightarrow> bool" where
  "colour_frame f \<longleftrightarrow> frame_channels f = 3 \<and> frame_cols f < 2 ^ 31 \<and> frame_rows f < 2 ^ 31 \<and>
     length (frame_memory f) = frame_cols f * frame_rows f * 3"

text \<open>The images that were published, those that were delivered, and those that the subscriber can read.\<close>

definition published_images :: "ros_action list \<Rightarrow> ros_image list" where
  "published_images acts = concat (map (\<lambda>a. case a of Publish_camera_image m \<Rightarrow> [m] | _ \<Rightarrow> []) acts)"

definition delivered_images :: "camera_delivery list \<Rightarrow> ros_image list" where
  "delivered_images ds = concat (map (\<lambda>d. case d of Delivered_image m \<Rightarrow> [m] | _ \<Rightarrow> []) ds)"

definition complete_image :: "ros_image \<Rightarrow> bool" where
  "complete_image m \<longleftrightarrow> uint (image_height m) < 2 ^ 31 \<and> uint (image_width m) < 2 ^ 31 \<and>
     int (length (image_data m)) = uint (image_height m) * uint (image_width m) * 3"

lemma frame_size [simp]: "n < 2 ^ 31 \<Longrightarrow> uint (of_nat n :: u32) = int n"
  by (simp add: unsigned_of_nat take_bit_nat_eq_self)

lemma complete_image_written:
  assumes "complete_image m"
  shows "video_image lib m True = Some (True,
    [Write_video camera_video (colour_image lib (uint (image_height m)) (uint (image_width m)) (image_data m))])"
proof -
  have "nat (uint (image_height m) * uint (image_width m) * 3) = length (image_data m)"
    using assms by (simp add: complete_image_def nat_eq_iff)
  then show ?thesis
    using assms by (simp add: video_image_def complete_image_def to_int32_u32 peek_at_def Let_def not_less)
qed

lemma deliveries_written:
  "list_all complete_image (delivered_images ds) \<Longrightarrow> camera_deliveries lib ds True = Some (True,
    map (\<lambda>m. Write_video camera_video (colour_image lib (uint (image_height m)) (uint (image_width m)) (image_data m)))
      (delivered_images ds))"
  by (induction ds) (auto simp: delivered_images_def video_configuration_def complete_image_written split: camera_delivery.split)

lemma images_dropped: "camera_deliveries lib (map Delivered_image ms @ ds) False = camera_deliveries lib ds False"
  by (induction ms) (auto simp: video_image_def split: bind_splits)

lemma delivered_append: "delivered_images (ds @ es) = delivered_images ds @ delivered_images es"
  by (simp add: delivered_images_def)

lemma source_run_published:
  assumes "list_all (\<lambda>(s, ns, f). colour_frame f) fs"
  shows "\<exists>n1 acts. source_run fs fps n = Some (n1, acts) \<and>
    published_images acts = map (\<lambda>(s, ns, f).
      \<lparr>image_header = \<lparr>stamp_sec = s, stamp_nanosec = ns, frame_id = ''camera_image''\<rparr>,
       image_height = of_nat (frame_rows f), image_width = of_nat (frame_cols f), image_encoding = ''8UC3'',
       image_is_bigendian = False, image_step = of_nat (frame_step f), image_data = frame_memory f\<rparr>) fs \<and>
    (\<forall>c. Publish_camera_configuration c \<in> set acts \<longrightarrow> (\<exists>(s, ns, f) \<in> set fs. c = source_configuration f fps))"
  using assms
proof (induction fs arbitrary: n)
  case (Cons x fs)
  obtain s ns f where x: "x = (s, ns, f)" by (cases x)
  have "frame_cols f * frame_rows f * 3 = length (frame_memory f)" using Cons.prems by (simp add: x colour_frame_def)
  then obtain n1 acts1 where 1: "source_image_handler s ns f fps n = Some (n1, acts1 @ [Publish_camera_image
       \<lparr>image_header = \<lparr>stamp_sec = s, stamp_nanosec = ns, frame_id = ''camera_image''\<rparr>,
        image_height = of_nat (frame_rows f), image_width = of_nat (frame_cols f), image_encoding = ''8UC3'',
        image_is_bigendian = False, image_step = of_nat (frame_step f), image_data = frame_memory f\<rparr>])"
      "acts1 = [] \<or> acts1 = [Publish_camera_configuration (source_configuration f fps)]"
    by (cases "source_sent n \<longrightarrow> camera_publish_count \<le> source_frame_count n")
      (simp_all add: source_image_handler_def peek_at_def Let_def)
  then show ?case using Cons.IH [of n1] Cons.prems by (fastforce simp: x published_images_def)
qed (simp add: published_images_def)

lemma delivered_complete:
  assumes "list_all (\<lambda>(s, ns, f). colour_frame f) fs"
    "published_images acts = map (\<lambda>(s, ns, f).
      \<lparr>image_header = \<lparr>stamp_sec = s, stamp_nanosec = ns, frame_id = ''camera_image''\<rparr>,
       image_height = of_nat (frame_rows f), image_width = of_nat (frame_cols f), image_encoding = ''8UC3'',
       image_is_bigendian = False, image_step = of_nat (frame_step f), image_data = frame_memory f\<rparr>) fs"
    "\<forall>m. Delivered_image m \<in> set ds \<longrightarrow> Publish_camera_image m \<in> set acts"
  shows "list_all complete_image (delivered_images ds)"
proof -
  have "complete_image m" if "m \<in> set (published_images acts)" for m
    using that assms(1) by (fastforce simp: assms(2) list_all_iff complete_image_def colour_frame_def)
  moreover have "m \<in> set (published_images acts)" if "Publish_camera_image m \<in> set acts" for m
    using that by (force simp: published_images_def)
  moreover have "Delivered_image m \<in> set ds" if "m \<in> set (delivered_images ds)" for m
    using that by (auto simp: delivered_images_def split: camera_delivery.splits)
  ultimately show ?thesis using assms(3) by (auto simp: list_all_iff)
qed

text \<open>
  C23: what a camera's video holds.  The publisher sends every frame in one image message, in order,
  with its size and its bytes.  Of its messages let any be delivered to the subscriber, in any
  order and any number: the images before the first configuration are dropped and, when there is
  no configuration, no video is opened; with the first configuration the video is opened, once,
  with the size of a frame of the camera and its rate; and from then on every image that is
  delivered is written, in the order of delivery, with its pixels as they were.
\<close>

theorem camera_video_of_deliveries:
  assumes "list_all (\<lambda>(s, ns, f). colour_frame f) fs"
  shows "\<exists>n1 acts. source_run fs fps n = Some (n1, acts) \<and>
    published_images acts = map (\<lambda>(s, ns, f).
      \<lparr>image_header = \<lparr>stamp_sec = s, stamp_nanosec = ns, frame_id = ''camera_image''\<rparr>,
       image_height = of_nat (frame_rows f), image_width = of_nat (frame_cols f), image_encoding = ''8UC3'',
       image_is_bigendian = False, image_step = of_nat (frame_step f), image_data = frame_memory f\<rparr>) fs \<and>
    (\<forall>early. camera_deliveries lib (map Delivered_image early) False = Some (False, [])) \<and>
    (\<forall>early c ds. Publish_camera_configuration c \<in> set acts \<and>
        (\<forall>m. Delivered_image m \<in> set ds \<longrightarrow> Publish_camera_image m \<in> set acts) \<longrightarrow>
      (\<exists>(s, ns, f) \<in> set fs. camera_deliveries lib (map Delivered_image early @ Delivered_configuration c # ds) False =
        Some (True, Open_video camera_video (uint (of_int fps :: u32)) (int (frame_cols f), int (frame_rows f)) #
          map (\<lambda>m. Write_video camera_video (colour_image lib (uint (image_height m)) (uint (image_width m)) (image_data m)))
            (delivered_images ds))))"
proof -
  obtain n1 acts where 1: "source_run fs fps n = Some (n1, acts)"
    "published_images acts = map (\<lambda>(s, ns, f).
      \<lparr>image_header = \<lparr>stamp_sec = s, stamp_nanosec = ns, frame_id = ''camera_image''\<rparr>,
       image_height = of_nat (frame_rows f), image_width = of_nat (frame_cols f), image_encoding = ''8UC3'',
       image_is_bigendian = False, image_step = of_nat (frame_step f), image_data = frame_memory f\<rparr>) fs"
    "\<And>c. Publish_camera_configuration c \<in> set acts \<Longrightarrow> \<exists>(s, ns, f) \<in> set fs. c = source_configuration f fps"
    using source_run_published [OF assms, of fps n] by blast
  have "\<exists>(s, ns, f) \<in> set fs. camera_deliveries lib (map Delivered_image early @ Delivered_configuration c # ds) False =
      Some (True, Open_video camera_video (uint (of_int fps :: u32)) (int (frame_cols f), int (frame_rows f)) #
        map (\<lambda>m. Write_video camera_video (colour_image lib (uint (image_height m)) (uint (image_width m)) (image_data m)))
          (delivered_images ds))"
    if "Publish_camera_configuration c \<in> set acts"
      "\<forall>m. Delivered_image m \<in> set ds \<longrightarrow> Publish_camera_image m \<in> set acts" for early c ds
  proof -
    from 1(3) [OF that(1)] obtain s ns f where f: "(s, ns, f) \<in> set fs" "c = source_configuration f fps" by auto
    have "frame_cols f < 2 ^ 31" "frame_rows f < 2 ^ 31"
      using assms f(1) by (auto simp: list_all_iff colour_frame_def)
    then show ?thesis
      using f(2) deliveries_written [OF delivered_complete [OF assms 1(2) that(2)], of lib]
      by (intro bexI [OF _ f(1)]) (simp add: images_dropped video_configuration_def source_configuration_def to_int32_small)
  qed
  then show ?thesis using 1(1,2) images_dropped [of lib _ "[]"] by auto
qed

text \<open>How often the configuration is published: before the first frame and every fourth after it.\<close>

definition camera_configurations :: "ros_action list \<Rightarrow> nat" where
  "camera_configurations acts = length (filter (\<lambda>a. case a of Publish_camera_configuration m \<Rightarrow> True | _ \<Rightarrow> False) acts)"

lemma source_run_configurations:
  assumes "source_run fs fps n = Some (n1, acts)" "source_sent n" "1 \<le> source_frame_count n" "source_frame_count n \<le> 4"
  shows "camera_configurations acts = (nat (source_frame_count n) + length fs - 1) div 4"
  using assms
proof (induction fs arbitrary: n acts)
  case Nil
  then show ?case by (auto simp: camera_configurations_def)
next
  case (Cons x fs)
  obtain s ns f where x: "x = (s, ns, f)" by (cases x)
  from Cons.prems(1) obtain n2 acts2 acts3 where
    1: "source_image_handler s ns f fps n = Some (n2, acts2)" "source_run fs fps n2 = Some (n1, acts3)" "acts = acts2 @ acts3"
    by (auto simp: x split: Option.bind_splits)
  have 2: "source_sent n2" "source_frame_count n2 = (if source_frame_count n = 4 then 1 else source_frame_count n + 1)"
    "camera_configurations acts2 = (if source_frame_count n = 4 then 1 else 0)"
    using 1(1) Cons.prems(2-4)
    by (auto simp: source_image_handler_def camera_publish_count_def camera_configurations_def Let_def split: Option.bind_splits if_splits)
  have "camera_configurations acts3 = (nat (source_frame_count n2) + length fs - 1) div 4"
    using Cons.IH [OF 1(2) 2(1)] 2(2) Cons.prems(3,4) by (simp split: if_splits)
  then show ?case
    using 2 Cons.prems(3,4) by (auto simp: 1(3) camera_configurations_def nat_add_distrib split: if_splits)
qed

theorem camera_configuration_cadence:
  assumes "source_run (x # fs) fps n = Some (n1, acts)" "\<not> source_sent n"
  shows "camera_configurations acts = 1 + length fs div 4"
proof -
  obtain s ns f where x: "x = (s, ns, f)" by (cases x)
  from assms(1) obtain n2 acts2 acts3 where
    1: "source_image_handler s ns f fps n = Some (n2, acts2)" "source_run fs fps n2 = Some (n1, acts3)" "acts = acts2 @ acts3"
    by (auto simp: x split: Option.bind_splits)
  have "source_sent n2" "source_frame_count n2 = 1" "camera_configurations acts2 = 1"
    using 1(1) assms(2)
    by (auto simp: source_image_handler_def camera_publish_count_def camera_configurations_def Let_def split: Option.bind_splits if_splits)
  then show ?thesis
    using source_run_configurations [OF 1(2)] by (simp add: 1(3) camera_configurations_def)
qed

definition small_frame :: camera_frame where
  "small_frame = \<lparr>frame_cols = 1, frame_rows = 2, frame_channels = 3, frame_step = 3, frame_memory = [1, 2, 3, 4, 5, 6]\<rparr>"

definition idle_source :: camera_source where
  "idle_source = \<lparr>source_url = [], source_sent = False, source_frame_count = 0\<rparr>"

definition list_images :: "byte list image_lib" where
  "list_images = \<lparr>gray_image = (\<lambda>_ _ bs. bs), linear_polar_inverse = (\<lambda>i _ _. i), normalise_min_max = id,
     rotate_90_counterclockwise = id, merge_channels = (\<lambda>is. Some (concat is)), filled_circle = (\<lambda>_ _ i. i),
     colour_image = (\<lambda>_ _ bs. bs)\<rparr>"

theorem camera_video_of_deliveries_witness:
  "\<exists>n1 acts. source_run [(0, 0, small_frame), (1, 0, small_frame)] 25 idle_source = Some (n1, acts) \<and>
    map image_data (published_images acts) = [[1, 2, 3, 4, 5, 6], [1, 2, 3, 4, 5, 6]]"
  using camera_video_of_deliveries [of "[(0, 0, small_frame), (1, 0, small_frame)]" 25 idle_source list_images]
  by (auto simp: colour_frame_def small_frame_def)

end
