(* ===== verification/Peak_Tests.thy ===== *)
theory Peak_Tests
  imports Peak_Finder Bearing
begin

text \<open>
  What the fit of \<open>peak_finder.cpp\<close> gives in \<open>double\<close> for the window of five bins, the smallest it is used with, when
  the bins are symmetric about the peak; and the unit tests of \<open>cpp_17/unittests/given_a_peak_finder.cpp\<close>, whose
  peaks are of this kind, run on the model of the finder.
\<close>

section \<open>The fit of five bins\<close>

definition zeros5 :: "fp list" where
  "zeros5 = [Fin 0, Fin 0, Fin 0, Fin 0, Fin 0]"

definition places5 :: "fp list" where
  "places5 = [Fin (- 2), Fin (- 1), Fin 0, Fin 1, Fin 2]"

definition squares5 :: "fp list" where
  "squares5 = [Fin 4, Fin 1, Fin 0, Fin 1, Fin 4]"

lemmas five_defs = zeros5_def places5_def squares5_def

lemma sums5:
  "scalar_sum double_arith places5 (Fin 0) = Fin 0" "scalar_square double_arith places5 (Fin 0) = Fin 10"
  "vector_square double_arith places5 zeros5 = squares5"
  "scalar_sum double_arith (vector_cube double_arith places5 zeros5) (Fin 0) = Fin 0"
  "scalar_sum double_arith (vector_multiply double_arith squares5 squares5 zeros5) (Fin 0) = Fin 34"
  "replicate 5 (Fin 0) = zeros5" "length places5 = 5"
  by (simp_all add: five_defs double_arith_def vector_cube_def vector_square_def vector_multiply_def exact_eval numeral_eq_Suc)

lemma const_arith:
  "ar_int double_arith 0 = Fin 0" "ar_int double_arith 2 = Fin 2" "ar_int double_arith 5 = Fin 5"
  "fp_div b64 (Fin 5) (Fin 10) = Fin (1 / 2)" "fp_div b64 (Fin 0) (Fin 10) = Fin 0"
  "fp_sub b64 (Fin 0) (fp_mul b64 (Fin (1 / 2)) (Fin 0)) = Fin 0"
  "fp_sub b64 (Fin 10) (fp_mul b64 (Fin (1 / 2)) (Fin 34)) = Fin (- 7)"
  "fp_sub b64 (Fin 0) (fp_mul b64 (Fin 0) (Fin 10)) = Fin 0"
  "fp_sub b64 (Fin 10) (fp_mul b64 (Fin 0) (Fin 0)) = Fin 10"
  "fp_sub b64 (Fin 0) (fp_mul b64 (Fin 0) (Fin 34)) = Fin 0"
  "fp_sub b64 (Fin (- 7)) (fp_mul b64 (Fin 0) (Fin 0)) = Fin (- 7)"
  by (simp_all add: exact_eval double_arith_def)

text \<open>The fit of five bins in terms of the three sums that involve them.\<close>

definition sum_y :: "fp list \<Rightarrow> fp" where
  "sum_y y = scalar_sum double_arith y (Fin 0)"

definition sum_xy :: "fp list \<Rightarrow> fp" where
  "sum_xy y = scalar_sum double_arith (vector_multiply double_arith places5 y zeros5) (Fin 0)"

definition sum_x2y :: "fp list \<Rightarrow> fp" where
  "sum_x2y y = scalar_sum double_arith (vector_multiply double_arith squares5 y zeros5) (Fin 0)"

definition fit_b1 :: "fp list \<Rightarrow> fp" where
  "fit_b1 y = fp_sub b64 (sum_xy y) (fp_mul b64 (Fin 0) (sum_x2y y))"

definition fit_b2 :: "fp list \<Rightarrow> fp" where
  "fit_b2 y = fp_div b64 (fp_sub b64 (fp_sub b64 (sum_y y) (fp_mul b64 (Fin (1 / 2)) (sum_x2y y)))
     (fp_mul b64 (Fin 0) (fit_b1 y))) (Fin (- 7))"

lemma fit_five:
  "fit_vertex double_arith places5 y =
    fp_div b64 (fp_neg (fp_div b64 (fp_sub b64 (fit_b1 y) (fp_mul b64 (Fin 0) (fit_b2 y))) (Fin 10))) (fp_mul b64 (Fin 2) (fit_b2 y))"
proof -
  have ops: "ar_sub double_arith = fp_sub b64" "ar_mul double_arith = fp_mul b64" "ar_div double_arith = fp_div b64"
    "ar_neg double_arith = fp_neg" by (simp_all add: double_arith_def)
  show ?thesis
    by (simp add: fit_vertex_def Let_def sums5 const_arith eliminate_def ops fit_b1_def fit_b2_def
      sum_y_def sum_xy_def sum_x2y_def)
qed

text \<open>Integers, also as negative zeros, whose operations are exact.\<close>

definition int_val :: "fp \<Rightarrow> int \<Rightarrow> bool" where
  "int_val x k \<longleftrightarrow> has_val x (of_int k)"

lemma rnd_int: "\<bar>k\<bar> \<le> 100000 \<Longrightarrow> rnd b64 (of_int k) = of_int k"
  using double.of_int_exact [of k] by simp

lemma small_int: "\<bar>k\<bar> \<le> 100000 \<Longrightarrow> \<bar>of_int k :: rat\<bar> < 2 powi (bias b64 + 1)"
proof -
  assume "\<bar>k\<bar> \<le> 100000"
  then have "\<bar>of_int k :: rat\<bar> \<le> of_int 100000" by (simp only: of_int_abs [symmetric] of_int_le_iff)
  then show ?thesis by (intro b64_limit) simp
qed

lemma int_val_add: "int_val x k \<Longrightarrow> int_val y l \<Longrightarrow> \<bar>k + l\<bar> \<le> 100000 \<Longrightarrow> int_val (fp_add b64 x y) (k + l)"
  using has_val_add [of x "of_int k" y "of_int l" b64] rnd_int [of "k + l"] small_int [of "k + l"] by (simp add: int_val_def)

lemma int_val_sub: "int_val x k \<Longrightarrow> int_val y l \<Longrightarrow> \<bar>k - l\<bar> \<le> 100000 \<Longrightarrow> int_val (fp_sub b64 x y) (k - l)"
  using has_val_sub [of x "of_int k" y "of_int l" b64] rnd_int [of "k - l"] small_int [of "k - l"] by (simp add: int_val_def)

lemma int_val_mul: "int_val x k \<Longrightarrow> int_val y l \<Longrightarrow> \<bar>k * l\<bar> \<le> 100000 \<Longrightarrow> int_val (fp_mul b64 x y) (k * l)"
  using has_val_product [of x "of_int k" y "of_int l" b64] rnd_int [of "k * l"] small_int [of "k * l"] by (simp add: int_val_def)

lemma int_val_half: "int_val y (2 * l) \<Longrightarrow> \<bar>l\<bar> \<le> 100000 \<Longrightarrow> int_val (fp_mul b64 (Fin (1 / 2)) y) l"
  using has_val_product [of "Fin (1 / 2)" "1 / 2" y "of_int (2 * l)" b64] rnd_int [of l] small_int [of l] by (simp add: int_val_def)

lemma int_val_Fin: "q = of_int k \<Longrightarrow> int_val (Fin q) k"
  by (simp add: int_val_def)

lemma int_val_eq: "int_val x k \<Longrightarrow> k = l \<Longrightarrow> int_val x l"
  by simp

lemma byte_val: "int_val (Fin (of_int (uint (a :: byte)))) (uint a)"
  by (simp add: int_val_def)

lemma five_sums:
  "scalar_sum double_arith [a, b, c, d, e] (Fin 0) = fp_add b64 (fp_add b64 (fp_add b64 (fp_add b64 (fp_add b64 (Fin 0) a) b) c) d) e"
  "vector_multiply double_arith [x1, x2, x3, x4, x5] [a, b, c, d, e] zeros5 =
    [fp_add b64 (Fin 0) (fp_mul b64 x1 a), fp_add b64 (Fin 0) (fp_mul b64 x2 b), fp_add b64 (Fin 0) (fp_mul b64 x3 c),
     fp_add b64 (Fin 0) (fp_mul b64 x4 d), fp_add b64 (Fin 0) (fp_mul b64 x5 e)]"
  by (simp_all add: double_arith_def vector_multiply_def zeros5_def)

lemma int_val_five:
  assumes "int_val a ka" "int_val b kb" "int_val c kc" "int_val d kd" "int_val e ke"
    "\<bar>ka\<bar> \<le> 10000" "\<bar>kb\<bar> \<le> 10000" "\<bar>kc\<bar> \<le> 10000" "\<bar>kd\<bar> \<le> 10000" "\<bar>ke\<bar> \<le> 10000"
  shows "int_val (scalar_sum double_arith [a, b, c, d, e] (Fin 0)) (0 + ka + kb + kc + kd + ke)"
  unfolding five_sums using assms by (intro int_val_add int_val_Fin) simp_all

lemma int_val_term:
  assumes "q = of_int m" "\<bar>m\<bar> \<le> 4"
  shows "int_val (fp_add b64 (Fin 0) (fp_mul b64 (Fin q) (Fin (of_int (uint (a :: byte)))))) (m * uint a)"
proof -
  have u: "0 \<le> uint a" "uint a < 256" using uint_bounds [of a] by simp_all
  have "\<bar>m\<bar> * uint a \<le> 4 * 256" using assms(2) u by (intro mult_mono) simp_all
  then have b: "\<bar>m * uint a\<bar> \<le> 1024" using u by (simp add: abs_mult)
  have "int_val (fp_add b64 (Fin 0) (fp_mul b64 (Fin q) (Fin (of_int (uint a))))) (0 + m * uint a)"
    using b by (intro int_val_add int_val_mul int_val_Fin byte_val) (simp_all add: assms(1))
  then show ?thesis by simp
qed

definition symmetric_window :: "byte \<Rightarrow> byte \<Rightarrow> byte \<Rightarrow> fp list" where
  "symmetric_window a b c = as_doubles [a, b, c, b, a]"

lemma symmetric_sums:
  fixes a b c :: byte
  defines "y \<equiv> symmetric_window a b c"
  shows "int_val (scalar_sum double_arith y (Fin 0)) (2 * uint a + 2 * uint b + uint c)"
    "int_val (sum_xy y) 0" "int_val (sum_x2y y) (8 * uint a + 2 * uint b)"
proof -
  have bs: "0 \<le> uint a" "uint a < 256" "0 \<le> uint b" "uint b < 256" "0 \<le> uint c" "uint c < 256"
    using uint_bounds [of a] uint_bounds [of b] uint_bounds [of c] by simp_all
  let ?d = "\<lambda>w :: byte. Fin (of_int (uint w))"
  have y: "y = [?d a, ?d b, ?d c, ?d b, ?d a]" by (simp add: y_def symmetric_window_def as_doubles_def)
  have "int_val (scalar_sum double_arith y (Fin 0)) (0 + uint a + uint b + uint c + uint b + uint a)"
    unfolding y using bs by (intro int_val_five byte_val) simp_all
  then show "int_val (scalar_sum double_arith y (Fin 0)) (2 * uint a + 2 * uint b + uint c)"
    by (rule int_val_eq) simp
  have "int_val (sum_xy y) (0 + - 2 * uint a + - 1 * uint b + 0 * uint c + 1 * uint b + 2 * uint a)"
    unfolding sum_xy_def y places5_def five_sums(2) using bs by (intro int_val_five int_val_term) simp_all
  then show "int_val (sum_xy y) 0" by simp
  have "int_val (sum_x2y y) (0 + 4 * uint a + 1 * uint b + 0 * uint c + 1 * uint b + 4 * uint a)"
    unfolding sum_x2y_def y squares5_def five_sums(2) using bs by (intro int_val_five int_val_term) simp_all
  then show "int_val (sum_x2y y) (8 * uint a + 2 * uint b)" by simp
qed

definition curvature :: "byte \<Rightarrow> byte \<Rightarrow> byte \<Rightarrow> int" where
  "curvature a b c = uint c + uint b - 2 * uint a"

lemma symmetric_fit:
  fixes a b c :: byte
  defines "y \<equiv> symmetric_window a b c"
  shows "int_val (fit_b1 y) 0" "has_val (fit_b2 y) (rnd b64 (- (of_int (curvature a b c) / 7)))"
proof -
  have bs: "0 \<le> uint a" "uint a < 256" "0 \<le> uint b" "uint b < 256" "0 \<le> uint c" "uint c < 256"
    using uint_bounds [of a] uint_bounds [of b] uint_bounds [of c] by simp_all
  note sums = symmetric_sums [of a b c, folded y_def]
  have "int_val (fit_b1 y) (0 - 0 * (8 * uint a + 2 * uint b))"
    unfolding fit_b1_def using bs by (intro int_val_sub int_val_mul int_val_Fin sums) simp_all
  then show b1: "int_val (fit_b1 y) 0" by simp
  have half: "int_val (fp_mul b64 (Fin (1 / 2)) (sum_x2y y)) (4 * uint a + uint b)"
    using sums(3) bs by (intro int_val_half) simp_all
  let ?n = "fp_sub b64 (fp_sub b64 (sum_y y) (fp_mul b64 (Fin (1 / 2)) (sum_x2y y))) (fp_mul b64 (Fin 0) (fit_b1 y))"
  have "int_val ?n (2 * uint a + 2 * uint b + uint c - (4 * uint a + uint b) - 0 * 0)"
    unfolding sum_y_def by (intro int_val_sub int_val_mul int_val_Fin half b1 sums) (use bs in linarith | simp)+
  then have n: "has_val ?n (of_int (curvature a b c))" by (simp add: int_val_def curvature_def algebra_simps)
  let ?q = "of_int (curvature a b c) / - 7 :: rat"
  have k: "\<bar>curvature a b c\<bar> \<le> 1000" unfolding curvature_def using bs by linarith
  then have "\<bar>of_int (curvature a b c) :: rat\<bar> \<le> of_int 1000" by (simp only: of_int_abs [symmetric] of_int_le_iff)
  then have "of_int (- 1000) \<le> ?q" "?q \<le> of_int 1000" by (auto simp: abs_le_iff)
  then have "of_int (- 1000) \<le> rnd b64 ?q" "rnd b64 ?q \<le> of_int 1000"
    using double.between_int [of "- 1000" ?q 1000] by simp_all
  then have "\<bar>rnd b64 ?q\<bar> < 2 powi (bias b64 + 1)" by (intro b64_limit) (simp add: abs_le_iff)
  from has_val_quotient [OF n _ _ this] show "has_val (fit_b2 y) (rnd b64 (- (of_int (curvature a b c) / 7)))"
    by (simp add: fit_b2_def)
qed

lemma rnd_away: "1 / 8 \<le> \<bar>q\<bar> \<Longrightarrow> 1 / 8 \<le> \<bar>rnd b64 q\<bar>"
proof -
  have e: "rnd b64 (1 / 8) = 1 / 8"
    using rnd_grid [of 1 b64 "- 3"] by (simp add: b64_def ulp_min_def bias_def powi_numerals)
  have pos: "1 / 8 \<le> rnd b64 x" if "1 / 8 \<le> x" for x using rnd_mono [OF that, of b64] e by simp
  assume "1 / 8 \<le> \<bar>q\<bar>"
  then consider "1 / 8 \<le> q" | "1 / 8 \<le> - q" by linarith
  then show ?thesis using pos [of q] pos [of "- q"] by cases (simp_all add: rnd_uminus)
qed

lemma curvature_away: "k \<noteq> 0 \<Longrightarrow> 1 / 8 \<le> \<bar>- (of_int k / 7 :: rat)\<bar>"
proof -
  assume "k \<noteq> 0"
  then have "(of_int 1 :: rat) \<le> of_int \<bar>k\<bar>" unfolding of_int_le_iff by simp
  then show ?thesis by simp
qed

text \<open>The vertex lies in the middle, unless the parabola is flat.\<close>

lemma symmetric_vertex:
  fixes a b c :: byte
  defines "y \<equiv> symmetric_window a b c"
  shows "if curvature a b c = 0 then fit_vertex double_arith places5 y = NaN
    else int_val (fit_vertex double_arith places5 y) 0"
proof -
  have bs: "0 \<le> uint a" "uint a < 256" "0 \<le> uint b" "uint b < 256" "0 \<le> uint c" "uint c < 256"
    using uint_bounds [of a] uint_bounds [of b] uint_bounds [of c] by simp_all
  have k: "\<bar>curvature a b c\<bar> \<le> 1000" unfolding curvature_def using bs by linarith
  note b = symmetric_fit [of a b c, folded y_def]
  let ?v = "rnd b64 (- (of_int (curvature a b c) / 7))"
  have v: "\<bar>?v\<bar> \<le> 1000"
  proof -
    have "\<bar>of_int (curvature a b c) :: rat\<bar> \<le> of_int 1000" using k by (simp only: of_int_abs [symmetric] of_int_le_iff)
    then have "of_int (- 1000) \<le> - (of_int (curvature a b c) / (7 :: rat))" "- (of_int (curvature a b c) / (7 :: rat)) \<le> of_int 1000"
      by (auto simp: abs_le_iff)
    then show ?thesis using double.between_int [of "- 1000" "- (of_int (curvature a b c) / 7)" 1000] by (simp add: abs_le_iff)
  qed
  have p: "has_val (fp_mul b64 (Fin 0) (fit_b2 y)) 0"
    using has_val_product [of "Fin 0" 0 _ _ b64, OF _ b(2)] by simp
  have "has_val (fp_sub b64 (fit_b1 y) (fp_mul b64 (Fin 0) (fit_b2 y))) 0"
    using has_val_sub [OF b(1) [unfolded int_val_def] p, of b64] by simp
  then have "has_val (fp_div b64 (fp_sub b64 (fit_b1 y) (fp_mul b64 (Fin 0) (fit_b2 y))) (Fin 10)) 0"
    using has_val_quotient [of _ 0 "Fin 10" 10 b64] by simp
  from has_val_neg [OF this]
  have n: "has_val (fp_neg (fp_div b64 (fp_sub b64 (fit_b1 y) (fp_mul b64 (Fin 0) (fit_b2 y))) (Fin 10))) 0" by simp
  have "of_int (- 10000) \<le> 2 * ?v" "2 * ?v \<le> of_int 10000" using v by (auto simp: abs_le_iff)
  then have "\<bar>rnd b64 (2 * ?v)\<bar> \<le> 10000"
    using double.between_int [of "- 10000" "2 * ?v" 10000] by (simp add: abs_le_iff)
  then have "\<bar>rnd b64 (2 * ?v)\<bar> < 2 powi (bias b64 + 1)" by (intro b64_limit) simp
  from has_val_product [OF _ b(2) this, of "Fin 2"]
  have d: "has_val (fp_mul b64 (Fin 2) (fit_b2 y)) (rnd b64 (2 * ?v))" by simp
  show ?thesis
  proof (cases "curvature a b c = 0")
    case True
    then have "has_val (fp_mul b64 (Fin 2) (fit_b2 y)) 0" using d by simp
    from has_val_finite [OF n] has_val_finite [OF this] True show ?thesis
      by (simp add: fit_five fp_div_def Let_def)
  next
    case False
    then have "1 / 8 \<le> \<bar>?v\<bar>" by (intro rnd_away curvature_away)
    then have "1 / 8 \<le> \<bar>2 * ?v\<bar>" by linarith
    from rnd_away [OF this] have "rnd b64 (2 * ?v) \<noteq> 0" by linarith
    from has_val_quotient [OF n d this] False show ?thesis by (simp add: fit_five int_val_def)
  qed
qed

lemma symmetric_resolved:
  assumes "2 \<le> p" "p < 65536" "take 5 (drop (p - 2) ds) = as_doubles [a, b, c, b, a]"
  shows "peak_resolve double_arith ds p 5 = Some (if uint c + uint b = 2 * uint a then NaN else Fin (of_nat p))"
proof -
  let ?y = "symmetric_window a b c"
  have "map (\<lambda>i. ar_int double_arith (int i - 2)) [0..<5] = places5"
    by (simp add: double_arith_def upt_rec exact_eval places5_def)
  moreover have "length (take 5 (drop (p - 2) ds)) = 5" unfolding assms(3) by (simp add: as_doubles_def)
  then have "p - 2 + 5 \<le> length ds" by simp
  then have "peek_at (p - 2) 5 ds = Some ?y"
    using assms(3) by (simp add: peek_at_def symmetric_window_def)
  ultimately have r: "peak_resolve double_arith ds p 5 =
      Some (fp_sub b64 (fp_add b64 (fit_vertex double_arith places5 ?y) (ar_int double_arith (int p - 2))) (ar_int double_arith (- 2)))"
    using assms(1) by (simp add: peak_resolve_def bins_to_offset_def Let_def double_arith_def nat_diff_distrib)
  let ?v = "fit_vertex double_arith places5 ?y"
  have i: "ar_int double_arith (int p - 2) = Fin (of_int (int p - 2))" "ar_int double_arith (- 2) = Fin (- 2)"
    using to_fp_int64 [of "int p - 2"] to_fp_int64 [of "- 2"] assms(2) by (simp_all add: double_arith_def)
  show ?thesis
  proof (cases "curvature a b c = 0")
    case True
    then show ?thesis using symmetric_vertex [of a b c] unfolding r i by (simp add: curvature_def algebra_simps)
  next
    case False
    have "int_val (fp_add b64 ?v (Fin (of_int (int p - 2)))) (0 + (int p - 2))"
      using symmetric_vertex [of a b c] False assms(1,2) by (intro int_val_add int_val_Fin) simp_all
    then have x: "has_val (fp_add b64 ?v (Fin (of_int (int p - 2)))) (of_int (int p - 2))" by (simp add: int_val_def)
    have "fp_sub b64 (fp_add b64 ?v (Fin (of_int (int p - 2)))) (Fin (- 2)) = Fin (of_int (int p))"
      using has_val_finite [OF x] to_fp_int64 [of "int p"] assms(2) by (simp add: fp_sub_def fp_add_def)
    with False show ?thesis unfolding r i by (simp add: curvature_def algebra_simps)
  qed
qed

text \<open>
  C14: A peak whose neighbours are symmetric about it is resolved to its bin exactly, although the fit rounds on the way,
  unless the parabola through the five bins is flat: then zero is divided by zero.
\<close>

theorem symmetric_peak_resolved:
  assumes "2 \<le> p" "p < 65536" "take 5 (drop (p - 2) ds) = as_doubles [a, b, c, b, a]"
  shows "peak_resolve double_arith ds p 5 = Some (if uint c + uint b = 2 * uint a then NaN else Fin (of_nat p))"
  using assms by (rule symmetric_resolved)

theorem symmetric_peak_resolved_witness:
  "peak_resolve double_arith (as_doubles [7, 80, 100, 130, 100, 80]) 3 5 = Some (Fin 3) \<and>
   peak_resolve double_arith (as_doubles [100, 80, 120, 80, 100]) 2 5 = Some NaN"
  using symmetric_peak_resolved [of 3 "as_doubles [7, 80, 100, 130, 100, 80]" 80 100 130]
    symmetric_peak_resolved [of 2 "as_doubles [100, 80, 120, 80, 100]" 100 80 120]
  by (simp add: as_doubles_def)

section \<open>The unit tests\<close>

definition no_peak :: "byte list" where
  "no_peak = replicate 32 0"

definition single_peak :: "byte list" where
  "single_peak = [0, 0, 0, 0, 0, 0, 80, 100, 120, 100, 80, 0, 0, 0, 0, 0,
                  0, 0, 0, 0, 0, 0, 0,  0,   0,   0,   0,  0, 0, 0, 0, 0]"

definition twin_peaks :: "byte list" where
  "twin_peaks = [0, 0, 0, 0, 0, 0, 80, 100, 120, 100, 80,  0,  0, 0, 0, 0,
                 0, 0, 0, 0, 0, 0, 0,  80,  100, 120, 100, 80, 0, 0, 0, 0]"

text \<open>The fixture sets three members of a configuration record and leaves the rest as allocated.\<close>

definition test_configuration :: "configuration_record \<Rightarrow> configuration_record" where
  "test_configuration c = c\<lparr>c_range_in_bins := 32, c_range_gain := f32_of_int 1, c_range_offset := f32_of_int 0\<rparr>"

definition test_finder :: "configuration_record \<Rightarrow> peak_finder" where
  "test_finder c =
     configure (test_configuration c) (f32_of_rat (1 / 4)) (Fin 90) 4 1 Off 10 2 (set_target_callback True new_peak_finder)"

definition test_data :: "byte list \<Rightarrow> fft_record" where
  "test_data bytes =
     \<lparr>f_angle = f64_of_rat (504 / 10), f_azimuth = 1224, f_sweep_counter = 2, f_ntp_seconds = 0, f_ntp_split_seconds = 0,
      f_data = bytes\<rparr>"

lemma finder_members:
  "pf_configuration (test_finder c) = Some (test_configuration c, f32_of_rat (1 / 4))" "pf_threshold (test_finder c) = Fin 90"
  "pf_bins (test_finder c) = 5" "min_bin_to_use (test_finder c) = 1" "pf_max_peaks (test_finder c) = 2"
  "target_callback (test_finder c)" "buffer_mode (test_finder c) = Off" "all_bins (test_configuration c) = 32"
  by (simp_all add: test_finder_def configure_def set_target_callback_def new_peak_finder_def max_bins_to_operate_on_def
    min_bins_to_operate_on_def test_configuration_def all_bins_def)

lemma to_fp_quarters:
  assumes "\<bar>m\<bar> \<le> 1000"
  shows "to_fp b32 (of_int m / 4) = Fin (of_int m / 4)"
proof -
  have "rnd b32 (of_int m * 2 powi (- 2)) = of_int m * 2 powi (- 2)"
    using assms by (intro rnd_grid) (simp_all add: b32_def ulp_min_def bias_def)
  then have r: "rnd b32 (of_int m / 4) = of_int m / 4" by (simp add: powi_numerals)
  have "\<bar>of_int m :: rat\<bar> \<le> of_int 1000" using assms by (simp only: of_int_abs [symmetric] of_int_le_iff)
  then have "\<bar>of_int m / 4 :: rat\<bar> < 2 powi (bias b32 + 1)" by (intro b32_limit) simp
  then show ?thesis by (simp add: to_fp_def r Let_def)
qed

lemma val32_quarter: "\<bar>m\<bar> \<le> 1000 \<Longrightarrow> val32 (mk32 (Fin (of_int m / 4))) = Fin (of_int m / 4)"
  using rep_to_fp [of b32 "of_int m / 4"] by (simp add: to_fp_quarters val32_mk32)

lemma quarter: "val32 (f32_of_rat (1 / 4)) = Fin (1 / 4)"
  using val32_quarter [of 1] to_fp_quarters [of 1] by (simp add: f32_of_rat_def)

lemma limits: "range_limit 5 (f32_of_rat (1 / 4)) = Fin (5 / 4)" "range_limit 32 (f32_of_rat (1 / 4)) = Fin 8"
  using val32_quarter [of 5] to_fp_quarters [of 5] val32_quarter [of 32] to_fp_quarters [of 32] val32_of_int [of 5] val32_of_int [of 32]
  by (simp_all add: range_limit_def f32_mul_def quarter fp_mul_def Let_def)

lemma test_range:
  assumes "0 < p" "p \<le> 32"
  shows "peak_range (test_configuration c) (f32_of_rat (1 / 4)) (Fin (of_nat p)) = Fin (of_nat p / 4)"
proof -
  have i: "of_int \<lfloor>of_nat p * 16 :: rat\<rfloor> = (of_nat p * 16 :: rat)" "of_int \<lfloor>of_nat p * 4 :: rat\<rfloor> = (of_nat p * 4 :: rat)"
    by (metis floor_of_nat of_int_of_nat_eq of_nat_mult of_nat_numeral)+
  have "(of_nat p :: rat) \<le> of_nat 32" using assms(2) unfolding of_nat_le_iff .
  then have "to_fp b64 (of_nat p) = Fin (of_nat p)" "to_fp b64 (of_nat p / 4) = Fin (of_nat p / 4)"
    using i by (simp_all add: to_fp_sixteenths)
  then show ?thesis
    using assms val32_of_int [of 0] val32_of_int [of 1]
    by (simp add: peak_range_def quarter test_configuration_def fp_mul_def fp_add_def Let_def)
qed

lemma no_peak_found: "find_peak_bin (Fin 90) (as_doubles no_peak) 1 32 5 False = Some (False, 32)"
  by (simp add: find_peak_bin_def find_peak_loop.simps as_doubles_def no_peak_def nth_opt_def fp_less_def numeral_eq_Suc)

lemma single_peak_found:
  "find_peak_bin (Fin 90) (as_doubles single_peak) 1 32 5 False = Some (True, 8)"
  "find_peak_bin (Fin 90) (as_doubles single_peak) 13 32 5 True = Some (False, 32)"
  by (simp_all add: find_peak_bin_def find_peak_loop.simps as_doubles_def single_peak_def nth_opt_def fp_less_def)

lemma twin_peaks_found:
  "find_peak_bin (Fin 90) (as_doubles twin_peaks) 1 32 5 False = Some (True, 8)"
  "find_peak_bin (Fin 90) (as_doubles twin_peaks) 13 32 5 True = Some (True, 25)"
  by (simp_all add: find_peak_bin_def find_peak_loop.simps as_doubles_def twin_peaks_def nth_opt_def fp_less_def)

lemma test_resolved:
  assumes "as_doubles bytes = ds" "take 5 (drop (p - 2) bytes) = [80, 100, 120, 100, 80]" "5 < p" "p \<le> 32"
  shows "peak_resolve double_arith ds p 5 = Some (Fin (of_nat p))"
    "\<not> range_rejected 5 32 (f32_of_rat (1 / 4)) (Fin (of_nat p / 4))"
proof -
  have "take 5 (drop (p - 2) ds) = as_doubles [80, 100, 120, 100, 80]"
    unfolding assms(1) [symmetric] as_doubles_def take_map drop_map using assms(2) by simp
  from symmetric_resolved [OF _ _ this] assms(3,4) show "peak_resolve double_arith ds p 5 = Some (Fin (of_nat p))" by simp
  have "(of_nat 5 :: rat) < of_nat p" "(of_nat p :: rat) \<le> of_nat 32"
    using assms(3,4) unfolding of_nat_le_iff of_nat_less_iff by simp_all
  then show "\<not> range_rejected 5 32 (f32_of_rat (1 / 4)) (Fin (of_nat p / 4))"
    by (simp add: range_rejected_def limits fp_less_def)
qed

lemma test_run:
  assumes "length bytes = 32"
    "find_peaks_loop (test_finder c) (test_configuration c) (f32_of_rat (1 / 4)) (as_doubles bytes) 0 1 False [] 0 = Some (aw, ts)"
  shows "fft_data_handler lib (test_data bytes) (test_finder c) =
    Some ((test_finder c)\<lparr>awaiting_rise := aw\<rparr>, if ts = [] then None else
      Some \<lparr>t_azimuth = 1224, t_angle = f64_of_rat (504 / 10), t_ntp_seconds = 0, t_ntp_split_seconds = 0, targets = ts\<rparr>)"
  using assms by (simp add: fft_data_handler_def find_peaks_def finder_members test_data_def)

lemma no_peak_run:
  "find_peaks_loop (test_finder c) (test_configuration c) m (as_doubles no_peak) 0 1 False [] 0 = Some (False, [])"
proof -
  have "find_peaks_loop (test_finder c) (test_configuration c) m (as_doubles no_peak) 32 37 False [] 0 = Some (False, [])"
    by (subst find_peaks_loop.simps) (simp add: finder_members)
  then show ?thesis
    by (subst find_peaks_loop.simps) (simp add: finder_members no_peak_found del: One_nat_def)
qed

lemma single_peak_run:
  "find_peaks_loop (test_finder c) (test_configuration c) (f32_of_rat (1 / 4)) (as_doubles single_peak) 0 1 False [] 0 =
     Some (False, [(Fin 2, Fin 120)])"
proof -
  note r = test_resolved [OF refl, of 8 single_peak] test_range [of 8 c]
  have power: "nth_opt (as_doubles single_peak) 8 = Some (Fin 120)"
    by (simp add: nth_opt_def as_doubles_def single_peak_def)
  have "find_peaks_loop (test_finder c) (test_configuration c) (f32_of_rat (1 / 4)) (as_doubles single_peak) 32 37 False
      [(Fin 2, Fin 120)] 1 = Some (False, [(Fin 2, Fin 120)])"
    by (subst find_peaks_loop.simps) (simp add: finder_members)
  then have "find_peaks_loop (test_finder c) (test_configuration c) (f32_of_rat (1 / 4)) (as_doubles single_peak) 8 13 True
      [(Fin 2, Fin 120)] 1 = Some (False, [(Fin 2, Fin 120)])"
    by (subst find_peaks_loop.simps) (simp add: finder_members single_peak_found)
  moreover have "take 5 (drop 6 single_peak) = [80, 100, 120, 100, 80]" by (simp add: single_peak_def)
  ultimately show ?thesis
    using r by (subst find_peaks_loop.simps) (simp add: finder_members single_peak_found power del: One_nat_def)
qed

lemma twin_peaks_run:
  "find_peaks_loop (test_finder c) (test_configuration c) (f32_of_rat (1 / 4)) (as_doubles twin_peaks) 0 1 False [] 0 =
     Some (True, [(Fin 2, Fin 120), (Fin (25 / 4), Fin 120)])"
proof -
  note r = test_resolved [OF refl, of 8 twin_peaks] test_range [of 8 c] test_resolved [OF refl, of 25 twin_peaks] test_range [of 25 c]
  have power: "nth_opt (as_doubles twin_peaks) 8 = Some (Fin 120)" "nth_opt (as_doubles twin_peaks) 25 = Some (Fin 120)"
    by (simp_all add: nth_opt_def as_doubles_def twin_peaks_def)
  have w: "take 5 (drop 6 twin_peaks) = [80, 100, 120, 100, 80]" "take 5 (drop 23 twin_peaks) = [80, 100, 120, 100, 80]"
    by (simp_all add: twin_peaks_def)
  have "find_peaks_loop (test_finder c) (test_configuration c) (f32_of_rat (1 / 4)) (as_doubles twin_peaks) 8 13 True
      [(Fin 2, Fin 120)] 1 = Some (True, [(Fin 2, Fin 120), (Fin (25 / 4), Fin 120)])"
    using r w by (subst find_peaks_loop.simps) (simp add: finder_members twin_peaks_found power del: One_nat_def)
  then show ?thesis
    using r w by (subst find_peaks_loop.simps) (simp add: finder_members twin_peaks_found power del: One_nat_def)
qed

text \<open>
  The unit tests of the peak finder hold: nothing is reported from an azimuth without a peak, one target at two
  metres from the azimuth with one peak, and two targets, at two and at six and a quarter metres, from the azimuth
  with two; the whole reports are given.
\<close>

theorem unit_tests_pass:
  "map_option snd (fft_data_handler lib (test_data no_peak) (test_finder c)) = Some None \<and>
   map_option snd (fft_data_handler lib (test_data single_peak) (test_finder c)) = Some (Some
     \<lparr>t_azimuth = 1224, t_angle = f64_of_rat (504 / 10), t_ntp_seconds = 0, t_ntp_split_seconds = 0, targets = [(Fin 2, Fin 120)]\<rparr>) \<and>
   map_option snd (fft_data_handler lib (test_data twin_peaks) (test_finder c)) = Some (Some
     \<lparr>t_azimuth = 1224, t_angle = f64_of_rat (504 / 10), t_ntp_seconds = 0, t_ntp_split_seconds = 0,
      targets = [(Fin 2, Fin 120), (Fin (25 / 4), Fin 120)]\<rparr>)"
  using test_run [of no_peak, OF _ no_peak_run] test_run [of single_peak, OF _ single_peak_run]
    test_run [of twin_peaks, OF _ twin_peaks_run]
  by (simp_all add: no_peak_def single_peak_def twin_peaks_def)

end
