(* ===== verification/Legacy_Threads.thy ===== *)
theory Legacy_Threads
  imports Timer
begin

text \<open>
  \<open>cpp/threadedclass.h\<close>, \<open>.cpp\<close>, \<open>threadedqueue.h\<close>, \<open>timer.h\<close> and \<open>.cpp\<close>: the worker thread, the queue and
  the timer of the predecessor SDK, and how they compare with their successors in \<open>Threaded_Queue\<close> and
  \<open>Timer\<close>.  The thread is behind a pointer here, so that a thread that was joined and no thread differ.
\<close>

section \<open>The thread base\<close>

text \<open>The pointer to the thread: null, or a thread that is joinable or not.\<close>

record legacy_thread =
  l_thread :: "bool option"
  l_stop_requested :: bool

definition legacy_join :: "'a legacy_thread_scheme \<Rightarrow> 'a legacy_thread_scheme" where
  "legacy_join t = (if l_thread t = None \<or> l_thread t = Some False then t else t\<lparr>l_thread := Some False\<rparr>)"

definition legacy_start_thread ::
    "('a legacy_thread_scheme \<Rightarrow> 'a legacy_thread_scheme) \<Rightarrow> 'a legacy_thread_scheme \<Rightarrow> 'a legacy_thread_scheme" where
  "legacy_start_thread post_start t =
     (if l_thread t = Some True then t
      else post_start (if l_thread t = None then t\<lparr>l_stop_requested := False, l_thread := Some True\<rparr> else t))"

definition legacy_stop_thread ::
    "(bool \<Rightarrow> 'a legacy_thread_scheme \<Rightarrow> 'a legacy_thread_scheme) \<Rightarrow> bool \<Rightarrow>
      'a legacy_thread_scheme \<Rightarrow> 'a legacy_thread_scheme" where
  "legacy_stop_thread pre_stop finish_work t =
     (if l_thread t = None then t
      else if l_stop_requested t then t
      else (legacy_join (pre_stop finish_work (t\<lparr>l_stop_requested := True\<rparr>)))\<lparr>l_thread := None\<rparr>)"

fun legacy_thread_method :: "('s \<Rightarrow> 's) \<Rightarrow> bool list \<Rightarrow> 's \<Rightarrow> 's" where
  "legacy_thread_method work [] s = s"
| "legacy_thread_method work (stop # stops) s = (if stop then s else legacy_thread_method work stops (work s))"

section \<open>The queue\<close>

record 'i legacy_queue = legacy_thread +
  l_stopping :: bool
  l_items :: "'i list"
  l_callback_set :: bool
  l_delivered :: "'i list"

definition legacy_queue_depth :: nat where
  "legacy_queue_depth = 10000"

definition legacy_queue_enqueue :: "'i \<Rightarrow> 'i legacy_queue \<Rightarrow> 'i legacy_queue" where
  "legacy_queue_enqueue item q =
     (if l_stopping q \<or> \<not> l_callback_set q \<or> l_thread q = None \<or> l_thread q = Some False \<or>
         length (l_items q) > legacy_queue_depth then q
      else q\<lparr>l_items := l_items q @ [item]\<rparr>)"

definition legacy_set_dequeue_callback :: "bool \<Rightarrow> 'i legacy_queue \<Rightarrow> 'i legacy_queue" where
  "legacy_set_dequeue_callback given q = q\<lparr>l_callback_set := given\<rparr>"

definition legacy_deliver :: "'i \<Rightarrow> 'i legacy_queue \<Rightarrow> 'i legacy_queue" where
  "legacy_deliver item q = (if l_callback_set q then q\<lparr>l_delivered := l_delivered q @ [item]\<rparr> else q)"

definition legacy_work_once :: "'i legacy_queue \<Rightarrow> 'i legacy_queue" where
  "legacy_work_once q =
     (case l_items q of [] \<Rightarrow> q | item # rest \<Rightarrow> legacy_deliver item (q\<lparr>l_items := rest\<rparr>))"

definition legacy_dequeue :: "'i legacy_queue \<Rightarrow> bool \<times> 'i legacy_queue" where
  "legacy_dequeue q =
     (let q' = (case l_items q of [] \<Rightarrow> q | item # rest \<Rightarrow> legacy_deliver item (q\<lparr>l_items := rest\<rparr>))
      in (l_items q' = [], q'))"

function legacy_drain :: "'i legacy_queue \<Rightarrow> 'i legacy_queue" where
  "legacy_drain q = (case legacy_dequeue q of (finished, q') \<Rightarrow> if finished then q' else legacy_drain q')"
  by pat_completeness auto

lemma legacy_deliver_members [simp]:
  "l_items (legacy_deliver x q) = l_items q" "l_thread (legacy_deliver x q) = l_thread q"
  by (simp_all add: legacy_deliver_def)

termination legacy_drain
proof (relation "measure (\<lambda>q. length (l_items q))")
  fix q finished and q' :: "'i legacy_queue"
  assume "(finished, q') = legacy_dequeue q" "\<not> finished"
  then show "(q', q) \<in> measure (\<lambda>q. length (l_items q))"
    by (auto simp: legacy_dequeue_def Let_def split: list.splits)
qed simp

declare legacy_drain.simps [simp del]

definition legacy_queue_pre_stop :: "bool \<Rightarrow> 'i legacy_queue \<Rightarrow> 'i legacy_queue" where
  "legacy_queue_pre_stop finish_work q =
     (let q1 = q\<lparr>l_stopping := True\<rparr>;
          q2 = (if finish_work then legacy_drain q1 else q1)
      in q2\<lparr>l_items := []\<rparr>)"

definition legacy_queue_post_start :: "'i legacy_queue \<Rightarrow> 'i legacy_queue" where
  "legacy_queue_post_start q = q\<lparr>l_stopping := False\<rparr>"

definition legacy_start_queue :: "'i legacy_queue \<Rightarrow> 'i legacy_queue" where
  "legacy_start_queue = legacy_start_thread legacy_queue_post_start"

definition legacy_stop_queue :: "bool \<Rightarrow> 'i legacy_queue \<Rightarrow> 'i legacy_queue" where
  "legacy_stop_queue = legacy_stop_thread legacy_queue_pre_stop"

section \<open>The timer\<close>

record legacy_timer = legacy_thread +
  l_timeoutms :: u32
  l_is_enabled :: bool
  l_timer_callback :: bool
  l_fired :: nat

definition legacy_timer_of :: "bool \<Rightarrow> u32 \<Rightarrow> legacy_timer" where
  "legacy_timer_of stop ms = \<lparr>l_thread = None, l_stop_requested = stop, l_timeoutms = ms, l_is_enabled = False,
     l_timer_callback = False, l_fired = 0\<rparr>"

definition legacy_timer_default :: "bool \<Rightarrow> legacy_timer" where
  "legacy_timer_default stop = legacy_timer_of stop 1000"

definition legacy_set_timer_callback :: "bool \<Rightarrow> legacy_timer \<Rightarrow> legacy_timer" where
  "legacy_set_timer_callback given t = t\<lparr>l_timer_callback := given\<rparr>"

definition legacy_set_timeout :: "u32 \<Rightarrow> legacy_timer \<Rightarrow> legacy_timer" where
  "legacy_set_timeout ms t = t\<lparr>l_timeoutms := ms\<rparr>"

text \<open>The readings of a turn are those of \<open>wait_loop\<close>, in whole milliseconds.\<close>

fun legacy_wait_loop :: "int \<Rightarrow> int \<Rightarrow> (int \<times> int \<times> int \<times> bool) list \<Rightarrow> bool" where
  "legacy_wait_loop timeout now [] = False"
| "legacy_wait_loop timeout now ((test, elapsed, base, stop) # turns) =
     (if \<not> test < now + timeout then True
      else (let now' = (if \<bar>elapsed - now\<bar> > 15000 then base else now) in
        if stop then True else legacy_wait_loop timeout now' turns))"

definition legacy_fire :: "legacy_timer \<Rightarrow> legacy_timer" where
  "legacy_fire t = (if l_is_enabled t \<and> l_timer_callback t then t\<lparr>l_fired := l_fired t + 1\<rparr> else t)"

definition legacy_timer_work :: "int \<Rightarrow> (int \<times> int \<times> int \<times> bool) list \<Rightarrow> legacy_timer \<Rightarrow> legacy_timer option" where
  "legacy_timer_work now turns t =
     (if legacy_wait_loop (uint (l_timeoutms t)) now turns then Some (legacy_fire t) else None)"

definition legacy_enable_timer :: "bool \<Rightarrow> legacy_timer \<Rightarrow> legacy_timer" where
  "legacy_enable_timer e t =
     (if l_is_enabled t \<noteq> e then
        (let t1 = t\<lparr>l_is_enabled := e\<rparr> in
         if e then legacy_start_thread (\<lambda>t. t) t1 else legacy_stop_thread (\<lambda>finish t. t) False t1)
      else t)"

section \<open>Refinement\<close>

text \<open>The successor's queue that a queue of the predecessor stands for.\<close>

definition queue_of :: "'i legacy_queue \<Rightarrow> 'i threaded_queue" where
  "queue_of q = \<lparr>joinable = (l_thread q = Some True), stop_requested = l_stop_requested q, stopping = l_stopping q,
     items = l_items q, callback_set = l_callback_set q, delivered = l_delivered q\<rparr>"

lemma queue_of_members [simp]:
  "joinable (queue_of q) \<longleftrightarrow> l_thread q = Some True" "stop_requested (queue_of q) = l_stop_requested q"
  "stopping (queue_of q) = l_stopping q" "items (queue_of q) = l_items q" "callback_set (queue_of q) = l_callback_set q"
  "delivered (queue_of q) = l_delivered q"
  by (simp_all add: queue_of_def)

lemma queue_of_enqueue: "queue_of (legacy_queue_enqueue x q) = enqueue x (queue_of q)"
  by (auto simp: queue_of_def legacy_queue_enqueue_def enqueue_def legacy_queue_depth_def max_queue_depth_def)

lemma queue_of_deliver: "queue_of (legacy_deliver x q) = deliver x (queue_of q)"
  by (simp add: queue_of_def legacy_deliver_def deliver_def)

lemma queue_of_items: "queue_of (q\<lparr>l_items := xs\<rparr>) = (queue_of q)\<lparr>items := xs\<rparr>"
  by (simp add: queue_of_def)

lemma queue_of_work: "queue_of (legacy_work_once q) = work_once (queue_of q)"
  by (simp add: legacy_work_once_def work_once_def queue_of_deliver queue_of_items split: list.splits)

lemma queue_of_callback: "queue_of (legacy_set_dequeue_callback b q) = set_dequeue_callback b (queue_of q)"
  by (simp add: queue_of_def legacy_set_dequeue_callback_def set_dequeue_callback_def)

lemma queue_of_dequeue:
  "dequeue (queue_of q) = (fst (legacy_dequeue q), queue_of (snd (legacy_dequeue q)))"
  by (simp add: dequeue_def legacy_dequeue_def Let_def queue_of_deliver queue_of_items split: list.splits)

lemma queue_of_drain: "queue_of (legacy_drain q) = drain (queue_of q) \<and> l_thread (legacy_drain q) = l_thread q"
proof (induction q rule: legacy_drain.induct)
  case (1 q)
  obtain f q' where d: "legacy_dequeue q = (f, q')" by (cases "legacy_dequeue q")
  have t: "l_thread q' = l_thread q" using d by (auto simp: legacy_dequeue_def Let_def split: list.splits)
  show ?case
    using 1 [OF d [symmetric]] t by (subst (1 2) legacy_drain.simps, subst drain.simps) (simp add: queue_of_dequeue d)
qed

lemma queue_of_pre_stop:
  "queue_of (legacy_queue_pre_stop f q) = queue_pre_stop f (queue_of q) \<and> l_thread (legacy_queue_pre_stop f q) = l_thread q"
proof -
  have s: "queue_of (q\<lparr>l_stopping := True\<rparr>) = (queue_of q)\<lparr>stopping := True\<rparr>" by (simp add: queue_of_def)
  then show ?thesis
    using queue_of_drain [of "q\<lparr>l_stopping := True\<rparr>"]
    by (simp add: legacy_queue_pre_stop_def queue_pre_stop_def Let_def queue_of_items s)
qed

lemma queue_of_start:
  assumes "l_thread q \<noteq> Some False"
  shows "queue_of (legacy_start_queue q) = start_queue (queue_of q)" "l_thread (legacy_start_queue q) \<noteq> Some False"
  using assms by (auto simp: queue_of_def legacy_start_queue_def legacy_start_thread_def start_queue_def start_thread_def
    legacy_queue_post_start_def queue_post_stop_def)

lemma queue_of_stop:
  assumes "l_thread q \<noteq> Some False"
  shows "queue_of (legacy_stop_queue f q) = stop_queue f (queue_of q)" "l_thread (legacy_stop_queue f q) \<noteq> Some False"
proof -
  let ?q = "q\<lparr>l_stop_requested := True\<rparr>"
  have s: "queue_of ?q = (queue_of q)\<lparr>stop_requested := True\<rparr>" by (simp add: queue_of_def)
  note p = queue_of_pre_stop [of f ?q, unfolded s]
  have j: "queue_of ((legacy_join r)\<lparr>l_thread := None\<rparr>) = join_thread (queue_of r)" if "l_thread r = Some True" for r :: "'a legacy_queue"
    using that by (simp add: queue_of_def legacy_join_def join_thread_def)
  show "queue_of (legacy_stop_queue f q) = stop_queue f (queue_of q)"
    using assms p j [of "legacy_queue_pre_stop f ?q"]
    by (auto simp: legacy_stop_queue_def legacy_stop_thread_def stop_queue_def stop_thread_def)
  show "l_thread (legacy_stop_queue f q) \<noteq> Some False"
    using assms by (simp add: legacy_stop_queue_def legacy_stop_thread_def)
qed

section \<open>Calls\<close>

text \<open>The calls that reach a queue, from its clients and from its worker.\<close>

datatype 'i queue_call = Start_call | Stop_call bool | Enqueue_call 'i | Callback_call bool | Work_call

fun legacy_call :: "'i queue_call \<Rightarrow> 'i legacy_queue \<Rightarrow> 'i legacy_queue" where
  "legacy_call Start_call q = legacy_start_queue q"
| "legacy_call (Stop_call f) q = legacy_stop_queue f q"
| "legacy_call (Enqueue_call x) q = legacy_queue_enqueue x q"
| "legacy_call (Callback_call b) q = legacy_set_dequeue_callback b q"
| "legacy_call Work_call q = legacy_work_once q"

fun successor_call :: "'i queue_call \<Rightarrow> 'i threaded_queue \<Rightarrow> 'i threaded_queue" where
  "successor_call Start_call q = start_queue q"
| "successor_call (Stop_call f) q = stop_queue f q"
| "successor_call (Enqueue_call x) q = enqueue x q"
| "successor_call (Callback_call b) q = set_dequeue_callback b q"
| "successor_call Work_call q = work_once q"

lemma legacy_call_refines:
  assumes "l_thread q \<noteq> Some False"
  shows "queue_of (legacy_call call q) = successor_call call (queue_of q) \<and> l_thread (legacy_call call q) \<noteq> Some False"
proof
  show "queue_of (legacy_call call q) = successor_call call (queue_of q)"
    using assms by (cases call)
      (simp_all add: queue_of_start queue_of_stop queue_of_enqueue queue_of_callback queue_of_work)
  show "l_thread (legacy_call call q) \<noteq> Some False"
    using assms by (cases call) (auto simp: queue_of_start queue_of_stop legacy_queue_enqueue_def
      legacy_set_dequeue_callback_def legacy_work_once_def split: list.splits)
qed

text \<open>
  C19: whatever calls they get, the queues of the two generations hold the same items, deliver the same items and run or
  do not run alike, unless somebody joins the thread without stopping it.
\<close>

theorem queue_generations_agree:
  assumes "l_thread q \<noteq> Some False"
  shows "queue_of (fold legacy_call calls q) = fold successor_call calls (queue_of q)"
  using assms
proof (induction calls arbitrary: q)
  case (Cons call calls)
  then show ?case using legacy_call_refines [of q call] by simp
qed simp

text \<open>
  A thread of the predecessor that ended at the request of a stop and was joined by another call is never started
  again, while its successor starts again.
\<close>

lemma joined_call:
  assumes "l_thread q = Some False" "l_stop_requested q"
  shows "l_thread (legacy_call call q) = Some False \<and> l_stop_requested (legacy_call call q)"
  using assms by (cases call) (auto simp: legacy_start_queue_def legacy_start_thread_def legacy_queue_post_start_def
    legacy_stop_queue_def legacy_stop_thread_def legacy_queue_enqueue_def legacy_set_dequeue_callback_def
    legacy_work_once_def legacy_deliver_def split: list.splits)

theorem joined_queue_never_starts:
  assumes "l_thread q = Some True" "l_stop_requested q"
  shows "l_thread (fold legacy_call calls (legacy_join q)) = Some False \<and>
    joinable (start_queue (join_thread (queue_of q)))"
proof -
  have "l_thread (fold legacy_call calls r) = Some False" if "l_thread r = Some False" "l_stop_requested r" for r :: "'a legacy_queue"
    using that by (induction calls arbitrary: r) (simp_all add: joined_call)
  then show ?thesis
    using assms by (simp add: legacy_join_def join_thread_def start_queue_def start_thread_def queue_post_stop_def)
qed

section \<open>The timers\<close>

text \<open>Readings of a clock that does not go back.\<close>

fun steady :: "int \<Rightarrow> (int \<times> int \<times> int \<times> bool) list \<Rightarrow> bool" where
  "steady previous [] = True"
| "steady previous ((test, elapsed, base, stop) # turns) \<longleftrightarrow>
     previous \<le> test \<and> test \<le> elapsed \<and> elapsed \<le> base \<and> steady base turns"

definition timer_view :: "legacy_timer \<Rightarrow> timer" where
  "timer_view t = \<lparr>joinable = (l_thread t = Some True), stop_requested = l_stop_requested t,
     timeout_in_milliseconds = uint (l_timeoutms t), is_enabled = l_is_enabled t, timer_callback = l_timer_callback t,
     fired = l_fired t\<rparr>"

lemma wait_loops_agree:
  "steady previous turns \<Longrightarrow> now \<le> previous \<Longrightarrow> legacy_wait_loop timeout now turns = wait_loop timeout now turns"
proof (induction turns arbitrary: previous now)
  case (Cons turn turns)
  then show ?case by (cases turn) (auto simp: Let_def)
qed simp

text \<open>On a steady clock the timers of the two generations fire alike, and they are switched on and off alike.\<close>

theorem timer_generations_agree:
  assumes "steady now turns" "l_thread t \<noteq> Some False"
  shows "map_option timer_view (legacy_timer_work now turns t) = timer_work now turns (timer_view t) \<and>
    timer_view (legacy_enable_timer e t) = enable_timer e (timer_view t)"
proof
  have "timer_view (legacy_fire t) = fire (timer_view t)" by (simp add: timer_view_def legacy_fire_def fire_def)
  then show "map_option timer_view (legacy_timer_work now turns t) = timer_work now turns (timer_view t)"
    using wait_loops_agree [OF assms(1) order_refl, of "uint (l_timeoutms t)"]
    by (simp add: legacy_timer_work_def timer_work_def) (simp add: timer_view_def)
  show "timer_view (legacy_enable_timer e t) = enable_timer e (timer_view t)"
    using assms(2) by (auto simp: timer_view_def legacy_enable_timer_def enable_timer_def Let_def legacy_start_thread_def
      start_thread_def legacy_stop_thread_def stop_thread_def legacy_join_def join_thread_def)
qed

section \<open>Witnesses\<close>

definition idle_queue :: "nat legacy_queue" where
  "idle_queue = \<lparr>l_thread = None, l_stop_requested = False, l_stopping = False, l_items = [], l_callback_set = False,
     l_delivered = []\<rparr>"

theorem queue_generations_agree_witness:
  "queue_of (fold legacy_call [Callback_call True, Start_call, Enqueue_call 7, Work_call, Stop_call True] idle_queue) =
     fold successor_call [Callback_call True, Start_call, Enqueue_call 7, Work_call, Stop_call True] (queue_of idle_queue)"
  by (rule queue_generations_agree) (simp add: idle_queue_def)

theorem joined_queue_never_starts_witness:
  "l_thread (fold legacy_call [Start_call, Stop_call False, Start_call]
     (legacy_join (idle_queue\<lparr>l_thread := Some True, l_stop_requested := True\<rparr>))) = Some False"
  by (rule joined_queue_never_starts [THEN conjunct1]) simp_all

theorem timer_generations_agree_witness:
  "map_option timer_view (legacy_timer_work 0 minute_of_turns (legacy_timer_of False 60000)) =
     timer_work 0 minute_of_turns (timer_view (legacy_timer_of False 60000))"
  using timer_generations_agree [of 0 minute_of_turns "legacy_timer_of False 60000"]
  by (simp add: minute_of_turns_def legacy_timer_of_def)

end
