(* ===== verification/Programs.thy ===== *)
theory Programs
  imports Peak_Finder Legacy_Radar_Client
begin

text \<open>
  The programs of the two SDKs: \<open>cpp_17/navigation_main.cpp\<close>, which looks for peaks in what the radar client
  receives, and \<open>testclient_main.cpp\<close> of \<open>cpp_17\<close> and of \<open>cpp\<close>, which count packets.  A program is the record of
  its global variables; what the radar client reports is dispatched to the program's handlers, and log lines
  that carry results are kept.  Signals are numbers, as delivered on Linux; waiting is left out.
  The last section holds the signal handler (\<open>cpp_17/utility/signal_handler.h\<close>).
\<close>

section \<open>The navigation client\<close>

record ('s, 'p, 'h) navigation_program =
  np_radar :: "('s, 'p, 'h) radar_client"
  np_finder :: peak_finder
  np_running :: bool
  np_reports :: "azimuth_target list"

definition new_navigation_program :: "'s \<Rightarrow> ('s, 'p, 'h) navigation_program" where
  "new_navigation_program s =
     \<lparr>np_radar = make_radar_client (IP 0xC0A80001) 6317 s, np_finder = new_peak_finder, np_running = True, np_reports = []\<rparr>"

definition handle_sig_int :: "int \<Rightarrow> ('s, 'p, 'h) navigation_program \<Rightarrow> ('s, 'p, 'h) navigation_program" where
  "handle_sig_int sig p = (if sig = 49 \<or> sig = 2 \<or> sig = 15 then p\<lparr>np_running := False\<rparr> else p)"

text \<open>The target callback of the finder is the handler that logs the targets.\<close>

definition program_fft_handler ::
    "libm \<Rightarrow> fft_record \<Rightarrow> ('s, 'p, 'h) navigation_program \<Rightarrow> ('s, 'p, 'h) navigation_program option" where
  "program_fft_handler lib fft p = do {
     (pf, target) \<leftarrow> fft_data_handler lib fft (np_finder p);
     Some (p\<lparr>np_finder := pf,
             np_reports := (case target of None \<Rightarrow> np_reports p | Some t \<Rightarrow> np_reports p @ [t])\<rparr>) }"

definition program_configuration_handler ::
    "'s os_calls \<Rightarrow> ('p, 'h) protobufs \<Rightarrow> configuration_record \<Rightarrow> 'p \<Rightarrow> ('s, 'p, 'h) navigation_program \<Rightarrow>
      ('s, 'p, 'h) navigation_program option" where
  "program_configuration_handler os pb config proto p = do {
     let pf = configure config (range_resolution_metres pb proto) (Fin 80) 4 50 Off 10 10 (np_finder p);
     radar \<leftarrow> start_fft_stream os (np_radar p);
     Some (p\<lparr>np_finder := pf, np_radar := radar\<rparr>) }"

fun program_event ::
    "'s os_calls \<Rightarrow> ('p, 'h) protobufs \<Rightarrow> libm \<Rightarrow> ('p, 'h) event \<Rightarrow> ('s, 'p, 'h) navigation_program \<Rightarrow>
      ('s, 'p, 'h) navigation_program option" where
  "program_event os pb lib (Fft_event fft) p = program_fft_handler lib fft p"
| "program_event os pb lib (Configuration_event config proto) p = program_configuration_handler os pb config proto p"
| "program_event os pb lib e p = Some p"

fun program_events ::
    "'s os_calls \<Rightarrow> ('p, 'h) protobufs \<Rightarrow> libm \<Rightarrow> ('p, 'h) event list \<Rightarrow> ('s, 'p, 'h) navigation_program \<Rightarrow>
      ('s, 'p, 'h) navigation_program option" where
  "program_events os pb lib [] p = Some p"
| "program_events os pb lib (e # es) p = do { p1 \<leftarrow> program_event os pb lib e p; program_events os pb lib es p1 }"

definition program_start :: "('s, 'p, 'h) navigation_program \<Rightarrow> ('s, 'p, 'h) navigation_program" where
  "program_start p =
     p\<lparr>np_finder := set_target_callback True (np_finder p),
       np_radar := start_radar_client (set_health_data_callback True (set_configuration_data_callback True
         (set_fft_data_callback True (np_radar p))))\<rparr>"

definition program_stop :: "'s os_calls \<Rightarrow> ('s, 'p, 'h) navigation_program \<Rightarrow> ('s, 'p, 'h) navigation_program option" where
  "program_stop os p = do {
     r1 \<leftarrow> stop_fft_stream os (np_radar p);
     Some (p\<lparr>np_finder := set_target_callback False (np_finder p),
       np_radar := stop_radar_client os (set_configuration_data_callback False (set_fft_data_callback False r1))\<rparr>) }"

section \<open>The test client\<close>

text \<open>A line on a rotation: its length in milliseconds, its packets, their rate.\<close>

record rotation_line =
  rl_frequency :: float64
  rl_packets :: u16
  rl_rate :: float64

record ('s, 'p, 'h) test_client =
  tc_last_azimuth :: u16
  tc_packet_count :: u16
  tc_last_rotation_reset :: u64
  tc_rotated_once :: bool
  tc_radar :: "('s, 'p, 'h) radar_client"
  tc_log :: "rotation_line list"

definition new_test_client :: "u64 \<Rightarrow> 's \<Rightarrow> ('s, 'p, 'h) test_client" where
  "new_test_client now s = \<lparr>tc_last_azimuth = 0, tc_packet_count = 0, tc_last_rotation_reset = now, tc_rotated_once = False,
     tc_radar = make_radar_client (IP 0x7F000001) 6317 s, tc_log = []\<rparr>"

definition f64_of_u64 :: "u64 \<Rightarrow> float64" where
  "f64_of_u64 w = f64_of_int (uint w)"

text \<open>Two readings of the clock: for the difference and for the new reset.\<close>

definition test_fft_handler :: "u64 \<Rightarrow> u64 \<Rightarrow> fft_record \<Rightarrow> ('s, 'p, 'h) test_client \<Rightarrow> ('s, 'p, 'h) test_client" where
  "test_fft_handler now1 now2 fft t =
     (let t1 = t\<lparr>tc_packet_count := tc_packet_count t + 1\<rparr>;
          t2 = (if f_azimuth fft < tc_last_azimuth t1 then
            (let diff = now1 - tc_last_rotation_reset t1;
                 rate = f64_div (f64_of_int (uint (tc_packet_count t1))) (f64_div (f64_of_u64 diff) (f64_of_int 1000));
                 line = \<lparr>rl_frequency = f64_div (f64_of_int 1000) (f64_of_u64 diff), rl_packets = tc_packet_count t1,
                         rl_rate = rate\<rparr>
             in t1\<lparr>tc_log := (if tc_rotated_once t1 then tc_log t1 @ [line] else tc_log t1),
                   tc_last_rotation_reset := now2, tc_packet_count := 0, tc_rotated_once := True\<rparr>)
            else t1)
      in t2\<lparr>tc_last_azimuth := f_azimuth fft\<rparr>)"

definition test_configuration_handler :: "'s os_calls \<Rightarrow> ('s, 'p, 'h) test_client \<Rightarrow> ('s, 'p, 'h) test_client option" where
  "test_configuration_handler os t = do {
     let t1 = t\<lparr>tc_packet_count := 0, tc_last_azimuth := 0\<rparr>;
     r1 \<leftarrow> request_navigation_configuration os (tc_radar t1);
     r2 \<leftarrow> start_navigation_data os r1;
     Some (t1\<lparr>tc_radar := r2\<rparr>) }"

definition test_start :: "'s os_calls \<Rightarrow> ('s, 'p, 'h) test_client \<Rightarrow> ('s, 'p, 'h) test_client option" where
  "test_start os t = do {
     let r0 = start_radar_client (set_navigation_data_callback True (set_navigation_config_callback True
       (set_configuration_data_callback True (set_fft_data_callback True (tc_radar t)))));
     r1 \<leftarrow> request_navigation_configuration os r0;
     r2 \<leftarrow> request_navigation_configuration os r1;
     Some (t\<lparr>tc_radar := r2\<rparr>) }"

definition test_stop :: "'s os_calls \<Rightarrow> ('s, 'p, 'h) test_client \<Rightarrow> ('s, 'p, 'h) test_client option" where
  "test_stop os t = do {
     r1 \<leftarrow> stop_navigation_data os (tc_radar t);
     r2 \<leftarrow> stop_fft_stream os r1;
     Some (t\<lparr>tc_radar := stop_radar_client os (set_navigation_config_callback False (set_fft_data_callback False
       (set_configuration_data_callback False r2)))\<rparr>) }"

section \<open>The test client of the predecessor\<close>

text \<open>It prints every azimuth.\<close>

record 's legacy_test_client =
  lt_last_azimuth :: u16
  lt_packet_count :: u16
  lt_last_rotation_reset :: u64
  lt_radar :: "'s legacy_radar"
  lt_printed :: "u16 list"

definition new_legacy_test_client :: "u64 \<Rightarrow> 's \<Rightarrow> 's legacy_test_client" where
  "new_legacy_test_client now s = \<lparr>lt_last_azimuth = 0, lt_packet_count = 0, lt_last_rotation_reset = now,
     lt_radar = legacy_make_radar ''10.77.2.170'' 6317 s, lt_printed = []\<rparr>"

definition legacy_test_fft :: "u64 \<Rightarrow> legacy_fft_record \<Rightarrow> 's legacy_test_client \<Rightarrow> 's legacy_test_client" where
  "legacy_test_fft now fft t =
     (let t1 = t\<lparr>lt_packet_count := lt_packet_count t + 1\<rparr>;
          t2 = (if lf_azimuth fft < lt_last_azimuth t1
            then t1\<lparr>lt_last_rotation_reset := now, lt_packet_count := 0\<rparr> else t1)
      in t2\<lparr>lt_printed := lt_printed t2 @ [lf_azimuth fft], lt_last_azimuth := lf_azimuth fft\<rparr>)"

definition legacy_test_configuration :: "'s os_calls \<Rightarrow> 's legacy_test_client \<Rightarrow> 's legacy_test_client option" where
  "legacy_test_configuration os t = do {
     let t1 = t\<lparr>lt_packet_count := 0, lt_last_azimuth := 0\<rparr>;
     r1 \<leftarrow> legacy_set_gain_and_offset os (f32_of_int 1) (f32_of_int 0) (lt_radar t1);
     Some (t1\<lparr>lt_radar := legacy_start_navigation os (legacy_start_fft os (legacy_set_threshold os (60 * 10) r1))\<rparr>) }"

text \<open>The first peak is read whether there is one or not.\<close>

definition legacy_test_navigation :: "legacy_navigation_record \<Rightarrow> 's legacy_test_client \<Rightarrow> 's legacy_test_client option" where
  "legacy_test_navigation nav t = (if ln_peaks nav = [] then None else Some t)"

fun legacy_test_event :: "'s os_calls \<Rightarrow> u64 \<Rightarrow> legacy_event \<Rightarrow> 's legacy_test_client \<Rightarrow> 's legacy_test_client option" where
  "legacy_test_event os now (Legacy_fft fft) t = Some (legacy_test_fft now fft t)"
| "legacy_test_event os now (Legacy_navigation nav) t = legacy_test_navigation nav t"
| "legacy_test_event os now (Legacy_configuration c) t = legacy_test_configuration os t"

definition legacy_test_start :: "'s legacy_test_client \<Rightarrow> 's legacy_test_client" where
  "legacy_test_start t =
     t\<lparr>lt_radar := legacy_start_radar (legacy_set_navigation_callback True (legacy_set_configuration_callback True
       (legacy_set_fft_callback True (lt_radar t))))\<rparr>"

definition legacy_test_stop :: "'s os_calls \<Rightarrow> 's legacy_test_client \<Rightarrow> 's legacy_test_client" where
  "legacy_test_stop os t =
     t\<lparr>lt_radar := legacy_stop_radar os (legacy_set_fft_callback False (legacy_set_configuration_callback False
       (legacy_set_navigation_callback False (legacy_stop_fft os (lt_radar t)))))\<rparr>"

section \<open>The navigation client finds peaks\<close>

definition program_finder :: "peak_finder \<Rightarrow> bool" where
  "program_finder pf \<longleftrightarrow> (\<exists>config metres pf0. pf = configure config metres (Fin 80) 4 50 Off 10 10 pf0)"

lemma configured_members:
  "pf_bins (configure config metres thr 4 mn mode len peaks pf) = 5"
  "awaiting_rise_update f (configure config metres thr bins mn mode len peaks pf) =
     configure config metres thr bins mn mode len peaks (awaiting_rise_update f pf)"
  by (simp_all add: configure_def max_bins_to_operate_on_def min_bins_to_operate_on_def)

lemma find_peaks_keeps:
  "find_peaks az ang ntp split ds pf = Some (pf', target) \<Longrightarrow> \<exists>aw. pf' = pf\<lparr>awaiting_rise := aw\<rparr>"
  by (auto simp: find_peaks_def Option.bind_eq_Some_conv split: option.splits)

text \<open>An azimuth is handled without undefined behaviour, and reports between one and ten targets if it reports any.\<close>

lemma program_finder_step:
  assumes "program_finder pf"
  shows "\<exists>pf' target. fft_data_handler lib fft pf = Some (pf', target) \<and> program_finder pf' \<and>
    (\<forall>t. target = Some t \<longrightarrow> targets t \<noteq> [] \<and> length (targets t) \<le> 10)"
proof -
  obtain config metres pf0 where pf: "pf = configure config metres (Fin 80) 4 50 Off 10 10 pf0"
    using assms by (auto simp: program_finder_def)
  have m: "pf_configuration pf = Some (config, metres)" "buffer_mode pf = Off" by (simp_all add: pf configure_def)
  show ?thesis
  proof (cases "length (f_data fft) = all_bins config")
    case True
    then have len: "length (as_doubles (f_data fft)) = all_bins config" by (simp add: as_doubles_def)
    have "bins_to_offset (pf_bins pf) \<le> 50" by (simp add: pf configured_members bins_to_offset_def)
    from find_peaks_result [OF len pf this] obtain pf' target where
      f: "find_peaks (f_azimuth fft) (f_angle fft) (f_ntp_seconds fft) (f_ntp_split_seconds fft) (as_doubles (f_data fft)) pf =
        Some (pf', target)" "case target of None \<Rightarrow> True | Some t \<Rightarrow> targets t \<noteq> [] \<and> length (targets t) \<le> max 1 10"
      by (fastforce split: option.splits)
    moreover from find_peaks_keeps [OF f(1)] have "program_finder pf'"
      by (auto simp: program_finder_def pf configured_members(2))
    ultimately show ?thesis using m True by (auto simp: fft_data_handler_def Let_def split: option.splits)
  next
    case False
    then show ?thesis using m assms by (simp add: fft_data_handler_def)
  qed
qed

lemma program_event_step:
  assumes "program_finder (np_finder p)"
  shows "\<exists>p'. program_event os pb lib e p = Some p' \<and> program_finder (np_finder p') \<and>
    (\<exists>ts. np_reports p' = np_reports p @ ts \<and> (\<forall>t \<in> set ts. targets t \<noteq> [] \<and> length (targets t) \<le> 10))"
proof (cases e)
  case (Fft_event fft)
  obtain pf' target where f: "fft_data_handler lib fft (np_finder p) = Some (pf', target)" "program_finder pf'"
      "\<forall>t. target = Some t \<longrightarrow> targets t \<noteq> [] \<and> length (targets t) \<le> 10"
    using program_finder_step [OF assms] by blast
  show ?thesis
  proof (cases target)
    case (Some t) with f Fft_event show ?thesis by (intro exI [of _ "p\<lparr>np_finder := pf', np_reports := np_reports p @ [t]\<rparr>"])
      (simp add: program_fft_handler_def)
  qed (use f Fft_event in \<open>simp add: program_fft_handler_def\<close>)
next
  case (Configuration_event config proto)
  then show ?thesis
    by (auto simp: program_configuration_handler_def start_fft_stream_def send_simple program_finder_def Let_def)
qed (use assms in simp_all)

lemma program_events_step:
  assumes "program_finder (np_finder p)"
  shows "\<exists>p'. program_events os pb lib es p = Some p' \<and>
    (\<exists>ts. np_reports p' = np_reports p @ ts \<and> (\<forall>t \<in> set ts. targets t \<noteq> [] \<and> length (targets t) \<le> 10))"
  using assms
proof (induction es arbitrary: p)
  case (Cons e es)
  from program_event_step [OF Cons.prems, of os pb lib e] obtain p1 ts1 where
    p1: "program_event os pb lib e p = Some p1" "program_finder (np_finder p1)" "np_reports p1 = np_reports p @ ts1"
      "\<forall>t \<in> set ts1. targets t \<noteq> [] \<and> length (targets t) \<le> 10" by blast
  from Cons.IH [OF p1(2)] obtain p' ts2 where
    p2: "program_events os pb lib es p1 = Some p'" "np_reports p' = np_reports p1 @ ts2"
      "\<forall>t \<in> set ts2. targets t \<noteq> [] \<and> length (targets t) \<le> 10" by blast
  show ?case
    using p1 p2 by (intro exI [of _ p']) (auto intro!: exI [of _ "ts1 @ ts2"])
qed simp

text \<open>
  C12: the values that the navigation client configures its finder with meet what the finder needs: once the
  configuration has arrived, no later message makes the search read outside its data, whatever its length, and
  every report of an azimuth has between one and ten targets.
\<close>

theorem navigation_client_defined:
  "\<exists>p'. program_events os pb lib (Configuration_event config proto # es) p = Some p' \<and>
    (\<exists>ts. np_reports p' = np_reports p @ ts \<and> list_all (\<lambda>t. targets t \<noteq> [] \<and> length (targets t) \<le> 10) ts)"
proof -
  obtain p1 where p1: "program_event os pb lib (Configuration_event config proto) p = Some p1" "program_finder (np_finder p1)"
      "np_reports p1 = np_reports p"
    by (auto simp: program_configuration_handler_def start_fft_stream_def send_simple program_finder_def Let_def)
  then show ?thesis using program_events_step [OF p1(2), of os pb lib es] by (auto simp: list_all_iff)
qed

section \<open>The test client counts a rotation\<close>

fun test_fft_all :: "(u64 \<times> u64 \<times> fft_record) list \<Rightarrow> ('s, 'p, 'h) test_client \<Rightarrow> ('s, 'p, 'h) test_client" where
  "test_fft_all [] t = t"
| "test_fft_all ((now1, now2, fft) # rest) t = test_fft_all rest (test_fft_handler now1 now2 fft t)"

definition packet_azimuth :: "u64 \<times> u64 \<times> fft_record \<Rightarrow> u16" where
  "packet_azimuth x = f_azimuth (snd (snd x))"

lemma within_rotation:
  assumes "sorted (tc_last_azimuth t # map packet_azimuth ffts)"
  shows "tc_log (test_fft_all ffts t) = tc_log t \<and> tc_rotated_once (test_fft_all ffts t) = tc_rotated_once t \<and>
    tc_packet_count (test_fft_all ffts t) = tc_packet_count t + of_nat (length ffts) \<and>
    tc_last_rotation_reset (test_fft_all ffts t) = tc_last_rotation_reset t \<and>
    tc_last_azimuth (test_fft_all ffts t) = (if ffts = [] then tc_last_azimuth t else packet_azimuth (last ffts))"
  using assms
proof (induction ffts arbitrary: t)
  case (Cons x ffts)
  obtain n1 n2 f where x: "x = (n1, n2, f)" by (cases x)
  have n: "\<not> f_azimuth f < tc_last_azimuth t" using Cons.prems x by (simp add: not_less packet_azimuth_def)
  have s: "test_fft_handler n1 n2 f t = t\<lparr>tc_packet_count := tc_packet_count t + 1, tc_last_azimuth := f_azimuth f\<rparr>"
    using n by (simp add: test_fft_handler_def Let_def)
  show ?case using Cons.IH [of "test_fft_handler n1 n2 f t"] Cons.prems x by (auto simp: s packet_azimuth_def)
qed simp

text \<open>
  After the first rotation, a rotation that starts with the packet after a wrap and ends with the next wrap gives
  one line with the number of its packets, its frequency and their rate, and the count starts again; the number is
  that of the packets modulo \<open>2 ^ 16\<close>.
\<close>

theorem rotation_counted:
  assumes "tc_rotated_once t" "tc_packet_count t = 0" "ffts \<noteq> []"
    "sorted (tc_last_azimuth t # map packet_azimuth ffts)" "f_azimuth fft < packet_azimuth (last ffts)"
  shows "\<exists>line. tc_log (test_fft_all (ffts @ [(now1, now2, fft)]) t) = tc_log t @ [line] \<and>
    rl_packets line = of_nat (length ffts + 1) \<and>
    rl_frequency line = f64_div (f64_of_int 1000) (f64_of_u64 (now1 - tc_last_rotation_reset t)) \<and>
    tc_packet_count (test_fft_all (ffts @ [(now1, now2, fft)]) t) = 0"
proof -
  have app: "test_fft_all (ffts @ ys) u = test_fft_all ys (test_fft_all ffts u)" for ys and u :: "('a, 'b, 'c) test_client"
    by (induction ffts arbitrary: u) auto
  show ?thesis
    using within_rotation [OF assms(4)] assms(1-3,5) by (simp add: app test_fft_handler_def Let_def add.commute)
qed

section \<open>The test client of the predecessor\<close>

text \<open>
  A navigation message without peaks makes the test client of the predecessor read the first of no peaks, where
  its successor only counts them.
\<close>

theorem legacy_test_client_needs_peaks:
  "legacy_test_event os now (Legacy_navigation nav) t = None \<longleftrightarrow> ln_peaks nav = []"
  by (simp add: legacy_test_navigation_def)

section \<open>Witnesses\<close>

definition packet :: "u16 \<Rightarrow> fft_record" where
  "packet az = \<lparr>f_angle = F64 0, f_azimuth = az, f_sweep_counter = 0, f_ntp_seconds = 0, f_ntp_split_seconds = 0, f_data = []\<rparr>"

definition turning_client :: "(nat, nat, nat) test_client" where
  "turning_client = (new_test_client 100 0)\<lparr>tc_rotated_once := True\<rparr>"

theorem rotation_counted_witness:
  "\<exists>line. tc_log (test_fft_all [(0, 0, packet 5), (0, 0, packet 9), (350, 350, packet 1)] turning_client) = [line] \<and>
     rl_packets line = 3"
proof -
  have "\<exists>line. tc_log (test_fft_all ([(0, 0, packet 5), (0, 0, packet 9)] @ [(350, 350, packet 1)]) turning_client) =
      tc_log turning_client @ [line] \<and> rl_packets line = of_nat (length [(0 :: u64, 0 :: u64, packet 5), (0, 0, packet 9)] + 1)"
    using rotation_counted [of turning_client "[(0, 0, packet 5), (0, 0, packet 9)]" "packet 1" 350 350]
    by (auto simp: turning_client_def new_test_client_def packet_def packet_azimuth_def)
  then show ?thesis by (simp add: turning_client_def new_test_client_def)
qed

section \<open>Signals\<close>

text \<open>
  \<open>cpp_17/utility/signal_handler.h\<close>: what the process does with a signal, which belongs to the operating system, and the
  callbacks of the only \<open>Signal_handler\<close> of a program.
\<close>

datatype disposition = Default_action | Ignore_signal | Call_handler

record 'h signals =
  dispositions :: "int \<Rightarrow> disposition"
  signal_callbacks :: "int \<rightharpoonup> 'h"
  my_cb :: bool

definition register_handler :: "int \<Rightarrow> 'h option \<Rightarrow> 'h signals \<Rightarrow> 'h signals" where
  "register_handler sig cb s =
     (case cb of None \<Rightarrow> s
      | Some f \<Rightarrow>
          (let s1 = s\<lparr>signal_callbacks := (signal_callbacks s)(sig \<mapsto> f), my_cb := True\<rparr>
           in if dispositions s1 sig \<noteq> Ignore_signal then s1\<lparr>dispositions := (dispositions s1)(sig := Call_handler)\<rparr> else s1))"

definition unregister_handler :: "int \<Rightarrow> 'h signals \<Rightarrow> 'h signals" where
  "unregister_handler sig s = s\<lparr>signal_callbacks := (signal_callbacks s)(sig := None)\<rparr>"

datatype 'h reaction = By_default | No_reaction | No_callback | Called 'h int int

text \<open>\<open>CallCb\<close> and \<open>Handler\<close>.\<close>

definition deliver_signal :: "int \<Rightarrow> int \<Rightarrow> 'h signals \<Rightarrow> 'h reaction" where
  "deliver_signal sig info s =
     (case dispositions s sig of
        Default_action \<Rightarrow> By_default
      | Ignore_signal \<Rightarrow> No_reaction
      | Call_handler \<Rightarrow>
          (if \<not> my_cb s then No_callback
           else case signal_callbacks s sig of None \<Rightarrow> No_reaction | Some f \<Rightarrow> Called f sig info))"

text \<open>
  A signal that is not ignored calls the callback registered for it. Once the callback is taken off, the process
  neither calls it nor returns to the default action, so that an interrupt no longer ends the program. A signal that
  was ignored stays ignored.
\<close>

theorem unregistered_signal_is_lost:
  "deliver_signal sig info (register_handler sig (Some f) s) =
     (if dispositions s sig = Ignore_signal then No_reaction else Called f sig info) \<and>
   deliver_signal sig info (unregister_handler sig (register_handler sig (Some f) s)) = No_reaction"
  by (simp add: deliver_signal_def register_handler_def unregister_handler_def Let_def split: disposition.splits)

end
