(* ===== verification/Spec2Isabelle.thy ===== *)
theory Spec2Isabelle
  imports Sector_Blanking Colossus_Views Message_Access Protobuf_Helpers Queue_Interleaving Laser_Scan B_Scan
    Colossus_Publisher Navigation_Cloud Legacy_Radar_Client Ros1_Talker Ros1_Parameters Ros1_Movement Camera_Nodes
    Peak_Tests Legacy_Threads Programs
begin

text \<open>
  The software of a Navtech radar: the C++17 SDK (\<open>cpp_17\<close>), its predecessor (\<open>cpp\<close>) and the ROS
  nodes built on them (\<open>ros2\<close>, \<open>ros1\<close>).  A radar sends Colossus messages over TCP.  The SDK finds the
  messages in the stream, queues them, and a worker hands each to the radar client, which decodes
  it and calls the user's callbacks; the user's commands go the other way.  The ROS nodes are such
  users: they turn azimuths into point clouds, laser scans, images and files, and subscribers take
  the published messages apart again.

  \<^bold>\<open>Theories and code\<close>, in the order of their imports:

  \<^item> \<open>Prelude\<close>: machine words, their bytes in memory, host and network order, reads and writes of
    buffers with their bounds; the collections \<open>codec\<close> and \<open>buffer\<close> of rewrite rules.
  \<^item> \<open>IEEE_Float\<close>, \<open>IEEE_Props\<close>, \<open>IEEE_Eval\<close>: binary32 and binary64 as sign, zero, fraction, infinity
    and NaN, with rounding to nearest, even; the casts of C++ give \<open>None\<close> where they are undefined.
  \<^item> \<open>Net_Conversion\<close>, \<open>IP_Address\<close>, \<open>Angle\<close>, \<open>Threaded_Queue\<close>, \<open>Queue_Interleaving\<close>, \<open>Timer\<close>,
    \<open>Protobuf_Helpers\<close>: \<open>cpp_17/utility\<close>.  A member function is a function of the state of its object.
    \<open>Queue_Interleaving\<close> splits the queue's functions into the steps between which another thread can
    run, as an inductive relation (a worker, any number of clients, a stopping thread; the guard of
    \<open>enqueue\<close> is tested outside the mutex, each test by a step), and relates it to an abstract queue.
    The operations of \<open>std::queue\<close> are taken as atomic.
  \<^item> \<open>Sector_Blanking\<close>, \<open>Peak_Finder\<close>: \<open>cpp_17/navigation\<close>; \<open>Peak_Tests\<close>: the fit of five bins in \<open>double\<close>,
    and the unit tests of the finder (\<open>cpp_17/unittests\<close>) on its model.
  \<^item> \<open>Colossus_Message\<close>, \<open>Message_Access\<close>, \<open>Colossus_Views\<close>: \<open>colossus_network_message\<close>,
    \<open>colossus_message_base\<close> and \<open>colossus_messages\<close> of \<open>cpp_17/network\<close>.  A message is a byte vector;
    its classes are overlays (locale \<open>overlay\<close>), interpreted for each class.
  \<^item> \<open>Tcp_Socket\<close>, \<open>Tcp_Radar_Client\<close>, \<open>Radar_Client\<close>: the rest of \<open>cpp_17/network\<close>.  The calls of the
    operating system are the fields of \<open>os_calls\<close> (locale \<open>stream_socket\<close> states what a stream socket
    promises); \<open>stream_os\<close> is the instance on which the properties are shown, a stream that arrives
    in pieces cut anywhere.
  \<^item> \<open>Legacy_Messages\<close>, \<open>Legacy_Threads\<close>, \<open>Legacy_Tcp_Client\<close>, \<open>Legacy_Radar_Client\<close>: \<open>cpp\<close>, and how the two
    generations understand each other and behave alike.
  \<^item> \<open>Programs\<close>: the programs of the SDKs (\<open>navigation_main.cpp\<close>, both \<open>testclient_main.cpp\<close>), each the
    record of its global variables, to which the events of its radar client are dispatched.
  \<^item> \<open>Ros_Node\<close>, \<open>Point_Cloud\<close>, \<open>Laser_Scan\<close>, \<open>B_Scan\<close>, \<open>Colossus_Publisher\<close>, \<open>Navigation_Cloud\<close>,
    \<open>Video_Subscribers\<close>: \<open>ros2/src/nav_ros\<close>.  A node is a record; a handler maps a message and a node
    to the node after it and the list of actions it took (publications, parameters set, commands).
    Parameters are an argument, since their values belong to \<open>rclcpp\<close>.
  \<^item> \<open>Camera_Nodes\<close>: \<open>ros2/src/camera_ros\<close>, the publisher of the frames of a camera and the writer of
    its video.  What ROS delivers of the published messages, and in which order, is left open.
  \<^item> \<open>Bearing\<close>, \<open>Ros1_Talker\<close>, \<open>Ros1_Colraw\<close>, \<open>Ros1_Platform\<close>, \<open>Ros1_Parameters\<close>, \<open>Ros1_Movement\<close>: \<open>ros1\<close>,
    on top of the predecessor SDK.  The talker (\<open>talker1.cpp\<close>) gathers a rotation in an image; the recorder
    (\<open>RosToColraw.cpp\<close>) writes such images to files of messages, the mobile platform
    (\<open>Mobile_Platform.cpp\<close>) makes clouds, scans, markers and pictures of them and the movement
    detector compares them.  The parameters of the mobile platform, their limits and their messages are
    those of the generated header \<open>dynamic_paramConfig.h\<close>.  An image is its rows, what OpenCV does with it a field of a record of
    parameters (\<open>cv_lib\<close>, \<open>movement_lib\<close>).

  \<^bold>\<open>Conventions\<close>.  Integers keep their width as words, floats their bits.  \<open>None\<close> is undefined
  behaviour, an exception that nobody catches, or a call that does not return; the text of a
  definition says which.  Errors that the code reports are values of sums, booleans or lists of
  actions.  A callback that is set is an event or action in a list.  Memory is allocated without
  failure, and the host is little-endian.

  \<^bold>\<open>What the lemmas show\<close>.  On the wire: every message class reads back what was built, in any order
  of building; the client finds each message of the stream, also after bytes that are no message;
  commands write their frames; and one theorem below follows an FFT message from the socket to the
  ROS message, byte by byte.  For the queue: order, no loss and a bound in every interleaving, by a
  refinement of an abstract queue, and the interleavings in which stopping hangs, in which it makes
  the worker read an empty queue, and in which the clients pass the limit.  For the computations: the peak
  finder ends, reads only its data, also with the values the navigation client gives it, and
  interpolates the vertex of the parabola, which it hits exactly in \<open>double\<close> when the peak is
  symmetric; its unit tests hold; angles are exact within stated bounds.  For the predecessor: its
  queue refines its successor's, and it reads and writes the same messages.  For the ROS nodes: what
  is published over a rotation, where the bins of an azimuth go in an image and that no pixel is
  written outside of it, that the recorder's records read back with the bins the talker received,
  what the video of a camera holds of the frames that are delivered, and that parameters out of
  their range are refused.  Where the code
  departs from what it means to do the theorem says what it does instead.

  \<^bold>\<open>Fuel and bounds\<close>.  Loops over data are structural or have a measure.  The read thread and the
  timer loop are functions of a number of passes or of the list of clock readings, because they
  need not end; each theorem gives the number that suffices (one more than the bytes to skip) or
  holds for every number.  Joining the read thread runs it for such a number of passes and returns
  when it ends in them.  The questions of the recorder are asked again by nested calls, whose
  depth needs no limit beyond the number of answers (\<open>set_params_depth\<close>).  Sizes are bounded
  where the code bounds them: payloads below 1,000,000 bytes, an image index below \<open>2 ^ 31\<close>.

  \<^bold>\<open>Not modelled\<close>: log lines and streams of text; installation of signal handlers; the programs that
  only connect callbacks and wait; calls of OpenCV, \<open>rclcpp\<close> and the protocol buffer library, which
  are not part of the repository and are parameters where their results matter; the accessors and the
  locking of the statics in the generated header; \<open>ros1/src/CFAR.cpp\<close>, which does not compile.
\<close>

section \<open>From the wire to the publishers\<close>

text \<open>The FFT data records that a radar client has handed to its callback.\<close>

definition fft_events :: "('s, 'p, 'h) radar_client \<Rightarrow> fft_record list" where
  "fft_events r = concat (map (\<lambda>e. case e of Fft_event f \<Rightarrow> [f] | _ \<Rightarrow> []) (events r))"

lemma overlay_bytes:
  fixes o0 o1 s0 s1 a0 a1 t0 t1 t2 t3 u0 u1 u2 u3 :: byte
  defines "h \<equiv> fft_overlay [o0, o1, s0, s1, a0, a1, t0, t1, t2, t3, u0, u1, u2, u3]"
  shows "fft_image h = [o0, o1, s0, s1, a0, a1, t0, t1, t2, t3, u0, u1, u2, u3]"
    and "fft_azimuth h = of_int (256 * uint a0 + uint a1)" "sweep_counter h = of_int (256 * uint s0 + uint s1)"
    and "seconds h = load32 [t0, t1, t2, t3]" "split_seconds h = load32 [u0, u1, u2, u3]"
    and "mem16 (to_uint16_network (fft_azimuth h)) = [a0, a1]"
    and "mem16 (to_uint16_network (sweep_counter h)) = [s0, s1]"
proof -
  have le: "of_int (256 * uint y + uint x) = load16 [x, y]" for x y :: byte
    unfolding load16_def by (rule arg_cong [of _ _ of_int]) simp
  have "fft_azimuth h = load16 [a1, a0]" "sweep_counter h = load16 [s1, s0]"
    by (simp_all add: h_def fft_azimuth_def sweep_counter_def fft_overlay_def to_uint16_host_def ntohs_def mem_load16)
  then show "fft_azimuth h = of_int (256 * uint a0 + uint a1)" "sweep_counter h = of_int (256 * uint s0 + uint s1)"
    by (simp_all only: le)
  show "fft_image h = [o0, o1, s0, s1, a0, a1, t0, t1, t2, t3, u0, u1, u2, u3]"
    unfolding h_def by (rule fft_view.image_lay) (simp add: fft_size_def)
  show "mem16 (to_uint16_network (fft_azimuth h)) = [a0, a1]" "mem16 (to_uint16_network (sweep_counter h)) = [s0, s1]"
    by (simp_all add: h_def fft_azimuth_def sweep_counter_def fft_overlay_def mem_load16)
  show "seconds h = load32 [t0, t1, t2, t3]" "split_seconds h = load32 [u0, u1, u2, u3]"
    by (simp_all add: h_def fft_overlay_def)
qed

lemma swapped_word: "mem32 (to_uint32_network (load32 [t0, t1, t2, t3])) = [t3, t2, t1, t0]"
  by (simp add: to_uint32_network_def mem_htonl mem_load32)

lemma network_length: "mem16 (to_uint16_network (of_nat n)) = [of_nat (n div 256), of_nat n]"
proof -
  have "uint (of_nat n :: u16) = int n mod 65536" by (simp add: unsigned_of_nat take_bit_eq_mod zmod_int)
  then have "mem16 (of_nat n) = le_bytes 2 (int n mod 256 ^ 2)" by (simp add: mem16_def)
  also have "\<dots> = le_bytes 2 (int n)" by (rule le_bytes_mod)
  also have "\<dots> = [of_int (int n), of_int (int n div 256)]" unfolding numeral_2_eq_2 by simp
  also have "int n div 256 = int (n div 256)" by (simp add: zdiv_int)
  finally show ?thesis unfolding to_uint16_network_def mem_htons of_int_of_nat_eq by simp
qed

text \<open>
  C6: an FFT data message on the stream reaches the callback and the ROS message.  One pass of the
  read thread and one turn of the queue's worker take the message, whose header is any fourteen
  bytes, off the stream and report one record: the azimuth and the sweep counter are the
  big-endian numbers of their bytes, the angle is the azimuth times 360 over the encoder size in
  \<open>float\<close>, the two times are their bytes read as little-endian numbers, the bytes are those of the
  message.  The ROS publisher puts it, once the radar has turned, into one message: azimuth and
  sweep counter with the bytes of the wire, the angle as the memory of a \<open>double\<close> of the host (so
  the low byte comes first), their number, modulo 65,536, in network order, and the bytes.  The two
  times come out with their bytes in the opposite order of the wire, because they are swapped by
  the publisher only.  (The stream's first piece holds the whole signature, the message
  has fewer than 900,000 bytes; the queue runs and is empty, an FFT callback is set; the publisher's
  parameters are not due and the azimuth is not below the one before.)
\<close>

theorem fft_from_wire_to_ros:
  assumes "live (tcp_client r)" "pieces (env (tcp_client r)) = p # ps" "16 \<le> length p"
    "stream_pending (env (tcp_client r)) =
       frame 30 ([o0, o1, s0, s1, a0, a1, t0, t1, t2, t3, u0, u1, u2, u3] @ bytes) @ rest" "length bytes < 900000"
    "queue_ready (receive_queue (tcp_client r))" "items (receive_queue (tcp_client r)) = []"
    "cb_fft (callbacks r)" "node_rotated_once n" "\<not> parameters_due n" "node_last_azimuth n \<le> 256 * uint a0 + uint a1"
  shows "\<exists>c1 r1. read_pass stream_os (tcp_client r) = Some (Continue, c1) \<and>
    dispatch_next stream_os pb (r\<lparr>tcp_client := c1\<rparr>) = Some r1 \<and>
    stream_pending (env (tcp_client r1)) = rest \<and> items (receive_queue (tcp_client r1)) = [] \<and>
    (let azimuth = of_int (256 * uint a0 + uint a1);
         angle = f64_of_f32 (f32_div (f32_mul (f32_of_int (uint azimuth)) (f32_of_int 360)) (f32_of_int (uint (rc_encoder_size r))));
         record = \<lparr>f_angle = angle, f_azimuth = azimuth, f_sweep_counter = of_int (256 * uint s0 + uint s1),
           f_ntp_seconds = load32 [t0, t1, t2, t3], f_ntp_split_seconds = load32 [u0, u1, u2, u3], f_data = bytes\<rparr>
     in fft_events r1 = fft_events r @ [record] \<and>
       snd (colossus_fft_data_handler record n) = [Publish_fft
         \<lparr>m_angle = mem64 (bits64 angle), m_azimuth = [a0, a1], m_sweep_counter = [s0, s1],
          m_ntp_seconds = [t3, t2, t1, t0], m_ntp_split_seconds = [u3, u2, u1, u0], m_data = bytes,
          m_data_length = [of_nat (length bytes div 256), of_nat (length bytes)]\<rparr>])"
proof -
  define h where "h = fft_overlay [o0, o1, s0, s1, a0, a1, t0, t1, t2, t3, u0, u1, u2, u3]"
  note hd = overlay_bytes [of o0 o1 s0 s1 a0 a1 t0 t1 t2 t3 u0 u1 u2 u3, folded h_def]
  let ?m = "frame 30 (fft_image h @ bytes)" and ?c = "tcp_client r" and ?e = "fft_event (rc_encoder_size r) h bytes"
  have len: "length (fft_image h @ bytes) < 1000000"
    using assms(5) by (simp add: fft_view.image_size fft_size_def)
  have pend: "stream_pending (env ?c) = ?m @ rest" using assms(4) by (simp only: hd(1))
  obtain s1' where s1': "read_pass stream_os ?c = Some (Continue, ?c\<lparr>env := s1', receive_queue := enqueue ?m (receive_queue ?c)\<rparr>)"
      "stream_pending s1' = rest"
    using read_pass_frame [OF assms(1-3) pend len] by blast
  have q: "enqueue ?m (receive_queue ?c) = (receive_queue ?c)\<lparr>items := [?m]\<rparr>"
    using assms(6,7) by (simp add: enqueue_def queue_ready_def)
  let ?c1 = "?c\<lparr>env := s1', receive_queue := (receive_queue ?c)\<lparr>items := [?m]\<rparr>\<rparr>"
  let ?r0 = "r\<lparr>tcp_client := ?c1\<lparr>receive_queue := deliver ?m ((receive_queue ?c)\<lparr>items := []\<rparr>)\<rparr>\<rparr>"
  obtain tail where tail: "handle_message stream_os pb ?m ?r0 = Some (?r0\<lparr>events := events r @ Fft_event ?e # tail\<rparr>)"
      "concat (map (\<lambda>e. case e of Fft_event f \<Rightarrow> [f] | _ \<Rightarrow> []) tail) = []"
    using fft_message_handled [of bytes stream_os pb h ?r0] assms(5,8) by (cases "cb_raw_fft (callbacks r)") auto
  have "dispatch_next stream_os pb (r\<lparr>tcp_client := ?c1\<rparr>) = handle_message stream_os pb ?m ?r0"
    by (simp add: dispatch_next_def work_once_def)
  then have disp: "dispatch_next stream_os pb (r\<lparr>tcp_client := ?c1\<rparr>) =
      Some (?r0\<lparr>events := events r @ Fft_event ?e # tail\<rparr>)"
    using tail(1) by simp
  have az: "uint (fft_azimuth h) = 256 * uint a0 + uint a1"
    using uint_bounds [of a0] uint_bounds [of a1] unfolding hd(2) uint_word_of_int by simp
  have pub: "snd (colossus_fft_data_handler ?e n) = [Publish_fft (fft_message_of ?e)]"
    using assms(9-11) az by (simp add: colossus_fft_data_handler_def Let_def fft_event_def parameters_due_def wrapped_def)
  have msg: "fft_message_of ?e =
      \<lparr>m_angle = mem64 (bits64 (azimuth_angle (fft_azimuth h) (rc_encoder_size r))), m_azimuth = [a0, a1],
       m_sweep_counter = [s0, s1], m_ntp_seconds = [t3, t2, t1, t0], m_ntp_split_seconds = [u3, u2, u1, u0],
       m_data = bytes, m_data_length = [of_nat (length bytes div 256), of_nat (length bytes)]\<rparr>"
    by (simp add: fft_message_of_def fft_event_def hd(4-7) swapped_word network_length to_vector16_def
        to_vector32_def to_vector64_def to_uint64_host_def)
  have gone: "items (deliver ?m ((receive_queue ?c)\<lparr>items := []\<rparr>)) = []" by (simp add: deliver_def)
  show ?thesis
    by (rule exI [of _ "?c\<lparr>env := s1', receive_queue := enqueue ?m (receive_queue ?c)\<rparr>"],
        rule exI [of _ "?r0\<lparr>events := events r @ Fft_event ?e # tail\<rparr>"])
      (use s1' disp gone tail(2) pub msg in \<open>simp add: q fft_events_def Let_def fft_event_def hd(2-5) azimuth_angle_def\<close>)
qed

definition wire_radar :: "byte list \<Rightarrow> (stream, nat, nat) radar_client" where
  "wire_radar bytes = connected_radar\<lparr>tcp_client := on_stream [bytes], callbacks := no_callbacks\<lparr>cb_fft := True\<rparr>\<rparr>"

theorem fft_from_wire_to_ros_witness:
  "\<exists>c1 r1. read_pass stream_os (tcp_client (wire_radar (frame 30 ([0, 16, 0, 3, 0, 28, 5, 0, 0, 0, 6, 0, 0, 0] @ [1, 2, 3])))) = Some (Continue, c1) \<and>
    dispatch_next stream_os sample_protobufs
      ((wire_radar (frame 30 ([0, 16, 0, 3, 0, 28, 5, 0, 0, 0, 6, 0, 0, 0] @ [1, 2, 3])))\<lparr>tcp_client := c1\<rparr>) = Some r1 \<and>
    map f_azimuth (fft_events r1) = [28]"
proof -
  let ?f = "frame 30 ([0, 16, 0, 3, 0, 28, 5, 0, 0, 0, 6, 0, 0, 0] @ [1, 2, 3])"
  have r: "tcp_client (wire_radar ?f) = on_stream [?f]" "cb_fft (callbacks (wire_radar ?f))"
      "fft_events (wire_radar ?f) = []" "rc_encoder_size (wire_radar ?f) = 0"
    by (simp_all add: wire_radar_def connected_radar_def idle_radar_def make_radar_client_def fft_events_def)
  have q: "receive_queue (on_stream [?f]) = start_queue (set_dequeue_callback True fresh_queue)"
    by (simp add: on_stream_def connected_client_def)
  have live: "live (on_stream [?f])" by (rule live_on_stream) (simp add: frame_def)
  show ?thesis
    using fft_from_wire_to_ros [of "wire_radar ?f" ?f "[]" 0 16 0 3 0 28 5 0 0 0 6 0 0 0 "[1, 2, 3]" "[]" turning_node sample_protobufs] r q live
    by (auto simp: queue_ready_def queue_life set_dequeue_callback_def fresh_queue_def turning_node_def new_rotation_node_def
        parameters_due_def frame_def Let_def)
qed

end
